(* ===== verification/Prelude.thy ===== *)
theory Prelude
  imports Complex_Main "HOL-Library.Word" "HOL-Library.AList" "HOL-Library.Char_ord"
    "HOL-Library.List_Lexorder" "HOL-Library.Sublist" "HOL-Library.Multiset"
begin

text \<open>
  Shared vocabulary of the development: bytes, the exceptions the Python code raises with their
  class hierarchy, the result type of fallible code, dictionaries, and the two families of
  interfaces the components are built on (machines with an invariant, encoders with a decoder).
\<close>

section \<open>Types\<close>

type_synonym byte = "8 word"
type_synonym bytes = "byte list"
type_synonym time = rat

text \<open>
  The exceptions the modelled code raises or catches, each with the text it carries where the code
  looks at it. \<open>except\<close> clauses name classes, so membership in a class is a predicate.
\<close>

datatype exn =
    ProtocolError string
  | TransferRejected string
  | ApprovalTimeout string
  | AuthenticationError string
  | TransferCancelled string
  | DirectConnectionError string
  | ConnectionError string
  | ConnectionRefused
  | TimeoutError
  | FileExistsError
  | OSError string
  | InvalidTag
  | ValueError string
  | EndpointError string
  | InvalidTransferTransition string
  | TypeError string
  | KeyError string
  | RuntimeError string
  | InboxCapacityError string
  | OverflowError string
  | StructError

fun is_ProtocolError :: "exn \<Rightarrow> bool" where
  "is_ProtocolError (ProtocolError _) = True"
| "is_ProtocolError (TransferRejected _) = True"
| "is_ProtocolError (ApprovalTimeout _) = True"
| "is_ProtocolError _ = False"

fun is_ConnectionError :: "exn \<Rightarrow> bool" where
  "is_ConnectionError (ProtocolError _) = True"
| "is_ConnectionError (TransferRejected _) = True"
| "is_ConnectionError (ApprovalTimeout _) = True"
| "is_ConnectionError (AuthenticationError _) = True"
| "is_ConnectionError (TransferCancelled _) = True"
| "is_ConnectionError (DirectConnectionError _) = True"
| "is_ConnectionError (ConnectionError _) = True"
| "is_ConnectionError ConnectionRefused = True"
| "is_ConnectionError _ = False"

fun is_OSError :: "exn \<Rightarrow> bool" where
  "is_OSError TimeoutError = True"
| "is_OSError FileExistsError = True"
| "is_OSError (OSError _) = True"
| "is_OSError e = is_ConnectionError e"

fun is_ValueError :: "exn \<Rightarrow> bool" where
  "is_ValueError (ValueError _) = True"
| "is_ValueError (EndpointError _) = True"
| "is_ValueError (InvalidTransferTransition _) = True"
| "is_ValueError _ = False"

section \<open>Results\<close>

text \<open>A fallible operation returns \<open>Inl\<close> the exception or \<open>Inr\<close> the value.\<close>

type_synonym 'a result = "exn + 'a"

definition bind_result :: "'a result \<Rightarrow> ('a \<Rightarrow> 'b result) \<Rightarrow> 'b result" where
  "bind_result r f = (case r of Inl e \<Rightarrow> Inl e | Inr x \<Rightarrow> f x)"

definition ensure :: "exn \<Rightarrow> bool \<Rightarrow> unit result" where
  "ensure e b = (if b then Inr () else Inl e)"

named_theorems result_simps \<open>equations that evaluate the result type\<close>

lemma bind_result_simps [simp, result_simps]:
  "bind_result (Inl e) f = Inl e"
  "bind_result (Inr x) f = f x"
  by (simp_all add: bind_result_def)

lemma bind_result_eq_Inr [simp, result_simps]:
  "bind_result r f = Inr y \<longleftrightarrow> (\<exists>x. r = Inr x \<and> f x = Inr y)"
  by (cases r) auto

lemma bind_result_eq_Inl [result_simps]:
  "bind_result r f = Inl e \<longleftrightarrow> r = Inl e \<or> (\<exists>x. r = Inr x \<and> f x = Inl e)"
  by (cases r) auto

lemma ensure_eq [simp, result_simps]:
  "ensure e b = Inr u \<longleftrightarrow> b"
  "ensure e b = Inl e' \<longleftrightarrow> \<not> b \<and> e' = e"
  by (auto simp: ensure_def)

lemma ensure_True [simp]: "ensure e True = Inr ()" and ensure_False [simp]: "ensure e False = Inl e"
  by (simp_all add: ensure_def)

lemma bind_ensure: "bind_result (ensure e b) f = (if b then f () else Inl e)"
  by (simp add: ensure_def)

section \<open>Dictionaries\<close>

text \<open>
  A Python dict keeps insertion order: an association list with distinct keys. Assignment replaces
  in place or appends, \<open>pop\<close> removes; these are the library's \<open>AList.update\<close> and \<open>AList.delete\<close>.
\<close>

type_synonym ('k, 'v) dict = "('k \<times> 'v) list"

definition dict_ok :: "('k, 'v) dict \<Rightarrow> bool" where
  "dict_ok d \<longleftrightarrow> distinct (map fst d)"

abbreviation dict_get :: "('k, 'v) dict \<Rightarrow> 'k \<Rightarrow> 'v option" where
  "dict_get \<equiv> map_of"

abbreviation dict_set :: "'k \<Rightarrow> 'v \<Rightarrow> ('k, 'v) dict \<Rightarrow> ('k, 'v) dict" where
  "dict_set \<equiv> AList.update"

abbreviation dict_pop :: "'k \<Rightarrow> ('k, 'v) dict \<Rightarrow> ('k, 'v) dict" where
  "dict_pop \<equiv> AList.delete"

named_theorems dict_simps \<open>laws of dictionaries\<close>

lemma dict_ok_set [simp, dict_simps]: "dict_ok d \<Longrightarrow> dict_ok (dict_set k v d)"
  by (simp add: dict_ok_def distinct_update)

lemma dict_ok_pop [simp, dict_simps]: "dict_ok d \<Longrightarrow> dict_ok (dict_pop k d)"
  by (simp add: dict_ok_def distinct_delete)

lemma dict_ok_Nil [simp, dict_simps]: "dict_ok []"
  by (simp add: dict_ok_def)

lemma dict_ok_filter [simp, dict_simps]: "dict_ok d \<Longrightarrow> dict_ok (filter P d)"
  by (simp add: dict_ok_def distinct_map_filter)

lemma dict_get_set [simp, dict_simps]:
  "dict_get (dict_set k v d) k' = (if k' = k then Some v else dict_get d k')"
  by (simp add: update_conv')

lemma dict_get_pop [simp, dict_simps]:
  "dict_get (dict_pop k d) k' = (if k' = k then None else dict_get d k')"
  by (simp add: delete_conv')

lemma set_dict_set: "set (dict_set k v d) \<subseteq> insert (k, v) (set d)"
  by (induction d) auto

lemma set_dict_pop: "set (dict_pop k d) \<subseteq> set d"
  by (auto simp: AList.delete_eq)

lemma dict_get_in: "dict_get d k = Some v \<Longrightarrow> (k, v) \<in> set d"
  by (rule map_of_SomeD)

lemma dict_in_get: "dict_ok d \<Longrightarrow> (k, v) \<in> set d \<Longrightarrow> dict_get d k = Some v"
  by (simp add: dict_ok_def)

lemma length_dict_set:
  "length (dict_set k v d) = (if dict_get d k = None then Suc (length d) else length d)"
  by (induction d) auto

lemma dict_get_filter:
  "dict_ok d \<Longrightarrow>
   dict_get (filter (\<lambda>(k, v). P k v) d) k =
     (case dict_get d k of None \<Rightarrow> None | Some v \<Rightarrow> if P k v then Some v else None)"
proof (induction d)
  case Nil
  then show ?case by simp
next
  case (Cons a d)
  obtain k' v' where a: "a = (k', v')" by force
  have ok: "dict_ok d" and notin: "k' \<notin> fst ` set d"
    using Cons.prems a by (auto simp: dict_ok_def)
  have "dict_get d k' = None" using notin by (simp add: map_of_eq_None_iff)
  then show ?case using Cons.IH [OF ok] a by auto
qed

lemma dict_get_same_set:
  assumes "dict_ok d" "dict_ok e" "set d = set e"
  shows "dict_get d = dict_get e"
proof
  fix k
  show "dict_get d k = dict_get e k"
    using assms by (cases "dict_get d k") (metis dict_get_in dict_in_get option.exhaust)+
qed

lemma dict_ok_sort [simp]: "dict_ok (sort_key fst d) \<longleftrightarrow> dict_ok d"
proof -
  have "mset (map fst (sort_key fst d)) = mset (map fst d)" by simp
  then show ?thesis unfolding dict_ok_def by (rule mset_eq_imp_distinct_iff)
qed

section \<open>Machines: operations that keep an invariant\<close>

text \<open>
  A component with state is a step function over its commands; methods guarded by one lock are
  atomic, so a concurrent run of a component is a sequence of its commands in some order. The
  contract is one preservation law; the client's lemma lifts it to every run.
\<close>

locale machine =
  fixes step :: "'c \<Rightarrow> 's \<Rightarrow> 's"
    and inv :: "'s \<Rightarrow> bool"
  assumes step_inv: "inv s \<Longrightarrow> inv (step c s)"
begin

lemma run_inv: "inv s \<Longrightarrow> inv (fold step cs s)"
  by (induction cs arbitrary: s) (auto intro: step_inv)

lemma prefix_inv: "inv s \<Longrightarrow> inv (fold step (take n cs) s)"
  by (rule run_inv)

end

text \<open>
  A machine with final observations: once \<open>obs\<close> shows a final value for a key, no command changes it.
\<close>

locale decided_machine = machine step inv
  for step :: "'c \<Rightarrow> 's \<Rightarrow> 's" and inv :: "'s \<Rightarrow> bool" +
  fixes obs :: "'s \<Rightarrow> 'k \<Rightarrow> 'o option"
    and final :: "'o \<Rightarrow> bool"
    and keeps :: "'c \<Rightarrow> bool"
  assumes step_final:
    "inv s \<Longrightarrow> keeps c \<Longrightarrow> obs s k = Some v \<Longrightarrow> final v \<Longrightarrow> obs (step c s) k = Some v"
begin

lemma run_final:
  "inv s \<Longrightarrow> list_all keeps cs \<Longrightarrow> obs s k = Some v \<Longrightarrow> final v \<Longrightarrow>
   obs (fold step cs s) k = Some v"
  by (induction cs arbitrary: s) (auto intro: step_inv step_final)

end

text \<open>
  A machine that implements an abstract one: what \<open>abs\<close> shows of the state changes as \<open>spec\<close> says.
\<close>

locale refined_machine = machine step inv
  for step :: "'c \<Rightarrow> 's \<Rightarrow> 's" and inv :: "'s \<Rightarrow> bool" +
  fixes abs :: "'s \<Rightarrow> 'a"
    and spec :: "'c \<Rightarrow> 'a \<Rightarrow> 'a"
  assumes step_refines: "inv s \<Longrightarrow> abs (step c s) = spec c (abs s)"
begin

lemma run_refines: "inv s \<Longrightarrow> abs (fold step cs s) = fold spec cs (abs s)"
  by (induction cs arbitrary: s) (simp_all add: step_refines step_inv)

end

section \<open>Codecs: an encoder and a fallible decoder\<close>

locale codec =
  fixes enc :: "'a \<Rightarrow> 'b"
    and dec :: "'b \<Rightarrow> 'a result"
    and ok :: "'a \<Rightarrow> bool"
  assumes dec_enc: "ok x \<Longrightarrow> dec (enc x) = Inr x"
begin

lemma enc_inj:
  assumes "ok x" "ok y" and eq: "enc x = enc y"
  shows "x = y"
proof -
  have "Inr x = dec (enc x)" by (rule dec_enc [OF assms(1), symmetric])
  also have "\<dots> = dec (enc y)" by (simp only: eq)
  also have "\<dots> = Inr y" by (rule dec_enc [OF assms(2)])
  finally show ?thesis by simp
qed

end

text \<open>A stream codec decodes one item off the front of a longer input and returns the rest.\<close>

locale stream_codec =
  fixes put :: "'a \<Rightarrow> 'b list"
    and get :: "'b list \<Rightarrow> ('a \<times> 'b list) result"
    and ok :: "'a \<Rightarrow> bool"
  assumes get_put: "ok x \<Longrightarrow> get (put x @ rest) = Inr (x, rest)"
begin

fun get_many :: "nat \<Rightarrow> 'b list \<Rightarrow> ('a list \<times> 'b list) result" where
  "get_many 0 bs = Inr ([], bs)"
| "get_many (Suc n) bs =
     bind_result (get bs) (\<lambda>(x, rest). bind_result (get_many n rest) (\<lambda>(xs, r). Inr (x # xs, r)))"

lemma get_many_put:
  "list_all ok xs \<Longrightarrow> get_many (length xs) (concat (map put xs) @ rest) = Inr (xs, rest)"
  by (induction xs) (auto simp: get_put)

end

sublocale stream_codec \<subseteq> single: codec put "\<lambda>bs. bind_result (get bs) (\<lambda>(x, _). Inr x)" ok
proof
  fix x assume "ok x"
  then show "bind_result (get (put x)) (\<lambda>(x, _). Inr x) = Inr x"
    using get_put [of x "[]"] by simp
qed

end
