(* ===== verification/Json.thy ===== *)
theory Json
  imports Pystr
begin

text \<open>
  JSON values as \<open>json.loads\<close> returns them and the operations the code applies to them:
  \<open>dict.get\<close>, \<open>isinstance\<close> tests, Python's \<open>==\<close> (numbers of different types compare by value, \<open>True == 1\<close>,
  dicts compare without order), and \<open>json.dumps\<close> with compact separators.
\<close>

section \<open>Values\<close>

text \<open>Floats by value: \<open>json.loads\<close> also yields the three special ones.\<close>

datatype pyfloat = Fin rat | PosInf | NegInf | NaN

datatype json =
    JNull
  | JBool bool
  | JInt int
  | JFloat pyfloat
  | JStr string
  | JArr "json list"
  | JObj "(string \<times> json) list"

text \<open>\<open>d.get(k)\<close>: a missing key reads as \<open>None\<close>, like a stored \<open>null\<close>.\<close>

definition oget :: "(string, json) dict \<Rightarrow> string \<Rightarrow> json" where
  "oget d k = (case dict_get d k of None \<Rightarrow> JNull | Some v \<Rightarrow> v)"

definition ojget :: "json \<Rightarrow> string \<Rightarrow> json" where
  "ojget v k = (case v of JObj d \<Rightarrow> oget d k | _ \<Rightarrow> JNull)"

lemma oget_Cons [simp]: "oget ((k', v) # d) k = (if k = k' then v else oget d k)"
  by (simp add: oget_def)

lemma oget_Nil [simp]: "oget [] k = JNull"
  by (simp add: oget_def)

lemma oget_SomeD: "dict_get d k = Some v \<Longrightarrow> oget d k = v"
  by (simp add: oget_def)

section \<open>isinstance tests\<close>

text \<open>
  Each \<open>isinstance\<close> guard with the exception the code raises when it fails. \<open>as_int\<close> also refuses
  booleans, as the code does before every integer check.
\<close>

definition as_dict :: "exn \<Rightarrow> json \<Rightarrow> (string, json) dict result" where
  "as_dict e v = (case v of JObj d \<Rightarrow> Inr d | _ \<Rightarrow> Inl e)"

definition as_list :: "exn \<Rightarrow> json \<Rightarrow> json list result" where
  "as_list e v = (case v of JArr vs \<Rightarrow> Inr vs | _ \<Rightarrow> Inl e)"

definition as_str :: "exn \<Rightarrow> json \<Rightarrow> string result" where
  "as_str e v = (case v of JStr s \<Rightarrow> Inr s | _ \<Rightarrow> Inl e)"

definition as_opt_str :: "exn \<Rightarrow> json \<Rightarrow> string option result" where
  "as_opt_str e v = (case v of JNull \<Rightarrow> Inr None | JStr s \<Rightarrow> Inr (Some s) | _ \<Rightarrow> Inl e)"

definition as_int :: "exn \<Rightarrow> json \<Rightarrow> int result" where
  "as_int e v = (case v of JInt i \<Rightarrow> Inr i | _ \<Rightarrow> Inl e)"

definition as_bool :: "exn \<Rightarrow> json \<Rightarrow> bool result" where
  "as_bool e v = (case v of JBool b \<Rightarrow> Inr b | _ \<Rightarrow> Inl e)"

lemma as_eq [simp, result_simps]:
  "as_dict e v = Inr d \<longleftrightarrow> v = JObj d"
  "as_list e v = Inr vs \<longleftrightarrow> v = JArr vs"
  "as_str e v = Inr s \<longleftrightarrow> v = JStr s"
  "as_int e v = Inr i \<longleftrightarrow> v = JInt i"
  "as_bool e v = Inr b \<longleftrightarrow> v = JBool b"
  "as_opt_str e v = Inr m \<longleftrightarrow> v = (case m of None \<Rightarrow> JNull | Some s \<Rightarrow> JStr s)"
  by (auto simp: as_dict_def as_list_def as_str_def as_int_def as_bool_def as_opt_str_def
      split: json.splits option.splits)

lemma as_simps [simp, result_simps]:
  "as_dict e (JObj d) = Inr d" "as_list e (JArr vs) = Inr vs" "as_str e (JStr s) = Inr s"
  "as_int e (JInt i) = Inr i" "as_bool e (JBool b) = Inr b"
  "as_opt_str e JNull = Inr None" "as_opt_str e (JStr s) = Inr (Some s)"
  by simp_all

section \<open>Equality\<close>

fun as_number :: "json \<Rightarrow> pyfloat option" where
  "as_number (JBool b) = Some (Fin (if b then 1 else 0))"
| "as_number (JInt i) = Some (Fin (of_int i))"
| "as_number (JFloat f) = Some f"
| "as_number _ = None"

text \<open>NaN is equal to nothing.\<close>

fun float_eq :: "pyfloat \<Rightarrow> pyfloat \<Rightarrow> bool" where
  "float_eq (Fin a) (Fin b) = (a = b)"
| "float_eq PosInf PosInf = True"
| "float_eq NegInf NegInf = True"
| "float_eq _ _ = False"

fun json_eq :: "json \<Rightarrow> json \<Rightarrow> bool"
  and jsons_eq :: "json list \<Rightarrow> json list \<Rightarrow> bool"
  and fields_eq :: "(string \<times> json) list \<Rightarrow> (string \<times> json) list \<Rightarrow> bool" where
  "json_eq JNull w = (w = JNull)"
| "json_eq (JStr s) w = (w = JStr s)"
| "json_eq (JArr vs) w = (case w of JArr ws \<Rightarrow> jsons_eq vs ws | _ \<Rightarrow> False)"
| "json_eq (JObj d) w =
     (case w of JObj e \<Rightarrow> length d = length e \<and> fields_eq d e | _ \<Rightarrow> False)"
| "json_eq (JBool b) w =
     (case as_number w of None \<Rightarrow> False | Some n \<Rightarrow> float_eq (Fin (if b then 1 else 0)) n)"
| "json_eq (JInt i) w = (case as_number w of None \<Rightarrow> False | Some n \<Rightarrow> float_eq (Fin (of_int i)) n)"
| "json_eq (JFloat f) w = (case as_number w of None \<Rightarrow> False | Some n \<Rightarrow> float_eq f n)"
| "jsons_eq [] ws = (ws = [])"
| "jsons_eq (v # vs) ws = (case ws of [] \<Rightarrow> False | w # ws' \<Rightarrow> json_eq v w \<and> jsons_eq vs ws')"
| "fields_eq [] e = True"
| "fields_eq ((k, v) # d) e =
     ((case dict_get e k of None \<Rightarrow> False | Some w \<Rightarrow> json_eq v w) \<and> fields_eq d e)"

lemma json_eq_str [simp]: "json_eq v (JStr s) \<longleftrightarrow> v = JStr s"
  by (cases v) auto

lemma json_eq_null [simp]: "json_eq v JNull \<longleftrightarrow> v = JNull"
  by (cases v) auto

lemma json_eq_int: "json_eq (JInt i) (JInt j) \<longleftrightarrow> i = j"
  by simp

text \<open>Values without floats and with distinct keys everywhere: what the program itself puts on the wire.\<close>

fun plain :: "json \<Rightarrow> bool"
  and plains :: "json list \<Rightarrow> bool"
  and plain_fields :: "(string \<times> json) list \<Rightarrow> bool" where
  "plain JNull = True"
| "plain (JBool _) = True"
| "plain (JInt _) = True"
| "plain (JFloat _) = False"
| "plain (JStr _) = True"
| "plain (JArr vs) = plains vs"
| "plain (JObj d) = (dict_ok d \<and> plain_fields d)"
| "plains [] = True"
| "plains (v # vs) = (plain v \<and> plains vs)"
| "plain_fields [] = True"
| "plain_fields ((k, v) # d) = (plain v \<and> plain_fields d)"

lemma plains_iff: "plains vs \<longleftrightarrow> (\<forall>v \<in> set vs. plain v)"
  by (induction vs) auto

lemma plain_fields_iff: "plain_fields d \<longleftrightarrow> (\<forall>(k, v) \<in> set d. plain v)"
  by (induction d) auto

lemma json_eq_refl:
  "plain v \<Longrightarrow> json_eq v v"
  "plains vs \<Longrightarrow> jsons_eq vs vs"
  "plain_fields d \<Longrightarrow> (\<forall>(k, v) \<in> set d. dict_get e k = Some v) \<Longrightarrow> fields_eq d e"
proof (induction v and vs and d arbitrary: and and e rule: plain_plains_plain_fields.induct)
  case (7 d)
  then show ?case by (auto simp: dict_ok_def)
qed auto

section \<open>Serialisation\<close>

text \<open>
  \<open>json.dumps(v, separators=(",", ":"))\<close>: ASCII output, escapes for quotes, backslash and everything
  outside the printable ASCII range. The text of a float (its \<open>repr\<close>) is a parameter; no frame of
  the protocol carries one.
\<close>

definition hex_char :: "nat \<Rightarrow> char" where
  "hex_char n = (if n < 10 then digit_char n else char_of (87 + n))"

definition escape_char :: "char \<Rightarrow> string" where
  "escape_char c =
     (if c = CHR 0x22 then [CHR 0x5C, CHR 0x22]
      else if c = CHR 0x5C then [CHR 0x5C, CHR 0x5C]
      else if code c = 10 then [CHR 0x5C, CHR ''n'']
      else if code c = 13 then [CHR 0x5C, CHR ''r'']
      else if code c = 9 then [CHR 0x5C, CHR ''t'']
      else if code c = 12 then [CHR 0x5C, CHR ''f'']
      else if code c = 8 then [CHR 0x5C, CHR ''b'']
      else if 32 \<le> code c \<and> code c \<le> 126 then [c]
      else [CHR 0x5C, CHR ''u'', CHR ''0'', CHR ''0'', hex_char (code c div 16), hex_char (code c mod 16)])"

definition dump_string :: "string \<Rightarrow> string" where
  "dump_string s = CHR 0x22 # concat (map escape_char s) @ [CHR 0x22]"

fun dumps :: "(pyfloat \<Rightarrow> string) \<Rightarrow> json \<Rightarrow> string"
  and dumps_list :: "(pyfloat \<Rightarrow> string) \<Rightarrow> json list \<Rightarrow> string"
  and dumps_fields :: "(pyfloat \<Rightarrow> string) \<Rightarrow> (string \<times> json) list \<Rightarrow> string" where
  "dumps fr JNull = ''null''"
| "dumps fr (JBool b) = (if b then ''true'' else ''false'')"
| "dumps fr (JInt i) = show_int i"
| "dumps fr (JFloat f) = fr f"
| "dumps fr (JStr s) = dump_string s"
| "dumps fr (JArr vs) = CHR ''['' # dumps_list fr vs @ [CHR '']'']"
| "dumps fr (JObj d) = CHR 0x7B # dumps_fields fr d @ [CHR 0x7D]"
| "dumps_list fr [] = []"
| "dumps_list fr (v # vs) =
     dumps fr v @ (case vs of [] \<Rightarrow> [] | _ \<Rightarrow> CHR '','' # dumps_list fr vs)"
| "dumps_fields fr [] = []"
| "dumps_fields fr ((k, v) # d) =
     dump_string k @ CHR '':'' # dumps fr v @ (case d of [] \<Rightarrow> [] | _ \<Rightarrow> CHR '','' # dumps_fields fr d)"

text \<open>\<open>json.dumps(v, sort_keys=True, separators=(",", ":"))\<close>.\<close>

fun sort_keys :: "json \<Rightarrow> json"
  and sort_keys_list :: "json list \<Rightarrow> json list"
  and sort_keys_fields :: "(string \<times> json) list \<Rightarrow> (string \<times> json) list" where
  "sort_keys (JArr vs) = JArr (sort_keys_list vs)"
| "sort_keys (JObj d) = JObj (sort_key fst (sort_keys_fields d))"
| "sort_keys v = v"
| "sort_keys_list [] = []"
| "sort_keys_list (v # vs) = sort_keys v # sort_keys_list vs"
| "sort_keys_fields [] = []"
| "sort_keys_fields ((k, v) # d) = (k, sort_keys v) # sort_keys_fields d"

definition to_bytes :: "string \<Rightarrow> bytes" where
  "to_bytes s = map (\<lambda>c. of_nat (code c)) s"

lemma length_dump_string: "length s + 2 \<le> length (dump_string s)"
proof -
  have "1 \<le> length (escape_char c)" for c
    by (simp add: escape_char_def)
  then have "length s \<le> length (concat (map escape_char s))"
  proof (induction s)
    case (Cons c s)
    then have "1 \<le> length (escape_char c)" and "length s \<le> length (concat (map escape_char s))"
      by auto
    then show ?case by (simp del: One_nat_def)
  qed simp
  then show ?thesis by (simp add: dump_string_def)
qed

lemma length_to_bytes [simp]: "length (to_bytes s) = length s"
  by (simp add: to_bytes_def)

end
