(* ===== verification/Config.thy ===== *)
theory Config
  imports Json
begin

text \<open>Resource limits (\<open>utils/config.py\<close>) and \<open>validate_port\<close>.\<close>

definition TRANSFER_PORT :: int where "TRANSFER_PORT = 5000"
definition CHUNK_SIZE :: nat where "CHUNK_SIZE = 64 * 1024"
definition HEADER_MAX_SIZE :: nat where "HEADER_MAX_SIZE = 4096"
definition MAX_FILES_PER_SESSION :: nat where "MAX_FILES_PER_SESSION = 1024"
definition MAX_FILE_SIZE :: nat where "MAX_FILE_SIZE = 100 * 1024 * 1024 * 1024"
definition MAX_SESSION_SIZE :: nat where "MAX_SESSION_SIZE = 1024 * 1024 * 1024 * 1024"
definition MAX_RETRIES :: nat where "MAX_RETRIES = 3"
definition MAX_CONCURRENT_TRANSFER_SESSIONS :: nat where "MAX_CONCURRENT_TRANSFER_SESSIONS = 8"
definition MAX_PENDING_TRANSFER_REQUESTS :: nat where "MAX_PENDING_TRANSFER_REQUESTS = 32"
definition PAIRING_REQUEST_TTL :: time where "PAIRING_REQUEST_TTL = 90"
definition NONCE_SIZE :: nat where "NONCE_SIZE = 12"
definition PROTOCOL_VERSION :: int where "PROTOCOL_VERSION = 3"

lemmas limits = CHUNK_SIZE_def HEADER_MAX_SIZE_def MAX_FILES_PER_SESSION_def MAX_FILE_SIZE_def
  MAX_SESSION_SIZE_def MAX_RETRIES_def NONCE_SIZE_def PROTOCOL_VERSION_def

lemma CHUNK_SIZE_pos [simp]: "0 < CHUNK_SIZE"
  by (simp add: CHUNK_SIZE_def)

section \<open>int()\<close>

text \<open>
  \<open>int(s)\<close> on a string: surrounding whitespace, an optional sign, decimal digits with single
  underscores between them.
\<close>

fun digit_groups :: "bool \<Rightarrow> string \<Rightarrow> bool" where
  "digit_groups after_digit [] = after_digit"
| "digit_groups after_digit (c # cs) =
     (if is_decimal c then digit_groups True cs
      else c = CHR ''_'' \<and> after_digit \<and> digit_groups False cs)"

definition int_of_digits :: "string \<Rightarrow> int option" where
  "int_of_digits s =
     (if digit_groups False s then Some (int (read_nat (filter is_decimal s))) else None)"

definition int_of_string :: "string \<Rightarrow> int option" where
  "int_of_string s =
     (case strip s of
        [] \<Rightarrow> None
      | c # cs \<Rightarrow>
          if c = CHR ''-'' then map_option uminus (int_of_digits cs)
          else if c = CHR ''+'' then int_of_digits cs
          else int_of_digits (c # cs))"

text \<open>\<open>int(f)\<close> truncates towards zero.\<close>

definition trunc :: "rat \<Rightarrow> int" where
  "trunc r = (if r < 0 then - \<lfloor>- r\<rfloor> else \<lfloor>r\<rfloor>)"

definition port_range_error :: string where
  "port_range_error = ''port must be between 1 and 65535''"

definition port_type_error :: string where
  "port_type_error = ''port must be an integer port''"

text \<open>
  \<open>validate_port\<close> on any value a JSON document or a caller hands it. An infinite float makes
  \<open>int()\<close> raise \<open>OverflowError\<close>, which the \<open>except (TypeError, ValueError)\<close> does not catch.
\<close>

definition validate_port :: "json \<Rightarrow> int result" where
  "validate_port v =
     bind_result
       (case v of
          JBool _ \<Rightarrow> Inl (TypeError port_type_error)
        | JInt i \<Rightarrow> Inr i
        | JFloat (Fin r) \<Rightarrow> Inr (trunc r)
        | JFloat NaN \<Rightarrow> Inl (ValueError port_type_error)
        | JFloat _ \<Rightarrow> Inl (OverflowError ''cannot convert float infinity to integer'')
        | JStr s \<Rightarrow> (case int_of_string s of
                      None \<Rightarrow> Inl (ValueError port_type_error) | Some i \<Rightarrow> Inr i)
        | _ \<Rightarrow> Inl (ValueError port_type_error))
       (\<lambda>port. if 1 \<le> port \<and> port \<le> 65535 then Inr port else Inl (ValueError port_range_error))"

lemma validate_port_int [simp]:
  "validate_port (JInt i) = (if 1 \<le> i \<and> i \<le> 65535 then Inr i else Inl (ValueError port_range_error))"
  by (simp add: validate_port_def)

lemma validate_port_range: "validate_port v = Inr p \<Longrightarrow> 1 \<le> p \<and> p \<le> 65535"
  by (auto simp: validate_port_def split: if_splits)

end
