(* ===== verification/Base64.thy ===== *)
theory Base64
  imports Pystr
begin

text \<open>
  \<open>base64.b64encode\<close> and \<open>base64.b64decode(s, validate=True)\<close> of the standard library, as CPython's
  strict decoder behaves: no character outside the alphabet, padding only at the end, and the unused
  low bits of the last character of a padded group are ignored.
\<close>

section \<open>Alphabet\<close>

definition b64_char :: "nat \<Rightarrow> char" where
  "b64_char n =
     (if n < 26 then char_of (65 + n) else if n < 52 then char_of (71 + n)
      else if n < 62 then char_of (n - 4) else if n = 62 then CHR ''+'' else CHR ''/'')"

definition b64_index :: "char \<Rightarrow> nat option" where
  "b64_index c =
     (if is_upper_ascii c then Some (code c - 65)
      else if is_lower_ascii c then Some (code c - 71)
      else if is_decimal c then Some (code c + 4)
      else if c = CHR ''+'' then Some 62 else if c = CHR ''/'' then Some 63 else None)"

abbreviation pad :: char where
  "pad \<equiv> CHR ''=''"

lemma b64_index_char [simp]: "n < 64 \<Longrightarrow> b64_index (b64_char n) = Some n"
  by (auto simp: b64_char_def b64_index_def char_defs of_char_of)

lemma b64_index_pad [simp]: "b64_index pad = None"
  by (simp add: b64_index_def char_defs)

lemma b64_char_not_pad [simp]: "n < 64 \<Longrightarrow> b64_char n \<noteq> pad" "n < 64 \<Longrightarrow> pad \<noteq> b64_char n"
  by (metis b64_index_char b64_index_pad option.distinct(1))+

lemma b64_char_inj: "m < 64 \<Longrightarrow> n < 64 \<Longrightarrow> b64_char m = b64_char n \<longleftrightarrow> m = n"
  by (metis b64_index_char option.inject)

section \<open>Encoding and decoding\<close>

abbreviation byte_of :: "nat \<Rightarrow> byte" where
  "byte_of n \<equiv> of_nat n"

fun b64encode :: "bytes \<Rightarrow> string" where
  "b64encode [] = []"
| "b64encode [a] = [b64_char (unat a div 4), b64_char (unat a mod 4 * 16), pad, pad]"
| "b64encode [a, b] =
     [b64_char (unat a div 4), b64_char (unat a mod 4 * 16 + unat b div 16),
      b64_char (unat b mod 16 * 4), pad]"
| "b64encode (a # b # c # r) =
     b64_char (unat a div 4) # b64_char (unat a mod 4 * 16 + unat b div 16)
     # b64_char (unat b mod 16 * 4 + unat c div 64) # b64_char (unat c mod 64) # b64encode r"

definition quad1 :: "nat \<Rightarrow> nat \<Rightarrow> byte" where
  "quad1 i j = byte_of (i * 4 + j div 16)"
definition quad2 :: "nat \<Rightarrow> nat \<Rightarrow> byte" where
  "quad2 j k = byte_of (j mod 16 * 16 + k div 4)"
definition quad3 :: "nat \<Rightarrow> nat \<Rightarrow> byte" where
  "quad3 k l = byte_of (k mod 4 * 64 + l)"

text \<open>Padding after complete groups is skipped; a group is two, three or four alphabet characters.\<close>

fun b64quads :: "string \<Rightarrow> bytes option" where
  "b64quads s =
     (if list_all (\<lambda>c. c = pad) s then Some []
      else (case s of
              c1 # c2 # c3 # c4 # r \<Rightarrow>
                (case (b64_index c1, b64_index c2) of
                   (Some i, Some j) \<Rightarrow>
                     (case b64_index c3 of
                        None \<Rightarrow> if c3 = pad \<and> c4 = pad \<and> r = [] then Some [quad1 i j] else None
                      | Some k \<Rightarrow>
                          (case b64_index c4 of
                             None \<Rightarrow> if c4 = pad \<and> r = [] then Some [quad1 i j, quad2 j k] else None
                           | Some l \<Rightarrow>
                               map_option (\<lambda>bs. quad1 i j # quad2 j k # quad3 k l # bs) (b64quads r)))
                 | _ \<Rightarrow> None)
            | _ \<Rightarrow> None))"

declare b64quads.simps [simp del]

definition b64decode :: "string \<Rightarrow> bytes option" where
  "b64decode s = (if s \<noteq> [] \<and> hd s = pad then None else b64quads s)"

section \<open>Round trip\<close>

lemma byte_bound: "unat (a :: byte) < 256"
  using unsigned_less [of a] by simp

lemma pack_div: "y < k \<Longrightarrow> (x * k + y) div k = (x :: nat)"
  and pack_mod: "y < k \<Longrightarrow> (x * k + y) mod k = (y :: nat)"
  by simp_all

lemma byte_of_unat: "byte_of (unat b) = b"
  by simp

lemma byte_high: "unat (b :: byte) div 16 < 16" "unat b div 64 < 4" "unat b div 4 < 64"
  using byte_bound [of b] by (simp_all add: less_mult_imp_div_less)

lemma quads_eqs [simp]:
  "quad1 (unat a div 4) (unat a mod 4 * 16 + unat (b :: byte) div 16) = a"
  "quad1 (unat a div 4) (unat a mod 4 * 16) = a"
  "quad2 (unat a mod 4 * 16 + unat b div 16) (unat b mod 16 * 4 + unat (c :: byte) div 64) = b"
  "quad2 (unat a mod 4 * 16 + unat b div 16) (unat b mod 16 * 4) = b"
  "quad2 (unat a mod 4 * 16 + unat b div 16) (unat b mod 16 * 4 + 1) = b"
  "quad3 (unat b mod 16 * 4 + unat c div 64) (unat c mod 64) = c"
proof -
  have div4: "(unat b mod 16 * 4 + 1) div 4 = unat b mod 16"
    using pack_div [of 1 4] by simp
  show "quad1 (unat a div 4) (unat a mod 4 * 16 + unat b div 16) = a"
    "quad2 (unat a mod 4 * 16 + unat b div 16) (unat b mod 16 * 4 + unat c div 64) = b"
    "quad2 (unat a mod 4 * 16 + unat b div 16) (unat b mod 16 * 4 + 1) = b"
    "quad3 (unat b mod 16 * 4 + unat c div 64) (unat c mod 64) = c"
    unfolding quad1_def quad2_def quad3_def
    by (simp_all only: pack_div [OF byte_high(1)] pack_mod [OF byte_high(1)] div4
        pack_div [OF byte_high(2)] pack_mod [OF byte_high(2)] div_mult_mod_eq byte_of_unat)
  show "quad1 (unat a div 4) (unat a mod 4 * 16) = a"
    by (simp add: quad1_def)
  have "unat b mod 16 * 4 div 4 = unat b mod 16" by simp
  then show "quad2 (unat a mod 4 * 16 + unat b div 16) (unat b mod 16 * 4) = b"
    unfolding quad2_def
    by (simp only: pack_mod [OF byte_high(1)] div_mult_mod_eq byte_of_unat)
qed

lemma index_bounds:
  "unat (a :: byte) div 4 < 64" "unat a mod 4 * 16 < 64" "unat a mod 4 * 16 + unat (b :: byte) div 16 < 64"
  "unat b mod 16 * 4 < 64" "unat b mod 16 * 4 + unat (c :: byte) div 64 < 64" "unat c mod 64 < 64"
  "unat b mod 16 * 4 + 1 < 64"
proof -
  have "unat a mod 4 < 4" "unat b mod 16 < 16" by simp_all
  then show "unat a div 4 < 64" "unat a mod 4 * 16 < 64" "unat a mod 4 * 16 + unat b div 16 < 64"
    "unat b mod 16 * 4 < 64" "unat b mod 16 * 4 + unat c div 64 < 64" "unat b mod 16 * 4 + 1 < 64"
    using byte_high [of a] byte_high [of b] byte_high [of c] by linarith+
  show "unat c mod 64 < 64" by simp
qed

lemma b64quads_encode: "b64quads (b64encode bs) = Some bs"
  by (induction bs rule: b64encode.induct) (simp_all add: b64quads.simps index_bounds)

lemma b64encode_hd: "b64encode bs \<noteq> [] \<Longrightarrow> hd (b64encode bs) \<noteq> pad"
  by (induction bs rule: b64encode.induct) (simp_all add: index_bounds)

lemma b64decode_encode: "b64decode (b64encode bs) = Some bs"
  using b64encode_hd [of bs] b64quads_encode [of bs] by (auto simp: b64decode_def)

definition b64decode_result :: "string \<Rightarrow> bytes result" where
  "b64decode_result s =
     (case b64decode s of None \<Rightarrow> Inl (ValueError ''Invalid base64-encoded string'') | Some bs \<Rightarrow> Inr bs)"

interpretation b64_codec: codec b64encode b64decode_result "\<lambda>_. True"
  by unfold_locales (simp add: b64decode_result_def b64decode_encode)

lemma length_b64encode: "length (b64encode bs) = 4 * ((length bs + 2) div 3)"
proof (induction bs rule: b64encode.induct)
  case (4 a b c r)
  have "(Suc (Suc (Suc (length r))) + 2) div 3 = Suc ((length r + 2) div 3)" by presburger
  with 4 show ?case by simp
qed simp_all

text \<open>
  The decoder is not injective: when the data leave one byte of room in the last group, changing the
  ignored bits of the last character gives another accepted spelling of the same bytes.
\<close>

fun b64respell :: "bytes \<Rightarrow> string" where
  "b64respell [a, b] =
     [b64_char (unat a div 4), b64_char (unat a mod 4 * 16 + unat b div 16),
      b64_char (unat b mod 16 * 4 + 1), pad]"
| "b64respell (a # b # c # r) =
     b64_char (unat a div 4) # b64_char (unat a mod 4 * 16 + unat b div 16)
     # b64_char (unat b mod 16 * 4 + unat c div 64) # b64_char (unat c mod 64) # b64respell r"
| "b64respell _ = []"

lemma b64_not_injective:
  "length bs mod 3 = 2 \<Longrightarrow>
   b64quads (b64respell bs) = Some bs \<and> b64respell bs \<noteq> b64encode bs
   \<and> length (b64respell bs) = length (b64encode bs) \<and> hd (b64respell bs) \<noteq> pad"
proof (induction bs rule: b64respell.induct)
  case (1 a b)
  have "b64_char (unat b mod 16 * 4 + 1) \<noteq> b64_char (unat b mod 16 * 4)"
    using b64_char_inj [OF index_bounds(7) index_bounds(4)] by simp
  then show ?case
    by (simp add: b64quads.simps index_bounds del: One_nat_def)
next
  case (2 a b c r)
  then have "length r mod 3 = 2" by simp
  with "2.IH" show ?case by (simp add: b64quads.simps index_bounds)
qed simp_all

end
