(* ===== verification/Identity.thy ===== *)
theory Identity
  imports Config Base64
begin

text \<open>
  \<open>core/identity.py\<close>: public-key text, device identifiers, fingerprints and the persistent identity.
  The primitives of the \<open>cryptography\<close> package (and the hash, of which only the length matters here)
  are a record of functions handed to every definition that uses them; what the code relies on is
  the predicate \<open>crypto_ok\<close>, satisfied by the concrete \<open>toy_crypto\<close>.
\<close>

section \<open>Primitives\<close>

record crypto =
  sha256_digest :: "bytes \<Rightarrow> bytes"
  ed_public :: "bytes \<Rightarrow> bytes"
  ed_sign :: "bytes \<Rightarrow> bytes \<Rightarrow> bytes"
  ed_verify :: "bytes \<Rightarrow> bytes \<Rightarrow> bytes \<Rightarrow> bool"
  x_public :: "bytes \<Rightarrow> bytes"
  x_exchange :: "bytes \<Rightarrow> bytes \<Rightarrow> bytes option"
  hkdf :: "bytes \<Rightarrow> bytes \<Rightarrow> bytes \<Rightarrow> bytes"
  gcm_encrypt :: "bytes \<Rightarrow> bytes \<Rightarrow> bytes \<Rightarrow> bytes"
  gcm_decrypt :: "bytes \<Rightarrow> bytes \<Rightarrow> bytes \<Rightarrow> bytes option"

definition hash_ok :: "crypto \<Rightarrow> bool" where
  "hash_ok c \<longleftrightarrow> (\<forall>m. length (sha256_digest c m) = 32)"

definition signatures_ok :: "crypto \<Rightarrow> bool" where
  "signatures_ok c \<longleftrightarrow>
     (\<forall>sk. length (ed_public c sk) = 32)
     \<and> (\<forall>sk m. length (ed_sign c sk m) = 64 \<and> ed_verify c (ed_public c sk) (ed_sign c sk m) m)"

definition exchange_ok :: "crypto \<Rightarrow> bool" where
  "exchange_ok c \<longleftrightarrow>
     (\<forall>a. length (x_public c a) = 32)
     \<and> (\<forall>a b. x_exchange c a (x_public c b) \<noteq> None
            \<and> x_exchange c a (x_public c b) = x_exchange c b (x_public c a))
     \<and> (\<forall>s i k. length (hkdf c s i k) = 32)"

definition aead_ok :: "crypto \<Rightarrow> bool" where
  "aead_ok c \<longleftrightarrow>
     (\<forall>k n m. length (gcm_encrypt c k n m) = length m + 16
            \<and> gcm_decrypt c k n (gcm_encrypt c k n m) = Some m)"

definition fit :: "nat \<Rightarrow> bytes \<Rightarrow> bytes" where
  "fit n bs = take n (bs @ replicate n 0)"

definition toy_crypto :: crypto where
  "toy_crypto =
     \<lparr>sha256_digest = fit 32, ed_public = fit 32,
      ed_sign = (\<lambda>sk m. fit 32 sk @ fit 32 m),
      ed_verify = (\<lambda>pk s m. s = pk @ fit 32 m),
      x_public = fit 32,
      x_exchange = (\<lambda>a p. Some (map2 (+) (fit 32 a) p)),
      hkdf = (\<lambda>s i k. fit 32 k),
      gcm_encrypt = (\<lambda>k n m. m @ replicate 16 0),
      gcm_decrypt = (\<lambda>k n ct. if 16 \<le> length ct \<and> drop (length ct - 16) ct = replicate 16 0
                              then Some (take (length ct - 16) ct) else None)\<rparr>"

lemma length_fit [simp]: "length (fit n bs) = n"
  by (simp add: fit_def)

lemma map2_add_commute: "map2 (+) xs ys = map2 (+) ys (xs :: bytes)"
  by (induction xs arbitrary: ys) (auto simp: add.commute zip_Cons1 split: list.splits)

lemma toy_crypto_ok:
  "hash_ok toy_crypto" "signatures_ok toy_crypto" "exchange_ok toy_crypto" "aead_ok toy_crypto"
  by (auto simp: toy_crypto_def hash_ok_def signatures_ok_def exchange_ok_def aead_ok_def
      map2_add_commute)

section \<open>Public keys and device identifiers\<close>

definition hexdigest :: "bytes \<Rightarrow> string" where
  "hexdigest bs = concat (map (\<lambda>b. [hex_char (unat b div 16), hex_char (unat b mod 16)]) bs)"

lemma length_hexdigest [simp]: "length (hexdigest bs) = 2 * length bs"
  by (induction bs) (simp_all add: hexdigest_def)

lemma hex_char_lower: "n < 16 \<Longrightarrow> is_lower_hex (hex_char n)"
  by (auto simp: hex_char_def is_lower_hex_def is_decimal_def code_digit_char of_char_of)

lemma hexdigest_lower: "list_all is_lower_hex (hexdigest bs)"
  using byte_high by (induction bs) (auto simp: hexdigest_def hex_char_lower)

definition encode_public_key :: "bytes \<Rightarrow> string" where
  "encode_public_key raw = b64encode raw"

definition key_error :: exn where
  "key_error = ValueError ''Invalid Ed25519 public key''"

definition decode_public_key :: "json \<Rightarrow> bytes result" where
  "decode_public_key v =
     bind_result (as_str key_error v) (\<lambda>s.
     bind_result (ensure key_error (length s \<le> 64)) (\<lambda>_.
     case b64decode s of
       None \<Rightarrow> Inl key_error
     | Some raw \<Rightarrow> if length raw = 32 then Inr raw
                   else Inl (ValueError ''Invalid Ed25519 public key length'')))"

definition device_id_ok :: "string \<Rightarrow> bool" where
  "device_id_ok s \<longleftrightarrow> length s = 11 \<and> take 3 s = ''mp-'' \<and> list_all is_lower_hex (drop 3 s)"

definition device_id_of_raw :: "crypto \<Rightarrow> bytes \<Rightarrow> string" where
  "device_id_of_raw c raw = ''mp-'' @ take 8 (hexdigest (sha256_digest c raw))"

definition device_id_from_public_key :: "crypto \<Rightarrow> string \<Rightarrow> string result" where
  "device_id_from_public_key c s =
     bind_result (b64decode_result s) (\<lambda>raw. Inr (device_id_of_raw c raw))"

fun groups4 :: "string \<Rightarrow> string list" where
  "groups4 (a # b # c # d # r) = [a, b, c, d] # groups4 r"
| "groups4 _ = []"

definition fingerprint_of_raw :: "crypto \<Rightarrow> bytes \<Rightarrow> string" where
  "fingerprint_of_raw c raw =
     join '' '' (groups4 (map ascii_upper (take 16 (hexdigest (sha256_digest c raw)))))"

definition fingerprint_from_public_key :: "crypto \<Rightarrow> string \<Rightarrow> string result" where
  "fingerprint_from_public_key c s =
     bind_result (b64decode_result s) (\<lambda>raw. Inr (fingerprint_of_raw c raw))"

lemma device_id_of_raw_ok: "hash_ok c \<Longrightarrow> device_id_ok (device_id_of_raw c raw)"
  using hexdigest_lower [of "sha256_digest c raw"]
  by (auto simp: device_id_ok_def device_id_of_raw_def hash_ok_def list_all_iff dest: in_set_takeD)

lemma decode_encode_public_key:
  "length raw = 32 \<Longrightarrow> decode_public_key (JStr (encode_public_key raw)) = Inr raw"
  by (simp add: decode_public_key_def encode_public_key_def b64decode_encode length_b64encode)

text \<open>A device identifier and the key text it was derived from.\<close>

definition key_bound :: "crypto \<Rightarrow> string \<Rightarrow> string \<Rightarrow> bool" where
  "key_bound c did key \<longleftrightarrow>
     (\<exists>raw. decode_public_key (JStr key) = Inr raw \<and> device_id_ok did \<and> did = device_id_of_raw c raw)"

lemma device_id_from_decoded:
  "decode_public_key (JStr key) = Inr raw \<Longrightarrow>
   device_id_from_public_key c key = Inr (device_id_of_raw c raw)
   \<and> fingerprint_from_public_key c key = Inr (fingerprint_of_raw c raw)"
  by (auto simp: decode_public_key_def device_id_from_public_key_def fingerprint_from_public_key_def
      b64decode_result_def split: option.splits if_splits)

text \<open>Every 32-byte key has a second accepted spelling that names the same device.\<close>

lemma respelled_key:
  assumes "length raw = 32"
  shows "decode_public_key (JStr (b64respell raw)) = Inr raw \<and> b64respell raw \<noteq> encode_public_key raw"
proof -
  have spell: "b64quads (b64respell raw) = Some raw \<and> b64respell raw \<noteq> b64encode raw
      \<and> length (b64respell raw) = length (b64encode raw) \<and> hd (b64respell raw) \<noteq> pad"
    using assms by (intro b64_not_injective) simp
  then have "length (b64respell raw) = 44" using assms by (simp add: length_b64encode)
  with spell assms show ?thesis
    by (simp add: decode_public_key_def b64decode_def encode_public_key_def)
qed

section \<open>The persistent identity\<close>

text \<open>What reading a file yields: the distinctions the \<open>except\<close> clauses of the program make.\<close>

datatype 'a file_read = Missing | Unreadable | BadUtf8 | Malformed | Content 'a

record device_identity =
  di_device_id :: string
  di_public_key :: string
  di_fingerprint :: string
  di_created_at :: pyfloat
  di_private :: bytes

record identity_dir =
  key_file :: "string file_read"
  meta_file :: "json file_read"

definition load_private_key :: "string file_read \<Rightarrow> bytes option" where
  "load_private_key f =
     (case f of
        Content text \<Rightarrow>
          (case b64decode (strip text) of
             None \<Rightarrow> None | Some raw \<Rightarrow> if length raw = 32 then Some raw else None)
      | _ \<Rightarrow> None)"

text \<open>
  A document that is not UTF-8 raises \<open>UnicodeDecodeError\<close>, a \<open>ValueError\<close> the handler of
  \<open>(OSError, JSONDecodeError)\<close> lets through.
\<close>

definition load_metadata :: "json file_read \<Rightarrow> (string, json) dict result" where
  "load_metadata f =
     (case f of
        Content (JObj d) \<Rightarrow> Inr d
      | BadUtf8 \<Rightarrow> Inl (ValueError ''utf-8'')
      | _ \<Rightarrow> Inr [])"

text \<open>The least absolute value of an integer that \<open>float()\<close> refuses with \<open>OverflowError\<close>.\<close>

definition float_limit :: int where
  "float_limit = 2 ^ 1024 - 2 ^ 970"

text \<open>\<open>float(v)\<close>; the parser for strings is a parameter.\<close>

definition to_float :: "(string \<Rightarrow> pyfloat option) \<Rightarrow> json \<Rightarrow> pyfloat result" where
  "to_float fl v =
     (case v of
        JBool b \<Rightarrow> Inr (Fin (if b then 1 else 0))
      | JInt i \<Rightarrow> if float_limit \<le> \<bar>i\<bar> then Inl (OverflowError ''int too large to convert to float'')
                  else Inr (Fin (of_int i))
      | JFloat f \<Rightarrow> Inr f
      | JStr s \<Rightarrow> (case fl s of None \<Rightarrow> Inl (ValueError ''could not convert string to float'') | Some f \<Rightarrow> Inr f)
      | _ \<Rightarrow> Inl (TypeError ''float() argument must be a string or a real number''))"

definition identity_metadata :: "device_identity \<Rightarrow> json" where
  "identity_metadata i =
     JObj [(''version'', JInt 1), (''device_id'', JStr (di_device_id i)),
           (''public_key'', JStr (di_public_key i)), (''fingerprint'', JStr (di_fingerprint i)),
           (''created_at'', JFloat (di_created_at i))]"

text \<open>
  \<open>DeviceIdentity.load_or_create\<close>: \<open>fresh\<close> is the key \<open>generate()\<close> would return, \<open>now\<close> the clock. The
  stored metadata never decide the identifier.
\<close>

definition load_or_create ::
  "crypto \<Rightarrow> (string \<Rightarrow> pyfloat option) \<Rightarrow> bytes \<Rightarrow> time \<Rightarrow> identity_dir
   \<Rightarrow> device_identity result \<times> identity_dir" where
  "load_or_create c fl fresh now dir =
     (let loaded = load_private_key (key_file dir);
          sk = (case loaded of None \<Rightarrow> fresh | Some k \<Rightarrow> k);
          dir1 = (case loaded of
                    None \<Rightarrow> dir\<lparr>key_file := Content (b64encode sk @ [CHR 0x0A])\<rparr> | Some _ \<Rightarrow> dir);
          raw = ed_public c sk
      in case load_metadata (meta_file dir1) of
           Inl e \<Rightarrow> (Inl e, dir1)
         | Inr d \<Rightarrow>
             (case (case to_float fl (oget d ''created_at'') of
                      Inl (ValueError _) \<Rightarrow> Inr (Fin now)
                    | Inl (TypeError _) \<Rightarrow> Inr (Fin now)
                    | r \<Rightarrow> r) of
                Inl e \<Rightarrow> (Inl e, dir1)
              | Inr created \<Rightarrow>
                  (let i = \<lparr>di_device_id = device_id_of_raw c raw, di_public_key = encode_public_key raw,
                            di_fingerprint = fingerprint_of_raw c raw, di_created_at = created,
                            di_private = sk\<rparr>
                   in (Inr i, dir1\<lparr>meta_file := Content (identity_metadata i)\<rparr>))))"

text \<open>What every identity in the program satisfies.\<close>

definition identity_ok :: "crypto \<Rightarrow> device_identity \<Rightarrow> bool" where
  "identity_ok c i \<longleftrightarrow>
     di_public_key i = encode_public_key (ed_public c (di_private i))
     \<and> di_device_id i = device_id_of_raw c (ed_public c (di_private i))
     \<and> di_fingerprint i = fingerprint_of_raw c (ed_public c (di_private i))"

lemma load_or_create_ok: "load_or_create c fl fresh now dir = (Inr i, dir') \<Longrightarrow> identity_ok c i"
  by (auto simp: load_or_create_def Let_def identity_ok_def split: sum.splits exn.splits)

lemma identity_key_bound:
  assumes "identity_ok c i" "hash_ok c" "signatures_ok c"
  shows "key_bound c (di_device_id i) (di_public_key i)"
  using assms decode_encode_public_key device_id_of_raw_ok
  by (auto simp: key_bound_def identity_ok_def signatures_ok_def)

lemma strip_newline: "\<forall>c \<in> set s. \<not> is_space c \<Longrightarrow> strip (s @ [CHR 0x0A]) = s"
proof -
  assume ns: "\<forall>c \<in> set s. \<not> is_space c"
  have *: "dropWhile is_space t = t" if "\<forall>c \<in> set t. \<not> is_space c" for t
    using that by (cases t) auto
  have "dropWhile is_space (s @ [CHR 0x0A]) = (if s = [] then [] else s @ [CHR 0x0A])"
    using ns by (cases s) (auto simp: is_space_def)
  moreover have "dropWhile is_space (rev (s @ [CHR 0x0A])) = rev s"
    using ns * [of "rev s"] by (simp add: is_space_def)
  ultimately show ?thesis by (simp add: strip_def)
qed

lemma b64_char_not_space: "n < 64 \<Longrightarrow> \<not> is_space (b64_char n)"
  by (auto simp: b64_char_def is_space_def of_char_of)

lemma b64encode_no_space: "\<forall>c \<in> set (b64encode bs). \<not> is_space c"
  by (induction bs rule: b64encode.induct)
     (auto simp: index_bounds b64_char_not_space is_space_def [of pad])

lemma load_stored_key: "length sk = 32 \<Longrightarrow> load_private_key (Content (b64encode sk @ [CHR 0x0A])) = Some sk"
  using b64encode_no_space by (simp add: load_private_key_def strip_newline b64decode_encode)

end
