(* ===== verification/JsonText.thy ===== *)
theory JsonText
  imports Json
begin

text \<open>
  \<open>json.loads\<close> on the text the program itself writes. The frames of the protocol are written by
  \<open>json.dumps\<close>, whose output is ASCII; on ASCII text whose escapes denote Latin-1 characters, without
  floating-point numbers, with integers inside the interpreter's digit limit and with nesting far below its recursion limit, the
  parser is written out here. Outside that language \<open>ascii_loads\<close> is \<open>None\<close>, which says nothing about
  the interpreter: the parser a receiving operation uses stays an argument, and \<open>reads_ascii\<close> states
  that it agrees with this one where this one is defined.
\<close>

section \<open>Parser\<close>

definition MAX_INT_DIGITS :: nat where
  "MAX_INT_DIGITS = 4300"

definition MAX_DEPTH :: nat where
  "MAX_DEPTH = 100"

definition is_json_ws :: "char \<Rightarrow> bool" where
  "is_json_ws c \<longleftrightarrow> c \<in> {CHR '' '', CHR 0x09, CHR 0x0A, CHR 0x0D}"

abbreviation skip_ws :: "string \<Rightarrow> string" where
  "skip_ws \<equiv> dropWhile is_json_ws"

definition hex_value :: "char \<Rightarrow> nat" where
  "hex_value c =
     (if is_decimal c then digit_value c
      else if is_lower_ascii c then code c - 87 else code c - 55)"

definition unescape :: "char \<Rightarrow> char option" where
  "unescape e =
     (if e = CHR 0x22 \<or> e = CHR 0x5C \<or> e = CHR ''/'' then Some e
      else if e = CHR ''n'' then Some (CHR 0x0A)
      else if e = CHR ''r'' then Some (CHR 0x0D)
      else if e = CHR ''t'' then Some (CHR 0x09)
      else if e = CHR ''f'' then Some (CHR 0x0C)
      else if e = CHR ''b'' then Some (CHR 0x08)
      else None)"

text \<open>The characters of a string literal after its opening quote.\<close>

fun parse_chars :: "string \<Rightarrow> (string \<times> string) option" where
  "parse_chars [] = None"
| "parse_chars (c # s) =
     (if c = CHR 0x22 then Some ([], s)
      else if c = CHR 0x5C then
        (case s of
           [] \<Rightarrow> None
         | e # r \<Rightarrow>
             if e = CHR ''u'' then
               (case r of
                  h1 # h2 # h3 # h4 # r' \<Rightarrow>
                    if h1 = CHR ''0'' \<and> h2 = CHR ''0'' \<and> is_hex h3 \<and> is_hex h4
                    then map_option (apfst ((#) (char_of (hex_value h3 * 16 + hex_value h4)))) (parse_chars r')
                    else None
                | _ \<Rightarrow> None)
             else (case unescape e of
                     None \<Rightarrow> None
                   | Some d \<Rightarrow> map_option (apfst ((#) d)) (parse_chars r)))
      else if code c < 32 then None
      else map_option (apfst ((#) c)) (parse_chars s))"

declare parse_chars.simps(2) [simp del]

definition parse_digits :: "string \<Rightarrow> (nat \<times> string) option" where
  "parse_digits s =
     (let ds = takeWhile is_decimal s; rest = dropWhile is_decimal s
      in if ds = [] \<or> MAX_INT_DIGITS < length ds \<or> hd ds = CHR ''0'' \<and> ds \<noteq> [CHR ''0'']
            \<or> rest \<noteq> [] \<and> hd rest \<in> {CHR ''.'', CHR ''e'', CHR ''E''}
         then None else Some (read_nat ds, rest))"

definition parse_int :: "string \<Rightarrow> (json \<times> string) option" where
  "parse_int s =
     (case s of
        [] \<Rightarrow> None
      | c # r \<Rightarrow>
          if c = CHR ''-'' then map_option (apfst (\<lambda>n. JInt (- int n))) (parse_digits r)
          else map_option (apfst (\<lambda>n. JInt (int n))) (parse_digits s))"

text \<open>A repeated key keeps its first position and takes its last value.\<close>

definition object_of :: "(string \<times> json) list \<Rightarrow> json" where
  "object_of ms = JObj (foldl (\<lambda>d (k, v). dict_set k v d) [] ms)"

text \<open>The first argument bounds the number of calls; twice the length of the text is always enough.\<close>

fun parse_value :: "nat \<Rightarrow> string \<Rightarrow> (json \<times> string) option"
  and parse_items :: "nat \<Rightarrow> string \<Rightarrow> (json list \<times> string) option"
  and parse_members :: "nat \<Rightarrow> string \<Rightarrow> ((string \<times> json) list \<times> string) option" where
  "parse_value 0 s = None"
| "parse_value (Suc n) s =
     (case s of
        [] \<Rightarrow> None
      | c # r \<Rightarrow>
          if c = CHR 0x22 then map_option (apfst JStr) (parse_chars r)
          else if c = CHR 0x7B then
            (case skip_ws r of
               [] \<Rightarrow> None
             | d # r' \<Rightarrow> if d = CHR 0x7D then Some (JObj [], r')
                         else map_option (apfst object_of) (parse_members n (d # r')))
          else if c = CHR ''['' then
            (case skip_ws r of
               [] \<Rightarrow> None
             | d # r' \<Rightarrow> if d = CHR '']'' then Some (JArr [], r')
                         else map_option (apfst JArr) (parse_items n (d # r')))
          else if starts_with ''null'' s then Some (JNull, drop 4 s)
          else if starts_with ''true'' s then Some (JBool True, drop 4 s)
          else if starts_with ''false'' s then Some (JBool False, drop 5 s)
          else parse_int s)"
| "parse_items 0 s = None"
| "parse_items (Suc n) s =
     (case parse_value n s of
        None \<Rightarrow> None
      | Some (v, r) \<Rightarrow>
          (case skip_ws r of
             [] \<Rightarrow> None
           | c # r' \<Rightarrow>
               if c = CHR '']'' then Some ([v], r')
               else if c = CHR '','' then map_option (apfst ((#) v)) (parse_items n (skip_ws r'))
               else None))"
| "parse_members 0 s = None"
| "parse_members (Suc n) s =
     (case s of
        [] \<Rightarrow> None
      | q # r \<Rightarrow>
          if q \<noteq> CHR 0x22 then None
          else (case parse_chars r of
                  None \<Rightarrow> None
                | Some (k, r1) \<Rightarrow>
                    (case skip_ws r1 of
                       [] \<Rightarrow> None
                     | c # r2 \<Rightarrow>
                         if c \<noteq> CHR '':'' then None
                         else (case parse_value n (skip_ws r2) of
                                 None \<Rightarrow> None
                               | Some (v, r3) \<Rightarrow>
                                   (case skip_ws r3 of
                                      [] \<Rightarrow> None
                                    | d # r4 \<Rightarrow>
                                        if d = CHR 0x7D then Some ([(k, v)], r4)
                                        else if d = CHR '',''
                                        then map_option (apfst ((#) (k, v))) (parse_members n (skip_ws r4))
                                        else None)))))"

declare parse_value.simps(2) [simp del] parse_items.simps(2) [simp del] parse_members.simps(2) [simp del]

fun json_depth :: "json \<Rightarrow> nat"
  and jsons_depth :: "json list \<Rightarrow> nat"
  and fields_depth :: "(string \<times> json) list \<Rightarrow> nat" where
  "json_depth (JArr vs) = Suc (jsons_depth vs)"
| "json_depth (JObj d) = Suc (fields_depth d)"
| "json_depth v = 0"
| "jsons_depth [] = 0"
| "jsons_depth (v # vs) = max (json_depth v) (jsons_depth vs)"
| "fields_depth [] = 0"
| "fields_depth ((k, v) # d) = max (json_depth v) (fields_depth d)"

definition ascii_loads :: "bytes \<Rightarrow> json option" where
  "ascii_loads bs =
     (if list_all (\<lambda>b. unat b < 128) bs
      then (let s = skip_ws (map (\<lambda>b. char_of (unat b)) bs)
            in case parse_value (2 * length s) s of
                 None \<Rightarrow> None
               | Some (v, r) \<Rightarrow> if skip_ws r = [] \<and> json_depth v \<le> MAX_DEPTH then Some v else None)
      else None)"

section \<open>Documents the parser covers\<close>

fun writable :: "json \<Rightarrow> bool"
  and writables :: "json list \<Rightarrow> bool"
  and writable_fields :: "(string \<times> json) list \<Rightarrow> bool" where
  "writable JNull = True"
| "writable (JBool _) = True"
| "writable (JInt i) = (length (show_nat (nat \<bar>i\<bar>)) \<le> MAX_INT_DIGITS)"
| "writable (JFloat _) = False"
| "writable (JStr _) = True"
| "writable (JArr vs) = writables vs"
| "writable (JObj d) = (dict_ok d \<and> writable_fields d)"
| "writables [] = True"
| "writables (v # vs) = (writable v \<and> writables vs)"
| "writable_fields [] = True"
| "writable_fields ((k, v) # d) = (writable v \<and> writable_fields d)"

lemma writable_plain:
  "writable v \<Longrightarrow> plain v" "writables vs \<Longrightarrow> plains vs" "writable_fields d \<Longrightarrow> plain_fields d"
  by (induction v and vs and d rule: writable_writables_writable_fields.induct) auto

lemma length_show_nat: "n < 10 ^ k \<Longrightarrow> 0 < k \<Longrightarrow> length (show_nat n) \<le> k"
proof (induction k arbitrary: n)
  case (Suc k)
  show ?case
  proof (cases "n < 10")
    case False
    then have k: "k \<noteq> 0" using Suc.prems by (cases k) simp_all
    have "n div 10 < 10 ^ k" using Suc.prems by (simp add: less_mult_imp_div_less mult.commute)
    then show ?thesis using Suc.IH [of "n div 10"] False k by (simp add: show_nat.simps [of n])
  qed (simp add: show_nat.simps [of n])
qed simp

lemma writable_int: "\<bar>i\<bar> < 10 ^ 20 \<Longrightarrow> writable (JInt i)"
proof -
  assume "\<bar>i\<bar> < 10 ^ 20"
  then have "nat \<bar>i\<bar> < 10 ^ 20" by (simp add: nat_less_iff)
  then have "length (show_nat (nat \<bar>i\<bar>)) \<le> 20" by (rule length_show_nat) simp
  then show ?thesis by (simp add: MAX_INT_DIGITS_def)
qed

section \<open>Reading back what was written\<close>

lemma is_hex_char: "n < 16 \<Longrightarrow> is_hex (hex_char n)"
  and hex_value_char: "n < 16 \<Longrightarrow> hex_value (hex_char n) = n"
  by (auto simp: hex_char_def hex_value_def char_defs code_digit_char of_char_of digit_value_def)

lemma code_less: "code c < 256"
proof -
  have "code c = code (char_of (code c) :: char)" by simp
  also have "\<dots> = code c mod 256" by (rule of_char_of)
  also have "\<dots> < 256" by simp
  finally show ?thesis .
qed

lemma unescape_simps [simp]:
  "unescape (CHR 0x22) = Some (CHR 0x22)" "unescape (CHR 0x5C) = Some (CHR 0x5C)"
  "unescape (CHR ''n'') = Some (CHR 0x0A)" "unescape (CHR ''r'') = Some (CHR 0x0D)"
  "unescape (CHR ''t'') = Some (CHR 0x09)" "unescape (CHR ''f'') = Some (CHR 0x0C)"
  "unescape (CHR ''b'') = Some (CHR 0x08)"
  by (simp_all add: unescape_def)

lemma parse_escape: "parse_chars (escape_char c @ t) = map_option (apfst ((#) c)) (parse_chars t)"
proof -
  have controls: "code c = 10 \<Longrightarrow> c = CHR 0x0A" "code c = 13 \<Longrightarrow> c = CHR 0x0D" "code c = 9 \<Longrightarrow> c = CHR 0x09"
    "code c = 12 \<Longrightarrow> c = CHR 0x0C" "code c = 8 \<Longrightarrow> c = CHR 0x08"
    by (simp_all only: code_eq_iff [symmetric], simp_all)
  have "code c div 16 < 16" "code c mod 16 < 16"
    using code_less [of c] by (simp_all add: less_mult_imp_div_less)
  then have hex: "is_hex (hex_char (code c div 16))" "is_hex (hex_char (code c mod 16))"
    "char_of (hex_value (hex_char (code c div 16)) * 16 + hex_value (hex_char (code c mod 16))) = c"
    by (simp_all add: is_hex_char hex_value_char)
  show ?thesis
    unfolding escape_char_def
    by (auto simp: parse_chars.simps(2) hex dest!: controls)
qed

lemma parse_string:
  "parse_chars (concat (map escape_char s) @ CHR 0x22 # rest) = Some (s, rest)"
  by (induction s) (simp_all add: parse_escape parse_chars.simps(2))

definition ends_value :: "string \<Rightarrow> bool" where
  "ends_value s \<longleftrightarrow> s = [] \<or> hd s \<in> {CHR '','', CHR '']'', CHR 0x7D}"

lemma ends_value_simps [simp]:
  "ends_value []" "ends_value (CHR '','' # s)" "ends_value (CHR '']'' # s)" "ends_value (CHR 0x7D # s)"
  by (simp_all add: ends_value_def)

lemma show_nat_hd: "hd (show_nat n) = CHR ''0'' \<Longrightarrow> n = 0"
proof (induction n rule: show_nat.induct)
  case (1 n)
  show ?case
  proof (cases "n < 10")
    case True
    then have "code (digit_char n) = 48" using "1.prems" by (simp add: show_nat.simps [of n])
    then show ?thesis using True by (simp add: code_digit_char)
  next
    case False
    then have "hd (show_nat (n div 10)) = CHR ''0''"
      using "1.prems" by (simp add: show_nat.simps [of n])
    then have "n div 10 = 0" by (rule "1.IH" [OF False])
    then show ?thesis using False by simp
  qed
qed

lemma parse_show_nat:
  assumes "length (show_nat n) \<le> MAX_INT_DIGITS" "ends_value rest"
  shows "parse_digits (show_nat n @ rest) = Some (n, rest)"
proof -
  have stop: "rest = [] \<or> \<not> is_decimal (hd rest) \<and> hd rest \<notin> {CHR ''.'', CHR ''e'', CHR ''E''}"
    using assms(2) by (auto simp: ends_value_def is_decimal_def)
  then have "takeWhile is_decimal rest = []" "dropWhile is_decimal rest = rest"
    by (cases rest; auto)+
  then have split: "takeWhile is_decimal (show_nat n @ rest) = show_nat n"
    "dropWhile is_decimal (show_nat n @ rest) = rest"
    using show_nat_decimal [of n] by (simp_all add: takeWhile_append2 dropWhile_append2)
  have "hd (show_nat n) = CHR ''0'' \<Longrightarrow> show_nat n = [CHR ''0'']"
    using show_nat_hd [of n] by (auto simp: show_nat.simps [of 0] digit_char_def char_of_def)
  then show ?thesis
    using assms(1) split stop by (auto simp: parse_digits_def Let_def)
qed

lemma parse_show_int:
  assumes "writable (JInt i)" "ends_value rest"
  shows "parse_int (show_int i @ rest) = Some (JInt i, rest)"
proof -
  obtain c r where cr: "show_nat (nat i) = c # r" by (cases "show_nat (nat i)") auto
  then have "is_decimal c" using show_nat_decimal [of "nat i"] by simp
  then have "c \<noteq> CHR ''-''" by (auto simp: is_decimal_def)
  moreover have "0 \<le> i \<Longrightarrow> parse_digits (c # r @ rest) = Some (nat i, rest)"
    using parse_show_nat [of "nat i" rest] assms cr by simp
  moreover have "i < 0 \<Longrightarrow> parse_digits (show_nat (nat (- i)) @ rest) = Some (nat (- i), rest)"
    using parse_show_nat [of "nat (- i)" rest] assms by simp
  ultimately show ?thesis using cr by (auto simp: parse_int_def show_int_def)
qed

text \<open>How a written value starts: no white space, and not the bracket that would end an array.\<close>

definition starts_value :: "string \<Rightarrow> bool" where
  "starts_value s \<longleftrightarrow> s \<noteq> [] \<and> \<not> is_json_ws (hd s) \<and> hd s \<noteq> CHR '']''"

lemma digit_plain: "is_decimal c \<Longrightarrow> \<not> is_json_ws c \<and> c \<notin> {CHR 0x22, CHR 0x7B, CHR ''['', CHR '']'', CHR ''n'', CHR ''t'', CHR ''f''}"
  by (auto simp: is_decimal_def is_json_ws_def)

lemma show_int_hd:
  "\<exists>c r. show_int i = c # r \<and> \<not> is_json_ws c
     \<and> c \<notin> {CHR 0x22, CHR 0x7B, CHR ''['', CHR '']'', CHR ''n'', CHR ''t'', CHR ''f''}"
proof (cases "i < 0")
  case True
  then show ?thesis by (simp add: show_int_def is_json_ws_def)
next
  case False
  obtain c r where cr: "show_nat (nat i) = c # r" by (cases "show_nat (nat i)") auto
  then have "is_decimal c" using show_nat_decimal [of "nat i"] by simp
  with cr False digit_plain [of c] show ?thesis by (simp add: show_int_def)
qed

lemma starts_dumps: "writable v \<Longrightarrow> starts_value (dumps fr v)"
proof (cases v)
  case (JInt i)
  obtain c r where "show_int i = c # r" "\<not> is_json_ws c" "c \<noteq> CHR '']''"
    using show_int_hd [of i] by blast
  then show ?thesis using JInt by (simp add: starts_value_def)
qed (auto simp: starts_value_def is_json_ws_def dump_string_def)

lemma skip_starts: "starts_value s \<Longrightarrow> skip_ws (s @ t) = s @ t"
  by (cases s) (auto simp: starts_value_def)

lemma parse_written_int:
  assumes "writable (JInt i)" "ends_value rest"
  shows "parse_value (Suc n) (show_int i @ rest) = Some (JInt i, rest)"
proof -
  obtain c r where "show_int i = c # r" "c \<notin> {CHR 0x22, CHR 0x7B, CHR ''['', CHR '']'', CHR ''n'', CHR ''t'', CHR ''f''}"
    using show_int_hd by blast
  then show ?thesis
    using parse_show_int [OF assms] by (auto simp: parse_value.simps(2) starts_with_def)
qed

lemma foldl_dict_set:
  "distinct (map fst (d @ ms)) \<Longrightarrow> foldl (\<lambda>d (k, v). dict_set k v d) d ms = d @ ms"
proof (induction ms arbitrary: d)
  case (Cons m ms)
  obtain k v where m: "m = (k, v)" by force
  have "k \<notin> fst ` set d" using Cons.prems m by auto
  then have "dict_set k v d = d @ [(k, v)]" by (induction d) auto
  then show ?case using Cons.IH [of "d @ [(k, v)]"] Cons.prems m by simp
qed simp

lemma object_of_ok: "dict_ok d \<Longrightarrow> object_of d = JObj d"
  using foldl_dict_set [of "[]" d] by (simp add: object_of_def dict_ok_def)

lemma parse_dumps:
  "writable v \<Longrightarrow> ends_value rest \<Longrightarrow> 2 * length (dumps fr v @ rest) \<le> n \<Longrightarrow>
   parse_value n (dumps fr v @ rest) = Some (v, rest)"
  "writables vs \<Longrightarrow> vs \<noteq> [] \<Longrightarrow> 2 * length (dumps_list fr vs @ CHR '']'' # rest) < n \<Longrightarrow>
   parse_items n (dumps_list fr vs @ CHR '']'' # rest) = Some (vs, rest)"
  "writable_fields d \<Longrightarrow> d \<noteq> [] \<Longrightarrow> 2 * length (dumps_fields fr d @ CHR 0x7D # rest) < n \<Longrightarrow>
   parse_members n (dumps_fields fr d @ CHR 0x7D # rest) = Some (d, rest)"
proof (induction v and vs and d arbitrary: n rest and n rest and n rest
    rule: writable_writables_writable_fields.induct)
  case 1
  then obtain m where "n = Suc m" by (cases n) auto
  then show ?case by (simp add: parse_value.simps(2) starts_with_def)
next
  case (2 b)
  then obtain m where "n = Suc m" by (cases n) (auto split: if_splits)
  then show ?case by (cases b) (simp_all add: parse_value.simps(2) starts_with_def)
next
  case (3 i)
  obtain c r where "show_int i = c # r" using show_int_hd by blast
  then obtain m where "n = Suc m" using 3 by (cases n) auto
  then show ?case using parse_written_int [OF 3(1,2)] by simp
next
  case (4 f)
  then show ?case by simp
next
  case (5 s)
  then obtain m where "n = Suc m" by (cases n) (auto simp: dump_string_def)
  then show ?case by (simp add: parse_value.simps(2) dump_string_def parse_string)
next
  case (6 vs)
  then obtain m where m: "n = Suc m" by (cases n) auto
  show ?case
  proof (cases vs)
    case Nil
    then show ?thesis using m by (simp add: parse_value.simps(2) is_json_ws_def)
  next
    case (Cons v vs')
    have st: "starts_value (dumps_list fr vs)"
      using starts_dumps [of v fr] 6 Cons by (auto simp: starts_value_def)
    have "parse_items m (dumps_list fr vs @ CHR '']'' # rest) = Some (vs, rest)"
      using 6 m Cons by (intro "6.IH") auto
    moreover obtain c r where "dumps_list fr vs = c # r" using st by (cases "dumps_list fr vs") (auto simp: starts_value_def)
    ultimately show ?thesis
      using m st skip_starts [OF st, of "CHR '']'' # rest"]
      by (simp add: parse_value.simps(2) starts_value_def)
  qed
next
  case (7 d)
  then obtain m where m: "n = Suc m" by (cases n) auto
  show ?case
  proof (cases d)
    case Nil
    then show ?thesis using m by (simp add: parse_value.simps(2) is_json_ws_def)
  next
    case (Cons kv d')
    obtain k v where kv: "kv = (k, v)" by force
    obtain r where r: "dumps_fields fr d = CHR 0x22 # r"
      using Cons kv by (simp add: dump_string_def)
    have "parse_members m (dumps_fields fr d @ CHR 0x7D # rest) = Some (d, rest)"
      using 7 m Cons by (intro "7.IH") auto
    then show ?thesis
      using m r 7 by (simp add: parse_value.simps(2) is_json_ws_def object_of_ok)
  qed
next
  case 8
  then show ?case by simp
next
  case (9 v vs)
  then obtain m where m: "n = Suc m" by (cases n) auto
  let ?rest = "case vs of [] \<Rightarrow> CHR '']'' # rest | _ \<Rightarrow> CHR '','' # dumps_list fr vs @ CHR '']'' # rest"
  have split: "dumps_list fr (v # vs) @ CHR '']'' # rest = dumps fr v @ ?rest"
    by (cases vs) simp_all
  have v: "parse_value m (dumps fr v @ ?rest) = Some (v, ?rest)"
  proof (rule "9.IH"(1))
    show "writable v" using 9 by simp
    show "ends_value ?rest" by (cases vs) simp_all
    show "2 * length (dumps fr v @ ?rest) \<le> m" using 9(5) m unfolding split by simp
  qed
  show ?case
  proof (cases vs)
    case Nil
    then show ?thesis using v m split by (simp add: parse_items.simps(2) is_json_ws_def)
  next
    case (Cons w ws)
    have "starts_value (dumps_list fr vs)"
      using starts_dumps [of w fr] 9 Cons by (auto simp: starts_value_def)
    then have "skip_ws (dumps_list fr vs @ CHR '']'' # rest) = dumps_list fr vs @ CHR '']'' # rest"
      by (rule skip_starts)
    moreover have "parse_items m (dumps_list fr vs @ CHR '']'' # rest) = Some (vs, rest)"
      using 9 m Cons by (intro "9.IH"(2)) auto
    ultimately show ?thesis
      using v m split Cons by (simp add: parse_items.simps(2) is_json_ws_def)
  qed
next
  case 10
  then show ?case by simp
next
  case (11 k v d)
  then obtain m where m: "n = Suc m" by (cases n) auto
  let ?rest = "case d of [] \<Rightarrow> CHR 0x7D # rest | _ \<Rightarrow> CHR '','' # dumps_fields fr d @ CHR 0x7D # rest"
  have split: "dumps_fields fr ((k, v) # d) @ CHR 0x7D # rest
      = dump_string k @ CHR '':'' # dumps fr v @ ?rest"
    by (cases d) simp_all
  have v: "parse_value m (dumps fr v @ ?rest) = Some (v, ?rest)"
  proof (rule "11.IH"(1))
    show "writable v" using 11 by simp
    show "ends_value ?rest" by (cases d) simp_all
    show "2 * length (dumps fr v @ ?rest) \<le> m" using 11(5) m unfolding split by simp
  qed
  have sv: "skip_ws (dumps fr v @ ?rest) = dumps fr v @ ?rest"
    using 11 by (intro skip_starts starts_dumps) simp
  have key: "parse_chars (concat (map escape_char k) @ CHR 0x22 # CHR '':'' # t) = Some (k, CHR '':'' # t)" for t
    by (rule parse_string)
  show ?case
  proof (cases d)
    case Nil
    then show ?thesis
      using v sv m unfolding split by (simp add: parse_members.simps(2) dump_string_def key is_json_ws_def)
  next
    case (Cons w ws)
    obtain r where r: "dumps_fields fr d = CHR 0x22 # r"
      using Cons by (cases w) (simp add: dump_string_def)
    have "parse_members m (dumps_fields fr d @ CHR 0x7D # rest) = Some (d, rest)"
      using 11 m Cons by (intro "11.IH"(2)) auto
    then show ?thesis
      using v sv m r Cons unfolding split
      by (simp add: parse_members.simps(2) dump_string_def key is_json_ws_def)
  qed
qed

lemma escape_char_ascii: "list_all (\<lambda>c. code c < 128) (escape_char c)"
proof -
  have "code c div 16 < 16" "code c mod 16 < 16"
    using code_less [of c] by (simp_all add: less_mult_imp_div_less)
  then have "code (hex_char (code c div 16)) < 128" "code (hex_char (code c mod 16)) < 128"
    by (auto simp: hex_char_def code_digit_char of_char_of)
  then show ?thesis by (simp add: escape_char_def)
qed

lemma dump_string_ascii: "list_all (\<lambda>c. code c < 128) (dump_string s)"
  using escape_char_ascii by (induction s) (auto simp: dump_string_def list_all_iff)

lemma show_nat_ascii: "list_all (\<lambda>c. code c < 128) (show_nat n)"
  using show_nat_decimal [of n] by (force simp: list_all_iff is_decimal_def)

lemma dumps_ascii:
  "writable v \<Longrightarrow> list_all (\<lambda>c. code c < 128) (dumps fr v)"
  "writables vs \<Longrightarrow> list_all (\<lambda>c. code c < 128) (dumps_list fr vs)"
  "writable_fields d \<Longrightarrow> list_all (\<lambda>c. code c < 128) (dumps_fields fr d)"
proof (induction v and vs and d rule: writable_writables_writable_fields.induct)
  case (3 i)
  then show ?case by (simp add: show_nat_ascii show_int_def)
next
  case (9 v vs)
  then show ?case by (cases vs) simp_all
next
  case (11 k v d)
  then show ?case by (cases d) (simp_all add: dump_string_ascii)
qed (simp_all add: dump_string_ascii)

lemma of_bytes_to_bytes: "map (\<lambda>b. char_of (unat b)) (to_bytes s) = s"
proof -
  have "char_of (unat (of_nat (code c) :: byte)) = c" for c
    using code_less [of c] by (simp add: unat_of_nat take_bit_eq_mod)
  then show ?thesis by (simp add: to_bytes_def comp_def)
qed

lemma to_bytes_ascii: "list_all (\<lambda>b. unat b < 128) (to_bytes s) \<longleftrightarrow> list_all (\<lambda>c. code c < 128) s"
proof -
  have "unat (of_nat (code c) :: byte) = code c" for c
    using code_less [of c] by (simp add: unat_of_nat take_bit_eq_mod)
  then show ?thesis by (simp add: to_bytes_def list_all_iff)
qed

lemma ascii_loads_dumps:
  assumes "writable v" "json_depth v \<le> MAX_DEPTH"
  shows "ascii_loads (to_bytes (dumps fr v)) = Some v"
proof -
  have "skip_ws (dumps fr v) = dumps fr v"
    using skip_starts [OF starts_dumps [OF assms(1)], of fr "[]"] by simp
  moreover have "parse_value (2 * length (dumps fr v)) (dumps fr v) = Some (v, [])"
    using parse_dumps(1) [OF assms(1), of "[]" fr] by simp
  ultimately show ?thesis
    using assms dumps_ascii(1) [OF assms(1), of fr]
    by (simp add: ascii_loads_def of_bytes_to_bytes to_bytes_ascii)
qed

section \<open>Sorted keys\<close>

lemma sort_keys_fields_map: "sort_keys_fields d = map (\<lambda>(k, v). (k, sort_keys v)) d"
  and sort_keys_list_map: "sort_keys_list vs = map sort_keys vs"
  by (induction d) (auto, induction vs, auto)

lemma sort_map_values:
  "sort_key fst (map (\<lambda>(k, v). (k, f v)) d) = map (\<lambda>(k, v). (k, f v)) (sort_key fst (d :: (string \<times> 'a) list))"
proof (induction d)
  case (Cons a d)
  have ins: "insort_key fst (k, f v) (map (\<lambda>(k, v). (k, f v)) e)
      = map (\<lambda>(k, v). (k, f v)) (insort_key fst (k, v) e)" for k v and e :: "(string \<times> 'a) list"
    by (induction e) auto
  from Cons ins show ?case by (cases a) simp
qed simp

lemma sort_sorted: "sort_key f (sort_key f xs) = sort_key f xs"
  by (rule sort_key_id_if_sorted) simp

end
