(* ===== verification/Framing.thy ===== *)
theory Framing
  imports Identity JsonText
begin

text \<open>
  \<open>utils/crypto.py\<close> and the frame functions of \<open>core/protocol.py\<close>: length-prefixed frames over a
  socket, each sealed with AES-GCM. The receiving side of a socket is the list of what the network
  will deliver: pieces of bytes as they arrive, or an exception of \<open>recv\<close> (a timeout, a reset); the
  end of the list is the peer's orderly close.
\<close>

section \<open>Effectful operations\<close>

text \<open>An operation on a state that returns or raises; the state changes made before a raise stay.\<close>

type_synonym ('s, 'a) io = "'s \<Rightarrow> 'a result \<times> 's"

definition io_bind :: "('s, 'a) io \<Rightarrow> ('a \<Rightarrow> ('s, 'b) io) \<Rightarrow> ('s, 'b) io" where
  "io_bind m f s = (case m s of (Inl e, s') \<Rightarrow> (Inl e, s') | (Inr x, s') \<Rightarrow> f x s')"

definition io_ret :: "'a \<Rightarrow> ('s, 'a) io" where
  "io_ret x s = (Inr x, s)"

definition io_lift :: "'a result \<Rightarrow> ('s, 'a) io" where
  "io_lift r s = (r, s)"

lemma io_simps [simp]:
  "io_ret x s = (Inr x, s)" "io_lift r s = (r, s)"
  by (simp_all add: io_ret_def io_lift_def)

lemma io_bind_eqs:
  "m s = (Inl e, s') \<Longrightarrow> io_bind m f s = (Inl e, s')"
  "m s = (Inr x, s') \<Longrightarrow> io_bind m f s = f x s'"
  by (simp_all add: io_bind_def)

lemma io_bind_Inr:
  "io_bind m f s = (Inr y, t) \<longleftrightarrow> (\<exists>x s'. m s = (Inr x, s') \<and> f x s' = (Inr y, t))"
  by (auto simp: io_bind_def split: prod.splits sum.splits)

text \<open>
  A property of all runs of an operation: it relates every start state to the state after, whether
  the operation returned or raised. Any preorder on states composes along \<open>io_bind\<close>.
\<close>

definition all_runs :: "('s \<Rightarrow> 's \<Rightarrow> bool) \<Rightarrow> ('s, 'a) io \<Rightarrow> bool" where
  "all_runs R m \<longleftrightarrow> (\<forall>s. R s (snd (m s)))"

lemma all_runsI: "(\<And>s. R s (snd (m s))) \<Longrightarrow> all_runs R m"
  by (simp add: all_runs_def)

lemma all_runsD: "all_runs R m \<Longrightarrow> m s = (r, t) \<Longrightarrow> R s t"
  unfolding all_runs_def by (metis snd_conv)

locale state_preorder =
  fixes R :: "'s \<Rightarrow> 's \<Rightarrow> bool"
  assumes refl: "R s s"
    and trans: "R s t \<Longrightarrow> R t u \<Longrightarrow> R s u"
begin

lemma runs_ret: "all_runs R (io_ret x)" and runs_lift: "all_runs R (io_lift r)"
  by (simp_all add: all_runs_def refl)

lemma runs_bind:
  assumes m: "all_runs R m" and f: "\<And>x. all_runs R (f x)"
  shows "all_runs R (io_bind m f)"
proof (rule all_runsI)
  fix s
  obtain r t where mt: "m s = (r, t)" by force
  then have "R s t" by (rule all_runsD [OF m])
  then show "R s (snd (io_bind m f s))"
    using mt f trans by (cases r) (auto simp: io_bind_def all_runs_def)
qed

lemma runs_if: "all_runs R m \<Longrightarrow> all_runs R n \<Longrightarrow> all_runs R (if b then m else n)"
  by simp

end

section \<open>Receiving\<close>

datatype net_event = Arrive bytes | Fail exn

type_synonym net = "net_event list"

text \<open>\<open>sock.recv(n)\<close>: at most \<open>n\<close> bytes of what has arrived, and nothing only at the end.\<close>

fun sock_recv :: "nat \<Rightarrow> (net, bytes) io" where
  "sock_recv n [] = (Inr [], [])"
| "sock_recv n (Fail e # s) = (Inl e, s)"
| "sock_recv n (Arrive [] # s) = sock_recv n s"
| "sock_recv n (Arrive (b # bs) # s) =
     (Inr (take n (b # bs)), if length (b # bs) \<le> n then s else Arrive (drop n (b # bs)) # s)"

text \<open>\<open>_recv_exact\<close>: an exception of \<open>recv\<close> drops the bytes already collected.\<close>

function recv_exact :: "nat \<Rightarrow> bytes \<Rightarrow> (net, bytes) io" where
  "recv_exact n acc s =
     (if length acc < n
      then (case sock_recv (n - length acc) s of
              (Inl e, s') \<Rightarrow> (Inl e, s')
            | (Inr [], s') \<Rightarrow> (Inr acc, s')
            | (Inr (b # bs), s') \<Rightarrow> recv_exact n (acc @ b # bs) s')
      else (Inr acc, s))"
  by pat_completeness auto
termination by (relation "measure (\<lambda>(n, acc, _). n - length acc)") auto

declare recv_exact.simps [simp del]

section \<open>Frames\<close>

definition be32 :: "nat \<Rightarrow> bytes" where
  "be32 n = [of_nat (n div 2 ^ 24), of_nat (n div 2 ^ 16), of_nat (n div 2 ^ 8), of_nat n]"

definition of_be :: "bytes \<Rightarrow> nat" where
  "of_be bs = foldl (\<lambda>acc b. acc * 256 + unat b) 0 bs"

definition pack_frame :: "bytes \<Rightarrow> bytes result" where
  "pack_frame d = (if 2 ^ 32 \<le> length d then Inl StructError else Inr (be32 (length d) @ d))"

definition frame_too_big :: exn where
  "frame_too_big = ValueError ''Frame size exceeds maximum allowed''"

definition unpack_frame :: "nat \<Rightarrow> (net, bytes) io" where
  "unpack_frame max_size =
     io_bind (recv_exact 4 []) (\<lambda>raw.
     io_bind (io_lift (ensure (ConnectionError ''Connection closed while reading frame length'')
                         (length raw = 4))) (\<lambda>_.
     io_bind (io_lift (ensure frame_too_big (of_be raw \<le> max_size))) (\<lambda>_.
     io_bind (recv_exact (of_be raw) []) (\<lambda>d.
     io_bind (io_lift (ensure (ConnectionError ''Connection closed while reading frame data'')
                         (length d = of_be raw))) (\<lambda>_.
     io_ret d)))))"

section \<open>Sealed frames\<close>

definition key_size_error :: exn where
  "key_size_error = ValueError ''AES-256-GCM requires a 32-byte key''"

definition encrypt_chunk :: "crypto \<Rightarrow> bytes \<Rightarrow> bytes \<Rightarrow> bytes \<Rightarrow> bytes result" where
  "encrypt_chunk c nonce d key =
     (if length key \<noteq> 32 then Inl key_size_error else Inr (nonce @ gcm_encrypt c key nonce d))"

definition decrypt_chunk :: "crypto \<Rightarrow> bytes \<Rightarrow> bytes \<Rightarrow> bytes result" where
  "decrypt_chunk c payload key =
     (if length key \<noteq> 32 then Inl key_size_error
      else if length payload < NONCE_SIZE + 16 then Inl (ValueError ''Encrypted frame is too short'')
      else case gcm_decrypt c key (take NONCE_SIZE payload) (drop NONCE_SIZE payload) of
             None \<Rightarrow> Inl InvalidTag | Some d \<Rightarrow> Inr d)"

text \<open>
  Decoding and parsing a frame's text: the value, an error the \<open>except\<close> clauses name (\<open>UnicodeDecodeError\<close>,
  \<open>JSONDecodeError\<close>, \<open>RecursionError\<close>), or the \<open>ValueError\<close> of an integer with too many digits, which
  they do not. Text beyond Latin-1 is outside the string model, so the parser is a parameter
  wherever a frame is read.
\<close>

datatype parsed = Parsed json | Unparsable | TooManyDigits

text \<open>The parser agrees with the written-out one wherever that is defined; \<open>ascii_parser\<close> is such a parser.\<close>

definition reads_ascii :: "(bytes \<Rightarrow> parsed) \<Rightarrow> bool" where
  "reads_ascii ld \<longleftrightarrow> (\<forall>bs v. ascii_loads bs = Some v \<longrightarrow> ld bs = Parsed v)"

definition ascii_parser :: "bytes \<Rightarrow> parsed" where
  "ascii_parser bs = (case ascii_loads bs of None \<Rightarrow> Unparsable | Some v \<Rightarrow> Parsed v)"

lemma ascii_parser_reads: "reads_ascii ascii_parser"
  by (simp add: reads_ascii_def ascii_parser_def)

lemma reads_dumps:
  "reads_ascii ld \<Longrightarrow> writable v \<Longrightarrow> json_depth v \<le> MAX_DEPTH \<Longrightarrow> ld (to_bytes (dumps fr v)) = Parsed v"
  by (simp add: reads_ascii_def ascii_loads_dumps)

definition digits_error :: exn where
  "digits_error = ValueError ''Exceeds the limit for integer string conversion''"

definition parsed_object :: "string \<Rightarrow> string \<Rightarrow> parsed \<Rightarrow> json result" where
  "parsed_object bad not_object p =
     (case p of
        Parsed (JObj d) \<Rightarrow> Inr (JObj d)
      | Parsed _ \<Rightarrow> Inl (ProtocolError not_object)
      | Unparsable \<Rightarrow> Inl (ProtocolError bad)
      | TooManyDigits \<Rightarrow> Inl digits_error)"

text \<open>The payload of \<open>send_encrypted_frame\<close>: a dict is serialised first, bytes go as they are.\<close>

datatype payload = Control json | Data bytes

definition payload_bytes :: "(pyfloat \<Rightarrow> string) \<Rightarrow> payload \<Rightarrow> bytes" where
  "payload_bytes fr p = (case p of Control v \<Rightarrow> to_bytes (dumps fr v) | Data bs \<Rightarrow> bs)"

definition send_encrypted_frame ::
  "crypto \<Rightarrow> (pyfloat \<Rightarrow> string) \<Rightarrow> bytes \<Rightarrow> bytes \<Rightarrow> payload \<Rightarrow> bytes result" where
  "send_encrypted_frame c fr nonce key p =
     bind_result (encrypt_chunk c nonce (payload_bytes fr p) key) pack_frame"

definition receive_control_frame :: "crypto \<Rightarrow> (bytes \<Rightarrow> parsed) \<Rightarrow> bytes \<Rightarrow> (net, json) io" where
  "receive_control_frame c ld key =
     io_bind (unpack_frame (HEADER_MAX_SIZE + 64)) (\<lambda>enc.
     io_bind (io_lift (decrypt_chunk c enc key)) (\<lambda>raw.
     io_lift (parsed_object ''Invalid transfer control frame''
                ''Transfer control frame must be an object'' (ld raw))))"

definition receive_data_frame :: "crypto \<Rightarrow> bytes \<Rightarrow> (net, bytes) io" where
  "receive_data_frame c key =
     io_bind (unpack_frame (CHUNK_SIZE + 64)) (\<lambda>enc. io_lift (decrypt_chunk c enc key))"

section \<open>Exact receiving does not depend on how the bytes are cut\<close>

definition arrivals :: "net \<Rightarrow> bool" where
  "arrivals s \<longleftrightarrow> list_all (\<lambda>e. case e of Arrive _ \<Rightarrow> True | Fail _ \<Rightarrow> False) s"

definition stream_of :: "net \<Rightarrow> bytes" where
  "stream_of s = concat (map (\<lambda>e. case e of Arrive bs \<Rightarrow> bs | Fail _ \<Rightarrow> []) s)"

lemma net_simps [simp]:
  "arrivals []" "arrivals (Arrive bs # s) = arrivals s" "\<not> arrivals (Fail e # s)"
  "stream_of [] = []" "stream_of (Arrive bs # s) = bs @ stream_of s"
  by (simp_all add: arrivals_def stream_of_def)

text \<open>One \<open>recv\<close> returns a prefix of the stream, empty only at its end.\<close>

lemma sock_recv_stream:
  "arrivals s \<Longrightarrow> 0 < n \<Longrightarrow>
   \<exists>bs s'. sock_recv n s = (Inr bs, s') \<and> arrivals s' \<and> stream_of s = bs @ stream_of s'
         \<and> length bs \<le> n \<and> (bs = [] \<longleftrightarrow> stream_of s = [])"
  by (induction n s rule: sock_recv.induct) auto

lemma recv_exact_stream:
  "arrivals s \<Longrightarrow> length acc \<le> n \<Longrightarrow>
   \<exists>s'. recv_exact n acc s = (Inr (acc @ take (n - length acc) (stream_of s)), s') \<and> arrivals s'
       \<and> stream_of s' = drop (n - length acc) (stream_of s)"
proof (induction n acc s rule: recv_exact.induct)
  case (1 n acc s)
  show ?case
  proof (cases "length acc < n")
    case False
    then show ?thesis using 1(2) by (auto simp: recv_exact.simps [of n acc])
  next
    case True
    then obtain bs s' where r: "sock_recv (n - length acc) s = (Inr bs, s')" "arrivals s'"
      "stream_of s = bs @ stream_of s'" "length bs \<le> n - length acc" "bs = [] \<longleftrightarrow> stream_of s = []"
      using sock_recv_stream [of s "n - length acc"] 1(2) by auto
    show ?thesis
    proof (cases bs)
      case Nil
      with r True show ?thesis by (simp add: recv_exact.simps [of n acc])
    next
      case (Cons b bs')
      let ?acc = "acc @ b # bs'"
      have len: "length ?acc \<le> n" using r(4) True Cons by simp
      have "\<exists>t. recv_exact n ?acc s' = (Inr (?acc @ take (n - length ?acc) (stream_of s')), t) \<and> arrivals t
          \<and> stream_of t = drop (n - length ?acc) (stream_of s')"
        using r True Cons len by (intro 1(1)) auto
      moreover have "n - length acc = length bs + (n - length ?acc)" using r(4) Cons by simp
      then have "take (n - length acc) (stream_of s) = bs @ take (n - length ?acc) (stream_of s')"
        and "drop (n - length acc) (stream_of s) = drop (n - length ?acc) (stream_of s')"
        unfolding r(3) by simp_all
      ultimately show ?thesis
        using r(1) True Cons by (simp add: recv_exact.simps [of n acc])
    qed
  qed
qed

lemma recv_exact_take:
  assumes "arrivals s"
  obtains s' where "recv_exact n [] s = (Inr (take n (stream_of s)), s')" "arrivals s'"
    "stream_of s' = drop n (stream_of s)"
  using recv_exact_stream [OF assms, of "[]" n] by auto

text \<open>The frame at the front of a byte stream, as a pure function.\<close>

definition parse_frame :: "nat \<Rightarrow> bytes \<Rightarrow> (bytes \<times> bytes) result" where
  "parse_frame max_size bs =
     (if length bs < 4 then Inl (ConnectionError ''Connection closed while reading frame length'')
      else let n = of_be (take 4 bs) in
           if max_size < n then Inl frame_too_big
           else if length bs < 4 + n
                then Inl (ConnectionError ''Connection closed while reading frame data'')
           else Inr (take n (drop 4 bs), drop (4 + n) bs))"

lemma unpack_frame_stream:
  assumes "arrivals s"
  shows "fst (unpack_frame max_size s) = bind_result (parse_frame max_size (stream_of s)) (Inr \<circ> fst)"
    and "parse_frame max_size (stream_of s) = Inr (d, rest) \<Longrightarrow>
         arrivals (snd (unpack_frame max_size s)) \<and> stream_of (snd (unpack_frame max_size s)) = rest"
proof -
  let ?bs = "stream_of s"
  obtain s1 where s1: "recv_exact 4 [] s = (Inr (take 4 ?bs), s1)" "arrivals s1"
    "stream_of s1 = drop 4 ?bs"
    using recv_exact_take [OF assms] .
  obtain s2 where s2: "recv_exact (of_be (take 4 ?bs)) [] s1 =
      (Inr (take (of_be (take 4 ?bs)) (drop 4 ?bs)), s2)" "arrivals s2"
    "stream_of s2 = drop (of_be (take 4 ?bs)) (drop 4 ?bs)"
    using recv_exact_take [OF s1(2)] s1(3) by metis
  show "fst (unpack_frame max_size s) = bind_result (parse_frame max_size ?bs) (Inr \<circ> fst)"
    using s1 s2
    by (auto simp: unpack_frame_def io_bind_def parse_frame_def Let_def ensure_def min_def)
  show "arrivals (snd (unpack_frame max_size s)) \<and> stream_of (snd (unpack_frame max_size s)) = rest"
    if "parse_frame max_size ?bs = Inr (d, rest)"
    using s1 s2 that
    by (auto simp: unpack_frame_def io_bind_def parse_frame_def Let_def ensure_def add.commute
        split: if_splits)
qed

section \<open>Round trips\<close>

lemma of_be_be32: "n < 2 ^ 32 \<Longrightarrow> of_be (be32 n) = n"
proof -
  assume n: "n < 2 ^ 32"
  have a: "n div 2 ^ 24 < 256" using n by (simp add: less_mult_imp_div_less)
  have shift: "n div (256 * k) * 256 + n div k mod 256 = n div k" for k
    using div_mult_mod_eq [of "n div k" 256] by (simp add: div_mult2_eq mult.commute [of 256])
  show ?thesis
    using a shift [of 1] shift [of "2 ^ 8"] shift [of "2 ^ 16"]
    by (simp add: of_be_def be32_def unat_of_nat take_bit_eq_mod)
qed

lemma length_be32 [simp]: "length (be32 n) = 4"
  by (simp add: be32_def)

definition framed :: "bytes \<Rightarrow> bytes" where
  "framed d = be32 (length d) @ d"

lemma pack_frame_framed: "length d < 2 ^ 32 \<Longrightarrow> pack_frame d = Inr (framed d)"
  by (simp add: pack_frame_def framed_def)

lemma parse_framed:
  "length d \<le> max_size \<Longrightarrow> length d < 2 ^ 32 \<Longrightarrow> parse_frame max_size (framed d @ rest) = Inr (d, rest)"
  by (simp add: parse_frame_def framed_def of_be_be32)

interpretation frames: stream_codec framed "parse_frame max_size"
    "\<lambda>d. length d \<le> max_size \<and> length d < 2 ^ 32" for max_size :: nat
  by unfold_locales (simp add: parse_framed)

lemma decrypt_encrypt:
  assumes "aead_ok c" "length nonce = NONCE_SIZE" "length key = 32"
  shows "decrypt_chunk c (nonce @ gcm_encrypt c key nonce d) key = Inr d"
  using assms by (simp add: decrypt_chunk_def aead_ok_def)

lemma length_sealed:
  "aead_ok c \<Longrightarrow> length (nonce @ gcm_encrypt c key nonce d) = length nonce + length d + 16"
  by (simp add: aead_ok_def)

text \<open>What one sealed frame puts on the wire.\<close>

definition sealed :: "crypto \<Rightarrow> bytes \<Rightarrow> bytes \<Rightarrow> bytes \<Rightarrow> bytes" where
  "sealed c key nonce d = framed (nonce @ gcm_encrypt c key nonce d)"

lemma send_sealed:
  assumes "aead_ok c" "length nonce = NONCE_SIZE" "length key = 32"
    "length (payload_bytes fr p) < 2 ^ 32 - 28"
  shows "send_encrypted_frame c fr nonce key p = Inr (sealed c key nonce (payload_bytes fr p))"
proof -
  have "length (nonce @ gcm_encrypt c key nonce (payload_bytes fr p)) < 2 ^ 32"
    using assms length_sealed [OF assms(1), of nonce key "payload_bytes fr p"]
    by (simp add: NONCE_SIZE_def)
  then show ?thesis
    using assms pack_frame_framed
    by (simp add: send_encrypted_frame_def encrypt_chunk_def sealed_def)
qed

text \<open>
  A sealed frame within the limit, cut in any way, is read back and the rest of the stream is left.
\<close>

lemma unpack_sealed:
  assumes "aead_ok c" "length nonce = NONCE_SIZE" "length d + 28 \<le> max_size" "max_size < 2 ^ 32"
    and "arrivals s" "stream_of s = sealed c key nonce d @ rest"
  obtains s' where "unpack_frame max_size s = (Inr (nonce @ gcm_encrypt c key nonce d), s')"
    "arrivals s'" "stream_of s' = rest"
proof -
  let ?p = "nonce @ gcm_encrypt c key nonce d"
  have len: "length ?p \<le> max_size" "length ?p < 2 ^ 32"
    using assms(2,3,4) length_sealed [OF assms(1), of nonce key d] by (simp_all add: NONCE_SIZE_def)
  then have parse: "parse_frame max_size (stream_of s) = Inr (?p, rest)"
    using assms(6) parse_framed [of ?p max_size rest] by (simp add: sealed_def)
  obtain r s' where r: "unpack_frame max_size s = (r, s')" by (cases "unpack_frame max_size s")
  show thesis
    using that [of s'] unpack_frame_stream [OF assms(5), of max_size] parse r by simp
qed

lemma receive_sealed_data:
  assumes "aead_ok c" "length nonce = NONCE_SIZE" "length key = 32" "length d \<le> CHUNK_SIZE"
    and "arrivals s" "stream_of s = sealed c key nonce d @ rest"
  obtains s' where "receive_data_frame c key s = (Inr d, s')" "arrivals s'" "stream_of s' = rest"
proof -
  obtain s' where s': "unpack_frame (CHUNK_SIZE + 64) s = (Inr (nonce @ gcm_encrypt c key nonce d), s')"
    "arrivals s'" "stream_of s' = rest"
    using unpack_sealed [OF assms(1,2) _ _ assms(5,6), of "CHUNK_SIZE + 64"] assms(4)
    by (auto simp: CHUNK_SIZE_def)
  show thesis
    using that [of s'] s' assms by (simp add: receive_data_frame_def io_bind_eqs decrypt_encrypt)
qed

lemma receive_sealed_control:
  assumes "aead_ok c" "length nonce = NONCE_SIZE" "length key = 32"
    and "length (payload_bytes fr (Control (JObj v))) + 28 \<le> HEADER_MAX_SIZE + 64"
    and "ld (payload_bytes fr (Control (JObj v))) = Parsed (JObj v)"
    and "arrivals s" "stream_of s = sealed c key nonce (payload_bytes fr (Control (JObj v))) @ rest"
  obtains s' where "receive_control_frame c ld key s = (Inr (JObj v), s')" "arrivals s'"
    "stream_of s' = rest"
proof -
  let ?d = "payload_bytes fr (Control (JObj v))"
  obtain s' where s': "unpack_frame (HEADER_MAX_SIZE + 64) s = (Inr (nonce @ gcm_encrypt c key nonce ?d), s')"
    "arrivals s'" "stream_of s' = rest"
    using unpack_sealed [OF assms(1,2) _ _ assms(6,7), of "HEADER_MAX_SIZE + 64"] assms(4)
    by (auto simp: HEADER_MAX_SIZE_def)
  show thesis
    using that [of s'] s' assms
    by (simp add: receive_control_frame_def io_bind_eqs decrypt_encrypt parsed_object_def)
qed

text \<open>A control frame over the limit is refused whatever it contains.\<close>

lemma receive_control_too_big:
  assumes "aead_ok c" "length nonce = NONCE_SIZE" "HEADER_MAX_SIZE + 64 < length d + 28"
    "length d < 2 ^ 32 - 28" and "arrivals s" "stream_of s = sealed c key nonce d @ rest"
  shows "fst (receive_control_frame c ld key s) = Inl frame_too_big"
proof -
  let ?p = "nonce @ gcm_encrypt c key nonce d"
  have len: "HEADER_MAX_SIZE + 64 < length ?p" "length ?p < 2 ^ 32"
    using assms(2,3,4) length_sealed [OF assms(1), of nonce key d] by (simp_all add: NONCE_SIZE_def)
  then have "parse_frame (HEADER_MAX_SIZE + 64) (stream_of s) = Inl frame_too_big"
    using assms(6) by (simp add: sealed_def framed_def parse_frame_def of_be_be32)
  with unpack_frame_stream(1) [OF assms(5)] have "fst (unpack_frame (HEADER_MAX_SIZE + 64) s) = Inl frame_too_big"
    by simp
  then show ?thesis
    by (auto simp: receive_control_frame_def io_bind_def split: prod.splits)
qed

text \<open>A frame that arrives in one piece.\<close>

lemma recv_exact_done: "n \<le> length acc \<Longrightarrow> recv_exact n acc s = (Inr acc, s)"
  by (subst recv_exact.simps) simp

lemma recv_exact_piece:
  "0 < n \<Longrightarrow> n \<le> length bs \<Longrightarrow>
   recv_exact n [] (Arrive bs # s) = (Inr (take n bs), if length bs = n then s else Arrive (drop n bs) # s)"
proof -
  assume n: "0 < n" "n \<le> length bs"
  let ?rest = "if length bs = n then s else Arrive (drop n bs) # s"
  have "sock_recv n (Arrive bs # s) = (Inr (take n bs), ?rest)"
    using n by (cases bs) auto
  moreover obtain x xs where "take n bs = x # xs" using n by (cases "take n bs") auto
  moreover have "recv_exact n (take n bs) ?rest = (Inr (take n bs), ?rest)"
    using n by (intro recv_exact_done) simp
  ultimately show ?thesis using n by (subst recv_exact.simps) simp
qed

lemma unpack_piece:
  assumes "d \<noteq> []" "length d \<le> max_size" "length d < 2 ^ 32"
  shows "unpack_frame max_size (Arrive (framed d) # s) = (Inr d, s)"
proof -
  have "recv_exact 4 [] (Arrive (framed d) # s) = (Inr (be32 (length d)), Arrive d # s)"
    using assms(1) by (subst recv_exact_piece) (auto simp: framed_def)
  moreover have "recv_exact (length d) [] (Arrive d # s) = (Inr d, s)"
    using assms(1) by (subst recv_exact_piece) auto
  ultimately show ?thesis
    using assms by (simp add: unpack_frame_def io_bind_def of_be_be32)
qed

lemma receive_control_piece:
  assumes "aead_ok c" "length nonce = NONCE_SIZE" "length key = 32" "length d \<le> HEADER_MAX_SIZE"
  shows "receive_control_frame c ld key (Arrive (sealed c key nonce d) # s) =
    (parsed_object ''Invalid transfer control frame'' ''Transfer control frame must be an object'' (ld d), s)"
proof -
  have len: "length (nonce @ gcm_encrypt c key nonce d) = length d + 28"
    using assms(1,2) length_sealed [OF assms(1), of nonce key d] by (simp add: NONCE_SIZE_def)
  then have ne: "nonce @ gcm_encrypt c key nonce d \<noteq> []" by (metis add_is_0 length_0_conv zero_neq_numeral)
  have "unpack_frame (HEADER_MAX_SIZE + 64) (Arrive (sealed c key nonce d) # s)
      = (Inr (nonce @ gcm_encrypt c key nonce d), s)"
    unfolding sealed_def using ne len assms(4) by (intro unpack_piece) (simp_all only: HEADER_MAX_SIZE_def, simp_all)
  then show ?thesis
    using assms by (simp add: receive_control_frame_def io_bind_def decrypt_encrypt)
qed

lemma receive_data_piece:
  assumes "aead_ok c" "length nonce = NONCE_SIZE" "length key = 32" "length d \<le> CHUNK_SIZE"
  shows "receive_data_frame c key (Arrive (sealed c key nonce d) # s) = (Inr d, s)"
proof -
  have len: "length (nonce @ gcm_encrypt c key nonce d) = length d + 28"
    using assms(1,2) length_sealed [OF assms(1), of nonce key d] by (simp add: NONCE_SIZE_def)
  then have ne: "nonce @ gcm_encrypt c key nonce d \<noteq> []" by (metis add_is_0 length_0_conv zero_neq_numeral)
  have "unpack_frame (CHUNK_SIZE + 64) (Arrive (sealed c key nonce d) # s)
      = (Inr (nonce @ gcm_encrypt c key nonce d), s)"
    unfolding sealed_def using ne len assms(4) by (intro unpack_piece) (simp_all only: CHUNK_SIZE_def, simp_all)
  then show ?thesis
    using assms by (simp add: receive_data_frame_def io_bind_def decrypt_encrypt)
qed

end
