(* ===== verification/Protocol.thy ===== *)
theory Protocol
  imports Config
begin

text \<open>
  \<open>core/protocol.py\<close>: validation of everything a peer sends in a control frame (filenames, identifiers,
  chunk headers, offers, responses), with the data types those validators return. Lemmas: what an
  accepted value is known to satisfy, and that the frames the program builds are accepted.
\<close>

section \<open>Filenames\<close>

definition real_parts :: "string list \<Rightarrow> string list" where
  "real_parts ws = filter (\<lambda>w. w \<noteq> [] \<and> w \<noteq> ''.'') ws"

definition last_part :: "string list \<Rightarrow> string" where
  "last_part ws = (case real_parts ws of [] \<Rightarrow> [] | us \<Rightarrow> last us)"

text \<open>\<open>Path(v).name\<close> on a POSIX host.\<close>

definition posix_name :: "string \<Rightarrow> string" where
  "posix_name v = last_part (split_on CHR ''/'' v)"

abbreviation backslash :: char where
  "backslash \<equiv> CHR 0x5C"

definition after_char :: "char \<Rightarrow> string \<Rightarrow> string" where
  "after_char d s = (case find_char d s of None \<Rightarrow> [] | Some i \<Rightarrow> drop (Suc i) s)"

text \<open>
  \<open>PureWindowsPath(v).name\<close>: both slashes separate, a drive (a character and a colon, or
  \<open>\\server\share\<close>) is not part of the name (CPython 3.12).
\<close>

definition windows_tail :: "string \<Rightarrow> string" where
  "windows_tail p =
     (if starts_with [backslash, backslash] p
      then after_char backslash (after_char backslash (drop 2 p))
      else if 2 \<le> length p \<and> p ! 1 = CHR '':'' then drop 2 p
      else p)"

definition windows_name :: "string \<Rightarrow> string" where
  "windows_name v =
     last_part (split_on backslash
       (windows_tail (map (\<lambda>c. if c = CHR ''/'' then backslash else c) v)))"

definition reserved_names :: "string list" where
  "reserved_names =
     [''CON'', ''PRN'', ''AUX'', ''NUL'', ''CONIN$'', ''CONOUT$'']
     @ map (\<lambda>c. ''COM'' @ [c]) (''123456789'' @ [CHR 0xB9, CHR 0xB2, CHR 0xB3])
     @ map (\<lambda>c. ''LPT'' @ [c]) (''123456789'' @ [CHR 0xB9, CHR 0xB2, CHR 0xB3])"

definition before_char :: "char \<Rightarrow> string \<Rightarrow> string" where
  "before_char d s = takeWhile (\<lambda>c. c \<noteq> d) s"

text \<open>\<open>PureWindowsPath(name).is_reserved()\<close> for a name without a server drive.\<close>

definition is_reserved_filename :: "string \<Rightarrow> bool" where
  "is_reserved_filename name =
     (map ascii_upper
        (rstrip '' '' (before_char CHR '':'' (before_char CHR ''.'' (windows_name name))))
      \<in> set reserved_names)"

definition invalid_filename :: exn where
  "invalid_filename = ProtocolError ''Invalid filename''"

definition sanitize_filename :: "string \<Rightarrow> string result" where
  "sanitize_filename v =
     (if v = [] \<or> 255 < length v \<or> 255 < utf8_length v \<or> \<not> list_all is_printable v
         \<or> v \<noteq> rstrip '' .'' v
      then Inl invalid_filename
      else if posix_name v \<noteq> v \<or> windows_name v \<noteq> v \<or> is_reserved_filename v
              \<or> v = ''.'' \<or> v = ''..''
      then Inl invalid_filename
      else Inr v)"

definition validate_filename :: "json \<Rightarrow> string result" where
  "validate_filename v = (case v of JStr s \<Rightarrow> sanitize_filename s | _ \<Rightarrow> Inl invalid_filename)"

text \<open>A name that is safe to join to a directory on any platform.\<close>

definition safe_name :: "string \<Rightarrow> bool" where
  "safe_name v \<longleftrightarrow>
     v \<noteq> [] \<and> utf8_length v \<le> 255 \<and> list_all is_printable v
     \<and> CHR ''/'' \<notin> set v \<and> backslash \<notin> set v \<and> CHR 0x00 \<notin> set v
     \<and> v \<noteq> ''.'' \<and> v \<noteq> ''..'' \<and> last v \<noteq> CHR ''.'' \<and> last v \<noteq> CHR '' ''
     \<and> \<not> (2 \<le> length v \<and> v ! 1 = CHR '':'')
     \<and> map ascii_upper (rstrip '' '' (before_char CHR '':'' (before_char CHR ''.'' v))) \<notin> set reserved_names"

lemma last_part_in: "last_part ws \<noteq> [] \<Longrightarrow> last_part ws \<in> set ws"
proof -
  assume ne: "last_part ws \<noteq> []"
  then have "real_parts ws \<noteq> []" and "last_part ws = last (real_parts ws)"
    by (auto simp: last_part_def split: list.splits)
  then have "last_part ws \<in> set (real_parts ws)" by simp
  then show ?thesis by (simp add: real_parts_def)
qed

lemma posix_name_plain: "posix_name v = v \<Longrightarrow> v \<noteq> [] \<Longrightarrow> CHR ''/'' \<notin> set v"
  using last_part_in [of "split_on CHR ''/'' v"] split_on_parts by (fastforce simp: posix_name_def)

lemma windows_name_plain: "windows_name v = v \<Longrightarrow> v \<noteq> [] \<Longrightarrow> backslash \<notin> set v"
  by (metis last_part_in split_on_parts windows_name_def)

lemma length_part: "w \<in> set (split_on d s) \<Longrightarrow> length w \<le> length s"
proof (induction s arbitrary: w)
  case (Cons c cs)
  have hd_in: "hd (split_on d cs) \<in> set (split_on d cs)" by simp
  have le: "length (hd (split_on d cs)) \<le> length cs" by (rule Cons.IH [OF hd_in])
  show ?case
  proof (cases "split_on d cs")
    case (Cons u us)
    then have "length v \<le> length cs" if "v \<in> set (u # us)" for v
      using that Cons.IH by auto
    with Cons Cons.prems show ?thesis by (fastforce split: if_splits)
  qed simp
qed simp

lemma windows_name_no_drive:
  assumes eq: "windows_name v = v" and ne: "v \<noteq> []"
  shows "\<not> (2 \<le> length v \<and> v ! 1 = CHR '':'')"
proof
  assume drive: "2 \<le> length v \<and> v ! 1 = CHR '':''"
  let ?p = "map (\<lambda>c. if c = CHR ''/'' then backslash else c) v"
  have "\<not> starts_with [backslash, backslash] ?p"
    using drive by (cases v; cases "tl v") auto
  moreover have "2 \<le> length ?p \<and> ?p ! 1 = CHR '':''"
    using drive by simp
  ultimately have "windows_tail ?p = drop 2 ?p"
    by (simp add: windows_tail_def)
  then have "v \<in> set (split_on backslash (drop 2 ?p))"
    using last_part_in [of "split_on backslash (drop 2 ?p)"] eq ne by (simp add: windows_name_def)
  then have "length v \<le> length (drop 2 ?p)" by (rule length_part)
  with drive show False by auto
qed

lemma sanitize_filename_safe:
  assumes "sanitize_filename v = Inr w"
  shows "w = v \<and> safe_name v"
proof -
  have v: "v \<noteq> []" "utf8_length v \<le> 255" "list_all is_printable v" "v = rstrip '' .'' v"
    "posix_name v = v" "windows_name v = v" "\<not> is_reserved_filename v" "v \<noteq> ''.''" "v \<noteq> ''..''"
    and w: "w = v"
    using assms by (auto simp: sanitize_filename_def split: if_splits)
  have "CHR 0x00 \<notin> set v"
    using v(3) by (auto simp: list_all_iff is_printable_def dest: bspec)
  moreover have "last v \<notin> set '' .''"
    using v(1,4) rstrip_id [of "'' .''" v] by auto
  ultimately show ?thesis
    using v w posix_name_plain windows_name_plain windows_name_no_drive
    by (auto simp: safe_name_def is_reserved_filename_def)
qed

section \<open>Identifiers and digests\<close>

definition transfer_id_ok :: "string \<Rightarrow> bool" where
  "transfer_id_ok s \<longleftrightarrow> length s = 32 \<and> list_all is_lower_hex s"

definition file_id_ok :: "string \<Rightarrow> bool" where
  "file_id_ok s \<longleftrightarrow>
     1 \<le> length s \<and> length s \<le> 64
     \<and> list_all (\<lambda>c. is_alnum_ascii c \<or> c = CHR ''_'' \<or> c = CHR ''-'') s"

definition digest_ok :: "string \<Rightarrow> bool" where
  "digest_ok s \<longleftrightarrow> length s = 64 \<and> list_all is_lower_hex s"

definition validate_transfer_id :: "json \<Rightarrow> string result" where
  "validate_transfer_id v =
     (case v of
        JStr s \<Rightarrow> if transfer_id_ok s then Inr s else Inl (ProtocolError ''Invalid transfer ID'')
      | _ \<Rightarrow> Inl (ProtocolError ''Invalid transfer ID''))"

lemma validate_transfer_id_eq [simp]:
  "validate_transfer_id v = Inr s \<longleftrightarrow> v = JStr s \<and> transfer_id_ok s"
  by (auto simp: validate_transfer_id_def split: json.splits)

lemma validate_transfer_id_str [simp]:
  "transfer_id_ok s \<Longrightarrow> validate_transfer_id (JStr s) = Inr s"
  by simp

section \<open>Chunk headers\<close>

definition chunk_error :: exn where
  "chunk_error = ProtocolError ''Invalid chunk metadata''"

definition validate_chunk_control ::
  "json \<Rightarrow> string \<Rightarrow> string \<Rightarrow> nat \<Rightarrow> nat \<Rightarrow> nat \<Rightarrow> nat result" where
  "validate_chunk_control payload tid fid expected_index expected_offset remaining =
     bind_result (as_dict chunk_error payload) (\<lambda>d.
     bind_result (ensure chunk_error (oget d ''type'' = JStr ''chunk'')) (\<lambda>_.
     bind_result (validate_transfer_id (JStr tid)) (\<lambda>_.
     bind_result (ensure (ProtocolError ''Invalid file ID'') (file_id_ok fid)) (\<lambda>_.
     bind_result (ensure chunk_error
                    (oget d ''transfer_id'' = JStr tid \<and> oget d ''file_id'' = JStr fid)) (\<lambda>_.
     bind_result (as_int chunk_error (oget d ''index'')) (\<lambda>index.
     bind_result (as_int chunk_error (oget d ''offset'')) (\<lambda>offset.
     bind_result (as_int chunk_error (oget d ''size'')) (\<lambda>sz.
     if index < 0 \<or> index \<noteq> int expected_index \<or> offset < 0 \<or> offset \<noteq> int expected_offset
        \<or> \<not> (0 < sz \<and> sz \<le> int (min CHUNK_SIZE remaining))
     then Inl chunk_error else Inr (nat sz)))))))))"

text \<open>The header the sender builds for a chunk.\<close>

definition chunk_header :: "string \<Rightarrow> string \<Rightarrow> nat \<Rightarrow> nat \<Rightarrow> nat \<Rightarrow> json" where
  "chunk_header tid fid index offset sz =
     JObj [(''type'', JStr ''chunk''), (''transfer_id'', JStr tid), (''file_id'', JStr fid),
           (''index'', JInt (int index)), (''offset'', JInt (int offset)), (''size'', JInt (int sz))]"

lemma validate_chunk_header:
  "transfer_id_ok tid \<Longrightarrow> file_id_ok fid \<Longrightarrow> 0 < n \<Longrightarrow> n \<le> CHUNK_SIZE \<Longrightarrow> n \<le> remaining \<Longrightarrow>
   validate_chunk_control (chunk_header tid fid i off n) tid fid i off remaining = Inr n"
  by (simp add: validate_chunk_control_def chunk_header_def)

lemma validate_chunk_sound:
  assumes "validate_chunk_control payload tid fid i off remaining = Inr n"
  shows "0 < n \<and> n \<le> CHUNK_SIZE \<and> n \<le> remaining"
    and "ojget payload ''index'' = JInt (int i) \<and> ojget payload ''offset'' = JInt (int off)
         \<and> ojget payload ''size'' = JInt (int n) \<and> ojget payload ''transfer_id'' = JStr tid
         \<and> ojget payload ''file_id'' = JStr fid \<and> ojget payload ''type'' = JStr ''chunk''"
  using assms
  by (auto simp: validate_chunk_control_def ojget_def split: if_splits)

section \<open>Offers\<close>

record incoming_file =
  ifile_id :: string
  ifile_name :: string
  ifile_size :: nat
  ifile_sha256 :: string

record transfer_offer =
  offer_id :: string
  offer_files :: "incoming_file list"
  offer_total :: nat
  offer_message :: "string option"

definition MAX_TRANSFER_MESSAGE_LENGTH :: nat where
  "MAX_TRANSFER_MESSAGE_LENGTH = 4096"

text \<open>One entry of the offer, given the identifiers seen before it.\<close>

definition validate_file :: "string list \<Rightarrow> json \<Rightarrow> incoming_file result" where
  "validate_file seen raw =
     bind_result (as_dict (ProtocolError ''Invalid file metadata'') raw) (\<lambda>d.
     bind_result (as_str (ProtocolError ''Invalid file ID'') (oget d ''file_id'')) (\<lambda>fid.
     bind_result (ensure (ProtocolError ''Invalid file ID'') (file_id_ok fid \<and> fid \<notin> set seen)) (\<lambda>_.
     bind_result (validate_filename (oget d ''name'')) (\<lambda>name.
     bind_result (as_int (ProtocolError ''Invalid file size'') (oget d ''size'')) (\<lambda>sz.
     bind_result (ensure (ProtocolError ''Invalid file size'')
                    (0 \<le> sz \<and> sz \<le> int MAX_FILE_SIZE)) (\<lambda>_.
     bind_result (as_str (ProtocolError ''Invalid SHA-256 digest'') (oget d ''sha256'')) (\<lambda>digest.
     bind_result (ensure (ProtocolError ''Invalid SHA-256 digest'') (digest_ok digest)) (\<lambda>_.
     Inr \<lparr>ifile_id = fid, ifile_name = name, ifile_size = nat sz,
          ifile_sha256 = digest\<rparr>))))))))"

text \<open>The loop over \<open>raw_files\<close>: identifiers seen so far and the running total.\<close>

fun validate_files :: "string list \<Rightarrow> nat \<Rightarrow> json list \<Rightarrow> (incoming_file list \<times> nat) result" where
  "validate_files seen tot [] = Inr ([], tot)"
| "validate_files seen tot (raw # raws) =
     bind_result (validate_file seen raw) (\<lambda>f.
       let tot' = tot + ifile_size f
       in if MAX_SESSION_SIZE < tot'
          then Inl (ProtocolError ''Transfer session exceeds size limit'')
          else bind_result (validate_files (ifile_id f # seen) tot' raws) (\<lambda>(fs, t). Inr (f # fs, t)))"

definition validate_offer :: "json \<Rightarrow> transfer_offer result" where
  "validate_offer payload =
     bind_result (as_dict (ProtocolError ''Expected transfer offer'') payload) (\<lambda>d.
     bind_result (ensure (ProtocolError ''Expected transfer offer'')
                    (oget d ''type'' = JStr ''transfer_offer'')) (\<lambda>_.
     bind_result (ensure (ProtocolError ''Protocol version mismatch'')
                    (json_eq (oget d ''version'') (JInt PROTOCOL_VERSION))) (\<lambda>_.
     bind_result (validate_transfer_id (oget d ''transfer_id'')) (\<lambda>tid.
     bind_result (as_list (ProtocolError ''Invalid file count'') (oget d ''files'')) (\<lambda>raws.
     bind_result (as_int (ProtocolError ''Invalid file count'') (oget d ''count'')) (\<lambda>cnt.
     bind_result (ensure (ProtocolError ''Invalid file count'')
                    (cnt = int (length raws) \<and> 1 \<le> cnt \<and> cnt \<le> int MAX_FILES_PER_SESSION)) (\<lambda>_.
     bind_result (validate_files [] 0 raws) (\<lambda>(files, computed).
     bind_result (ensure (ProtocolError ''Invalid total transfer size'')
                    (oget d ''total_size'' = JInt (int computed))) (\<lambda>_.
     bind_result (as_opt_str (ProtocolError ''Invalid transfer message'') (oget d ''message'')) (\<lambda>msg.
     bind_result (ensure (ProtocolError ''Invalid transfer message'')
                    (case msg of None \<Rightarrow> True | Some m \<Rightarrow> length m \<le> MAX_TRANSFER_MESSAGE_LENGTH)) (\<lambda>_.
     Inr \<lparr>offer_id = tid, offer_files = files, offer_total = computed, offer_message = msg\<rparr>)))))))))))"

definition file_ok :: "incoming_file \<Rightarrow> bool" where
  "file_ok f \<longleftrightarrow>
     file_id_ok (ifile_id f) \<and> sanitize_filename (ifile_name f) = Inr (ifile_name f)
     \<and> ifile_size f \<le> MAX_FILE_SIZE \<and> digest_ok (ifile_sha256 f)"

definition offer_wf :: "transfer_offer \<Rightarrow> bool" where
  "offer_wf f \<longleftrightarrow>
     transfer_id_ok (offer_id f)
     \<and> offer_files f \<noteq> [] \<and> length (offer_files f) \<le> MAX_FILES_PER_SESSION
     \<and> distinct (map ifile_id (offer_files f)) \<and> list_all file_ok (offer_files f)
     \<and> offer_total f = sum_list (map ifile_size (offer_files f)) \<and> offer_total f \<le> MAX_SESSION_SIZE
     \<and> (case offer_message f of None \<Rightarrow> True | Some m \<Rightarrow> length m \<le> MAX_TRANSFER_MESSAGE_LENGTH)"

lemma validate_filename_str: "validate_filename v = Inr w \<Longrightarrow> sanitize_filename w = Inr w"
  by (auto simp: validate_filename_def dest: sanitize_filename_safe split: json.splits)

lemma offer_names_safe: "offer_wf g \<Longrightarrow> \<forall>f \<in> set (offer_files g). safe_name (ifile_name f)"
  by (auto simp: offer_wf_def file_ok_def list_all_iff dest: sanitize_filename_safe)

lemma validate_file_sound:
  "validate_file seen raw = Inr f \<Longrightarrow> file_ok f \<and> ifile_id f \<notin> set seen"
  by (auto simp: validate_file_def file_ok_def dest: validate_filename_str)

lemma validate_files_sound:
  "validate_files seen tot raws = Inr (fs, t) \<Longrightarrow>
   length fs = length raws \<and> list_all file_ok fs \<and> distinct (map ifile_id fs)
   \<and> ifile_id ` set fs \<inter> set seen = {} \<and> t = tot + sum_list (map ifile_size fs)
   \<and> (raws \<noteq> [] \<longrightarrow> t \<le> MAX_SESSION_SIZE)"
proof (induction raws arbitrary: seen tot fs t)
  case (Cons raw raws)
  from Cons.prems obtain f gs where f: "validate_file seen raw = Inr f"
    and le: "\<not> MAX_SESSION_SIZE < tot + ifile_size f"
    and rest: "validate_files (ifile_id f # seen) (tot + ifile_size f) raws = Inr (gs, t)"
    and fs: "fs = f # gs"
    by (auto simp: Let_def split: if_splits)
  from Cons.IH [OF rest] validate_file_sound [OF f] show ?case
    using fs le by (cases raws) auto
qed simp

lemma validate_offer_sound: "validate_offer payload = Inr f \<Longrightarrow> offer_wf f"
  by (auto simp: validate_offer_def offer_wf_def Let_def MAX_FILES_PER_SESSION_def
      dest!: validate_files_sound)

text \<open>The offer frame of the sender (\<open>FileClient._send_session\<close>); an empty message is left out.\<close>

definition file_json :: "incoming_file \<Rightarrow> json" where
  "file_json f =
     JObj [(''file_id'', JStr (ifile_id f)), (''name'', JStr (ifile_name f)),
           (''size'', JInt (int (ifile_size f))), (''sha256'', JStr (ifile_sha256 f))]"

definition offer_json :: "transfer_offer \<Rightarrow> json" where
  "offer_json f =
     JObj ([(''type'', JStr ''transfer_offer''), (''version'', JInt PROTOCOL_VERSION),
            (''transfer_id'', JStr (offer_id f)), (''count'', JInt (int (length (offer_files f)))),
            (''total_size'', JInt (int (offer_total f))),
            (''files'', JArr (map file_json (offer_files f)))]
           @ (case offer_message f of
                None \<Rightarrow> [] | Some m \<Rightarrow> if m = [] then [] else [(''message'', JStr m)]))"

lemma validate_file_json:
  "file_ok f \<Longrightarrow> ifile_id f \<notin> set seen \<Longrightarrow> validate_file seen (file_json f) = Inr f"
  by (simp add: validate_file_def file_json_def file_ok_def validate_filename_def)

lemma validate_files_json:
  "list_all file_ok fs \<Longrightarrow> distinct (map ifile_id fs) \<Longrightarrow> ifile_id ` set fs \<inter> set seen = {} \<Longrightarrow>
   tot + sum_list (map ifile_size fs) \<le> MAX_SESSION_SIZE \<Longrightarrow>
   validate_files seen tot (map file_json fs) = Inr (fs, tot + sum_list (map ifile_size fs))"
proof (induction fs arbitrary: seen tot)
  case (Cons f fs)
  then have "validate_files (ifile_id f # seen) (tot + ifile_size f) (map file_json fs)
      = Inr (fs, tot + ifile_size f + sum_list (map ifile_size fs))"
    by (intro Cons.IH) auto
  with Cons.prems show ?case by (simp add: validate_file_json Let_def add.assoc)
qed simp

definition offer_sendable :: "transfer_offer \<Rightarrow> bool" where
  "offer_sendable f \<longleftrightarrow> offer_wf f \<and> offer_message f \<noteq> Some []"

lemma validate_offer_json:
  assumes "offer_sendable f"
  shows "validate_offer (offer_json f) = Inr f"
proof -
  have "validate_files [] 0 (map file_json (offer_files f)) = Inr (offer_files f, offer_total f)"
    using assms validate_files_json [of "offer_files f" "[]" 0]
    by (simp add: offer_sendable_def offer_wf_def)
  moreover have "1 \<le> length (offer_files f)"
    using assms by (cases "offer_files f") (auto simp: offer_sendable_def offer_wf_def)
  ultimately show ?thesis
    using assms
    by (cases "offer_message f")
       (auto simp: validate_offer_def offer_json_def offer_sendable_def offer_wf_def split: list.splits)
qed

interpretation offer_codec: codec offer_json validate_offer offer_sendable
  by unfold_locales (rule validate_offer_json)

section \<open>Responses\<close>

definition build_response :: "string \<Rightarrow> bool \<Rightarrow> string option \<Rightarrow> json result" where
  "build_response tid accepted reason =
     bind_result (validate_transfer_id (JStr tid)) (\<lambda>t.
       Inr (JObj ([(''type'', JStr ''transfer_response''), (''transfer_id'', JStr t),
                   (''accepted'', JBool accepted)]
                  @ (case reason of
                       None \<Rightarrow> [] | Some r \<Rightarrow> if r = [] then [] else [(''reason'', JStr (take 512 r))]))))"

definition validate_response :: "json \<Rightarrow> string \<Rightarrow> (bool \<times> string option) result" where
  "validate_response payload tid =
     bind_result (as_dict (ProtocolError ''Invalid transfer response'') payload) (\<lambda>d.
     bind_result (ensure (ProtocolError ''Invalid transfer response'')
                    (oget d ''type'' = JStr ''transfer_response'')) (\<lambda>_.
     bind_result (validate_transfer_id (JStr tid)) (\<lambda>t.
     bind_result (ensure (ProtocolError ''Transfer response ID mismatch'')
                    (oget d ''transfer_id'' = JStr t)) (\<lambda>_.
     bind_result (as_bool (ProtocolError ''Invalid transfer response'') (oget d ''accepted'')) (\<lambda>acc.
     bind_result (as_opt_str (ProtocolError ''Invalid transfer response reason'') (oget d ''reason'')) (\<lambda>reason.
     bind_result (ensure (ProtocolError ''Invalid transfer response reason'')
                    (case reason of None \<Rightarrow> True | Some r \<Rightarrow> length r \<le> 512)) (\<lambda>_.
     Inr (acc, reason))))))))"

lemma response_roundtrip:
  "transfer_id_ok tid \<Longrightarrow>
   bind_result (build_response tid acc reason) (\<lambda>r. validate_response r tid) =
   Inr (acc, case reason of None \<Rightarrow> None | Some r \<Rightarrow> if r = [] then None else Some (take 512 r))"
  by (cases reason) (simp_all add: build_response_def validate_response_def)

lemma validate_response_bounds:
  "validate_response payload tid = Inr (acc, Some r) \<Longrightarrow> length r \<le> 512"
  by (auto simp: validate_response_def)

end
