(* ===== verification/ResumeStore.thy ===== *)
theory ResumeStore
  imports Protocol Identity
begin

text \<open>
  \<open>core/resume.py\<close>: partial files, their metadata, and the collision-safe exposure of a verified file.
  The file system is the receive directory (its files by name), the partial files by transfer and
  file identifier, and one metadata document per transfer. Other processes act through explicit
  arguments: the files they create between two steps of a commit. Names longer than 255 bytes are
  refused by the file system, as on the usual ones.
\<close>

section \<open>State\<close>

record fsys =
  fs_root :: string
  fs_files :: "(string, bytes) dict"
  fs_parts :: "(string \<times> string, bytes) dict"
  fs_metas :: "(string, json file_read) dict"

definition write_file :: "string \<Rightarrow> bytes \<Rightarrow> fsys \<Rightarrow> fsys" where
  "write_file name bs fs = fs\<lparr>fs_files := dict_set name bs (fs_files fs)\<rparr>"

definition remove_file :: "string \<Rightarrow> fsys \<Rightarrow> fsys" where
  "remove_file name fs = fs\<lparr>fs_files := dict_pop name (fs_files fs)\<rparr>"

definition write_part :: "string \<Rightarrow> string \<Rightarrow> bytes \<Rightarrow> fsys \<Rightarrow> fsys" where
  "write_part tid fid bs fs = fs\<lparr>fs_parts := dict_set (tid, fid) bs (fs_parts fs)\<rparr>"

definition remove_part :: "string \<Rightarrow> string \<Rightarrow> fsys \<Rightarrow> fsys" where
  "remove_part tid fid fs = fs\<lparr>fs_parts := dict_pop (tid, fid) (fs_parts fs)\<rparr>"

definition part_of :: "fsys \<Rightarrow> string \<Rightarrow> string \<Rightarrow> bytes option" where
  "part_of fs tid fid = dict_get (fs_parts fs) (tid, fid)"

definition file_at :: "fsys \<Rightarrow> string \<Rightarrow> bytes option" where
  "file_at fs name = dict_get (fs_files fs) name"

named_theorems fs_simps \<open>effects of the file-system operations\<close>

lemma fs_frame [simp, fs_simps]:
  "file_at (write_file n bs fs) m = (if m = n then Some bs else file_at fs m)"
  "file_at (remove_file n fs) m = (if m = n then None else file_at fs m)"
  "file_at (write_part t f bs fs) m = file_at fs m"
  "file_at (remove_part t f fs) m = file_at fs m"
  "part_of (write_part t f bs fs) t' f' = (if t' = t \<and> f' = f then Some bs else part_of fs t' f')"
  "part_of (remove_part t f fs) t' f' = (if t' = t \<and> f' = f then None else part_of fs t' f')"
  "part_of (write_file n bs fs) t' f' = part_of fs t' f'"
  "part_of (remove_file n fs) t' f' = part_of fs t' f'"
  "fs_metas (write_file n bs fs) = fs_metas fs" "fs_metas (remove_file n fs) = fs_metas fs"
  "fs_metas (write_part t f bs fs) = fs_metas fs" "fs_metas (remove_part t f fs) = fs_metas fs"
  "fs_root (write_file n bs fs) = fs_root fs" "fs_root (remove_file n fs) = fs_root fs"
  "fs_root (write_part t f bs fs) = fs_root fs" "fs_root (remove_part t f fs) = fs_root fs"
  by (auto simp: file_at_def part_of_def write_file_def remove_file_def write_part_def remove_part_def)

section \<open>Collision-free destinations\<close>

text \<open>\<open>"".join(Path(name).suffixes)\<close> and the stem before it.\<close>

definition path_suffix :: "string \<Rightarrow> string" where
  "path_suffix name =
     (if ends_with name CHR ''.'' then []
      else dropWhile (\<lambda>c. c \<noteq> CHR ''.'') (dropWhile (\<lambda>c. c = CHR ''.'') name))"

definition path_stem :: "string \<Rightarrow> string" where
  "path_stem name = take (length name - length (path_suffix name)) name"

definition candidate :: "string \<Rightarrow> nat \<Rightarrow> string" where
  "candidate name i =
     (if i = 0 then name
      else path_stem name @ '' ('' @ show_nat i @ '')'' @ path_suffix name)"

lemma stem_suffix: "path_stem name @ path_suffix name = name"
proof -
  let ?body = "dropWhile (\<lambda>c. c = CHR ''.'') name"
  have "suffix ?body name" "suffix (dropWhile (\<lambda>c. c \<noteq> CHR ''.'') ?body) ?body"
    by (rule suffix_dropWhile)+
  then have "suffix (path_suffix name) name"
    by (auto simp: path_suffix_def intro: suffix_order.order_trans)
  then obtain us where "name = us @ path_suffix name" by (auto simp: suffix_def)
  then have "take (length name - length (path_suffix name)) name = us"
    by (metis append_eq_conv_conj diff_add_inverse2 length_append)
  with \<open>name = us @ path_suffix name\<close> show ?thesis by (simp add: path_stem_def)
qed

lemma length_candidate: "length (candidate name i) = length name + (if i = 0 then 0 else 3 + length (show_nat i))"
  using arg_cong [OF stem_suffix [of name], of length] by (simp add: candidate_def)

lemma candidate_inj: "candidate name i = candidate name j \<longleftrightarrow> i = j"
proof
  assume eq: "candidate name i = candidate name j"
  from arg_cong [OF eq, of length] have "i = 0 \<longleftrightarrow> j = 0"
    by (auto simp: length_candidate split: if_splits)
  with eq show "i = j"
    by (auto simp: candidate_def show_nat_inj split: if_splits)
qed simp

text \<open>The names of the directory that the search may still meet.\<close>

definition ahead :: "string \<Rightarrow> nat \<Rightarrow> string list \<Rightarrow> nat set" where
  "ahead name i names = {j. i \<le> j \<and> candidate name j \<in> set names}"

lemma finite_ahead: "finite (ahead name i names)"
proof -
  have "inj (candidate name)" by (simp add: inj_def candidate_inj)
  then have "finite (candidate name -` set names)" by (simp add: finite_vimageI)
  then show ?thesis by (rule finite_subset [rotated]) (auto simp: ahead_def)
qed

lemma ahead_less:
  "candidate name i \<in> set names \<Longrightarrow> card (ahead name (Suc i) names) < card (ahead name i names)"
proof -
  assume taken: "candidate name i \<in> set names"
  then have "ahead name (Suc i) names = ahead name i names - {i}" by (auto simp: ahead_def)
  moreover have "i \<in> ahead name i names" using taken by (simp add: ahead_def)
  ultimately show ?thesis by (metis card_Diff1_less finite_ahead)
qed

definition name_too_long :: exn where
  "name_too_long = OSError ''File name too long''"

text \<open>The loop of \<open>resolve_destination_collision\<close>; it ends because the directory is finite.\<close>

function first_free :: "string list \<Rightarrow> string \<Rightarrow> nat \<Rightarrow> string result" where
  "first_free names name i =
     (if 255 < utf8_length (candidate name i) then Inl name_too_long
      else if candidate name i \<in> set names then first_free names name (Suc i)
      else Inr (candidate name i))"
  by pat_completeness auto
termination
  by (relation "measure (\<lambda>(names, name, i). card (ahead name i names))") (auto simp: ahead_less)

declare first_free.simps [simp del]

definition resolve_destination :: "fsys \<Rightarrow> string \<Rightarrow> string result" where
  "resolve_destination fs name =
     (case validate_filename (JStr name) of
        Inl _ \<Rightarrow> Inl (ValueError ''Invalid destination filename'')
      | Inr safe \<Rightarrow> first_free (map fst (fs_files fs)) safe 0)"

lemma first_free_sound:
  "first_free names name i = Inr dest \<Longrightarrow>
   dest \<notin> set names \<and> (\<exists>j\<ge>i. dest = candidate name j \<and> (\<forall>k. i \<le> k \<and> k < j \<longrightarrow> candidate name k \<in> set names))"
proof (induction names name i rule: first_free.induct)
  case (1 names name i)
  show ?case
  proof (cases "candidate name i \<in> set names")
    case True
    with 1 obtain j where "Suc i \<le> j" "dest = candidate name j" "dest \<notin> set names"
      "\<forall>k. Suc i \<le> k \<and> k < j \<longrightarrow> candidate name k \<in> set names"
      by (subst (asm) first_free.simps) (auto split: if_splits)
    then have "candidate name k \<in> set names" if "i \<le> k" "k < j" for k
      using that True by (cases "k = i") auto
    with \<open>Suc i \<le> j\<close> \<open>dest = candidate name j\<close> \<open>dest \<notin> set names\<close> show ?thesis
      by (intro conjI exI [of _ j]) auto
  next
    case False
    with 1(2) show ?thesis by (subst (asm) first_free.simps) (auto split: if_splits)
  qed
qed

lemma resolve_fresh: "resolve_destination fs name = Inr dest \<Longrightarrow> file_at fs dest = None"
proof -
  assume "resolve_destination fs name = Inr dest"
  then obtain safe where "first_free (map fst (fs_files fs)) safe 0 = Inr dest"
    by (auto simp: resolve_destination_def split: sum.splits)
  from first_free_sound [OF this] show ?thesis by (simp add: file_at_def map_of_eq_None_iff)
qed

text \<open>While no candidate is too long, the search succeeds.\<close>

lemma first_free_succeeds:
  "\<forall>j\<le>length names. utf8_length (candidate name j) \<le> 255 \<Longrightarrow>
   card (ahead name i names) + i \<le> length names \<Longrightarrow> \<exists>dest. first_free names name i = Inr dest"
proof (induction names name i rule: first_free.induct)
  case (1 names name i)
  then have short: "utf8_length (candidate name i) \<le> 255" by simp
  show ?case
  proof (cases "candidate name i \<in> set names")
    case True
    then have "\<exists>dest. first_free names name (Suc i) = Inr dest"
      using 1 short ahead_less [OF True] by simp
    with True short show ?thesis by (subst first_free.simps) simp
  next
    case False
    with short show ?thesis by (subst first_free.simps) simp
  qed
qed

lemma card_ahead: "card (ahead name 0 names) \<le> length names"
proof -
  have "inj (candidate name)" by (simp add: inj_def candidate_inj)
  then have "card (ahead name 0 names) = card (candidate name ` ahead name 0 names)"
    by (metis card_image inj_on_subset subset_UNIV)
  also have "\<dots> \<le> card (set names)" by (rule card_mono) (auto simp: ahead_def)
  also have "\<dots> \<le> length names" by (rule card_length)
  finally show ?thesis .
qed

lemma resolve_total:
  assumes "sanitize_filename name = Inr name"
    and "\<forall>j\<le>length (fs_files fs). utf8_length (candidate name j) \<le> 255"
  shows "\<exists>dest. resolve_destination fs name = Inr dest"
  using assms first_free_succeeds [of "map fst (fs_files fs)" name 0]
    card_ahead [of name "map fst (fs_files fs)"]
  by (auto simp: resolve_destination_def validate_filename_def)

section \<open>Exposing a verified file\<close>

text \<open>
  The environment of one commit: whether the file system has hard links, the files other processes
  create between finding a name and taking it (one list per attempt), the temporary name of the
  fallback, and what happens to the reservation before it is replaced: nothing; another process puts a
  file of its own there, before \<open>destination.stat()\<close> or between it and \<open>os.replace\<close>; \<open>os.replace\<close> (or \<open>stat\<close>)
  fails and the reservation is removed; or \<open>fstat\<close> fails, or removing it fails too, and it stays.
\<close>

datatype replace_outcome =
    Undisturbed
  | Stolen bytes
  | Stolen_late bytes
  | ReplaceFails exn
  | Stuck exn

record commit_env =
  ce_links :: bool
  ce_races :: "(string \<times> bytes) list list"
  ce_temp :: string
  ce_replace :: replace_outcome

definition interfere :: "(string \<times> bytes) list \<Rightarrow> fsys \<Rightarrow> fsys" where
  "interfere batch fs = fold (\<lambda>(n, bs). write_file n bs) batch fs"

text \<open>
  The two \<open>while True\<close> loops: find a free name, then create it exclusively (\<open>os.link\<close> with the content,
  \<open>O_EXCL\<close> with none) and start over when another process was faster.
\<close>

fun claim_name :: "(string \<times> bytes) list list \<Rightarrow> string \<Rightarrow> bytes \<Rightarrow> (fsys \<Rightarrow> string result \<times> fsys)" where
  "claim_name [] name content fs =
     (case resolve_destination fs name of
        Inl e \<Rightarrow> (Inl e, fs) | Inr dest \<Rightarrow> (Inr dest, write_file dest content fs))"
| "claim_name (batch # races) name content fs =
     (case resolve_destination fs name of
        Inl e \<Rightarrow> (Inl e, fs)
      | Inr dest \<Rightarrow>
          (let fs' = interfere batch fs
           in if file_at fs' dest = None then (Inr dest, write_file dest content fs')
              else claim_name races name content fs'))"

definition commit_by_copy :: "commit_env \<Rightarrow> string \<Rightarrow> bytes \<Rightarrow> fsys \<Rightarrow> string result \<times> fsys" where
  "commit_by_copy env name content fs =
     (case claim_name (ce_races env) name [] (write_file (ce_temp env) content fs) of
        (Inl e, fs1) \<Rightarrow> (Inl e, remove_file (ce_temp env) fs1)
      | (Inr dest, fs1) \<Rightarrow>
          (case ce_replace env of
             Undisturbed \<Rightarrow> (Inr dest, write_file dest content (remove_file (ce_temp env) fs1))
           | Stolen other \<Rightarrow> (Inl FileExistsError, remove_file (ce_temp env) (write_file dest other fs1))
           | Stolen_late other \<Rightarrow>
               (Inr dest, write_file dest content (remove_file (ce_temp env) (write_file dest other fs1)))
           | Stuck e \<Rightarrow> (Inl e, remove_file (ce_temp env) fs1)
           | ReplaceFails e \<Rightarrow> (Inl e, remove_file (ce_temp env) (remove_file dest fs1))))"

definition commit_partial_file ::
  "commit_env \<Rightarrow> string \<Rightarrow> string \<Rightarrow> string \<Rightarrow> fsys \<Rightarrow> string result \<times> fsys" where
  "commit_partial_file env tid fid name fs =
     (case part_of fs tid fid of
        None \<Rightarrow> (Inl (case resolve_destination fs name of
                         Inl e \<Rightarrow> e | Inr _ \<Rightarrow> OSError ''No such file or directory''), fs)
      | Some content \<Rightarrow>
          (let (r, fs') =
             (if ce_links env then claim_name (ce_races env) name content fs
              else case resolve_destination fs name of
                     Inl e \<Rightarrow> (Inl e, fs) | Inr _ \<Rightarrow> commit_by_copy env name content fs)
           in (r, case r of Inl _ \<Rightarrow> fs' | Inr _ \<Rightarrow> remove_part tid fid fs')))"

lemma file_at_interfere:
  "file_at (interfere batch fs) n =
     (case dict_get (rev batch) n of Some bs \<Rightarrow> Some bs | None \<Rightarrow> file_at fs n)"
proof (induction batch arbitrary: fs)
  case (Cons p batch)
  obtain m bs where "p = (m, bs)" by force
  with Cons show ?case by (auto simp: interfere_def map_add_def split: option.splits)
qed (simp add: interfere_def)

lemma interfere_frame [simp]:
  "fs_parts (interfere batch fs) = fs_parts fs" "fs_metas (interfere batch fs) = fs_metas fs"
  "fs_root (interfere batch fs) = fs_root fs"
  unfolding interfere_def by (induction batch arbitrary: fs) (auto simp: write_file_def)

lemma interfere_append: "interfere (xs @ ys) fs = interfere ys (interfere xs fs)"
  by (simp add: interfere_def)

lemma claim_sound:
  "claim_name races name content fs = (Inr dest, fs') \<Longrightarrow>
   \<exists>k. file_at (interfere (concat (take k races)) fs) dest = None
     \<and> fs' = write_file dest content (interfere (concat (take k races)) fs)"
proof (induction races name content fs rule: claim_name.induct)
  case (1 name content fs)
  then show ?case
    using resolve_fresh by (auto simp: interfere_def split: sum.splits)
next
  case (2 batch races name content fs)
  obtain d where d: "resolve_destination fs name = Inr d"
    using 2(2) by (auto split: sum.splits)
  show ?case
  proof (cases "file_at (interfere batch fs) d = None")
    case True
    with d 2(2) show ?thesis by (intro exI [of _ 1]) (auto simp: Let_def)
  next
    case False
    with d 2(2) have "claim_name races name content (interfere batch fs) = (Inr dest, fs')"
      by (simp add: Let_def)
    from 2(1) [OF d refl False this] obtain k where
      "file_at (interfere (concat (take k races)) (interfere batch fs)) dest = None"
      "fs' = write_file dest content (interfere (concat (take k races)) (interfere batch fs))"
      by blast
    then show ?thesis by (intro exI [of _ "Suc k"]) (simp add: interfere_append)
  qed
qed

lemma claim_failed:
  "claim_name races name content fs = (Inl e, fs') \<Longrightarrow>
   \<exists>k. fs' = interfere (concat (take k races)) fs"
proof (induction races name content fs rule: claim_name.induct)
  case (1 name content fs)
  then show ?case by (auto simp: interfere_def split: sum.splits)
next
  case (2 batch races name content fs)
  show ?case
  proof (cases "resolve_destination fs name")
    case (Inl e')
    with 2(2) show ?thesis by (intro exI [of _ 0]) (simp add: interfere_def)
  next
    case (Inr d)
    with 2(2) have f: "file_at (interfere batch fs) d \<noteq> None"
      "claim_name races name content (interfere batch fs) = (Inl e, fs')"
      by (auto simp: Let_def split: if_splits)
    from 2(1) [OF Inr refl f] obtain k where "fs' = interfere (concat (take k races)) (interfere batch fs)"
      by blast
    then show ?thesis by (intro exI [of _ "Suc k"]) (simp add: interfere_append)
  qed
qed

text \<open>The temporary name of the fallback is used by nobody else.\<close>

definition temp_fresh :: "commit_env \<Rightarrow> fsys \<Rightarrow> bool" where
  "temp_fresh env fs \<longleftrightarrow>
     file_at fs (ce_temp env) = None \<and> ce_temp env \<notin> fst ` set (concat (ce_races env))"

lemma races_temp:
  "temp_fresh env fs \<Longrightarrow> dict_get (rev (concat (take k (ce_races env)))) (ce_temp env) = None"
  by (fastforce simp: temp_fresh_def map_of_eq_None_iff dest: in_set_takeD)

lemma commit_sound:
  assumes "commit_partial_file env tid fid name fs = (Inr dest, fs')" "temp_fresh env fs"
  obtains k content where "part_of fs tid fid = Some content"
    "file_at (interfere (concat (take k (ce_races env))) fs) dest = None"
    "\<And>n. file_at fs' n = (if n = dest then Some content else file_at (interfere (concat (take k (ce_races env))) fs) n)"
    "fs_parts fs' = dict_pop (tid, fid) (fs_parts fs)" "fs_metas fs' = fs_metas fs" "fs_root fs' = fs_root fs"
proof -
  obtain content where part: "part_of fs tid fid = Some content"
    using assms(1) by (auto simp: commit_partial_file_def split: option.splits)
  show thesis
  proof (cases "ce_links env")
    case True
    then obtain fs1 where c: "claim_name (ce_races env) name content fs = (Inr dest, fs1)"
      and fs': "fs' = remove_part tid fid fs1"
      using assms(1) part by (auto simp: commit_partial_file_def split: prod.splits sum.splits)
    from claim_sound [OF c] show thesis
      using that [OF part] fs' by (fastforce simp: remove_part_def write_file_def file_at_def)
  next
    case False
    let ?t = "ce_temp env" and ?fs0 = "write_file (ce_temp env) content fs"
    obtain fs1 where c: "claim_name (ce_races env) name [] ?fs0 = (Inr dest, fs1)"
      and replaced: "fs' = remove_part tid fid (write_file dest content (remove_file ?t fs1))
        \<or> (\<exists>other. fs' = remove_part tid fid (write_file dest content (remove_file ?t (write_file dest other fs1))))"
      using assms(1) part False
      by (auto simp: commit_partial_file_def commit_by_copy_def
          split: prod.splits sum.splits replace_outcome.splits)
    from claim_sound [OF c] obtain k where free: "file_at (interfere (concat (take k (ce_races env))) ?fs0) dest = None"
      and fs1: "fs1 = write_file dest [] (interfere (concat (take k (ce_races env))) ?fs0)"
      by blast
    have t: "dict_get (rev (concat (take k (ce_races env)))) ?t = None"
      using assms(2) by (rule races_temp)
    have ne: "dest \<noteq> ?t" using free t by (auto simp: file_at_interfere)
    show thesis
    proof (rule that [OF part, of k])
      show "file_at (interfere (concat (take k (ce_races env))) fs) dest = None"
        using free ne by (simp add: file_at_interfere split: option.splits)
      show "file_at fs' n = (if n = dest then Some content else file_at (interfere (concat (take k (ce_races env))) fs) n)" for n
        using replaced fs1 ne t assms(2) by (auto simp: file_at_interfere temp_fresh_def split: option.splits)
      show "fs_parts fs' = dict_pop (tid, fid) (fs_parts fs)"
        using replaced fs1 by (auto simp: remove_part_def write_file_def remove_file_def)
      show "fs_metas fs' = fs_metas fs" "fs_root fs' = fs_root fs"
        using replaced fs1 by (auto simp: fs_simps)
    qed
  qed
qed

text \<open>
  Where the files of the directory come from after a commit, returned or raised: they were there,
  another process created them, or it is the verified content under the name returned.
\<close>

definition foreign :: "commit_env \<Rightarrow> string \<Rightarrow> bytes \<Rightarrow> bool" where
  "foreign env n bs \<longleftrightarrow> (n, bs) \<in> set (concat (ce_races env)) \<or> ce_replace env = Stolen bs"

text \<open>A commit that raises may leave its empty reservation behind.\<close>

definition leftover :: "commit_env \<Rightarrow> bytes \<Rightarrow> bool" where
  "leftover env bs \<longleftrightarrow> bs = [] \<and> (\<exists>e. ce_replace env = Stuck e)"

lemma races_taken: "set (concat (take k races)) \<subseteq> set (concat races)"
  by (auto dest: in_set_takeD)

lemma interfere_origin:
  assumes "file_at (interfere (concat (take k races)) fs) n = Some bs"
  shows "file_at fs n = Some bs \<or> (n, bs) \<in> set (concat races)"
proof (cases "dict_get (rev (concat (take k races))) n")
  case (Some bs')
  then have "(n, bs') \<in> set (concat races)" using races_taken [of k races] dict_get_in by fastforce
  with Some assms show ?thesis by (simp add: file_at_interfere)
qed (use assms in \<open>simp add: file_at_interfere\<close>)

lemma interfere_keeps:
  assumes "n \<notin> fst ` set (concat races)"
  shows "file_at (interfere (concat (take k races)) fs) n = file_at fs n"
proof -
  have "n \<notin> fst ` set (rev (concat (take k races)))"
    using assms races_taken [of k races] by (metis image_mono set_rev subsetD)
  then have "dict_get (rev (concat (take k races))) n = None"
    by (simp only: map_of_eq_None_iff not_False_eq_True)
  then show ?thesis by (simp add: file_at_interfere)
qed

lemma claim_shape:
  "claim_name races name content fs = (r, fs') \<Longrightarrow>
   \<exists>k. (case r of
          Inl _ \<Rightarrow> fs' = interfere (concat (take k races)) fs
        | Inr dest \<Rightarrow> file_at (interfere (concat (take k races)) fs) dest = None
                     \<and> fs' = write_file dest content (interfere (concat (take k races)) fs))"
  using claim_sound claim_failed by (cases r) (auto split: sum.splits)

lemma commit_by_copy_origin:
  assumes "commit_by_copy env name content fs = (r, fs')" "file_at fs' n = Some bs"
  shows "file_at fs n = Some bs \<or> foreign env n bs \<or> leftover env bs \<and> isl r \<or> content = bs \<and> r = Inr n"
proof -
  let ?fs0 = "write_file (ce_temp env) content fs"
  obtain q fs1 where c: "claim_name (ce_races env) name [] ?fs0 = (q, fs1)" by force
  from claim_shape [OF c] obtain k where k: "case q of
      Inl _ \<Rightarrow> fs1 = interfere (concat (take k (ce_races env))) ?fs0
    | Inr dest \<Rightarrow> fs1 = write_file dest [] (interfere (concat (take k (ce_races env))) ?fs0)"
    by (cases q) auto
  have from0: "file_at (interfere (concat (take k (ce_races env))) ?fs0) n = Some bs \<Longrightarrow> n \<noteq> ce_temp env \<Longrightarrow>
      file_at fs n = Some bs \<or> foreign env n bs"
    using interfere_origin [of k "ce_races env" ?fs0 n bs] by (auto simp: foreign_def)
  show ?thesis
  proof (cases q)
    case (Inl e)
    with assms c k from0 show ?thesis by (auto simp: commit_by_copy_def split: if_splits)
  next
    case (Inr dest)
    with assms c k from0 show ?thesis
      by (cases "ce_replace env") (auto simp: commit_by_copy_def foreign_def leftover_def split: if_splits)
  qed
qed

lemma commit_origin:
  assumes "commit_partial_file env tid fid name fs = (r, fs')" "file_at fs' n = Some bs"
  shows "file_at fs n = Some bs \<or> foreign env n bs \<or> leftover env bs \<and> isl r \<or> part_of fs tid fid = Some bs \<and> r = Inr n"
proof (cases "part_of fs tid fid")
  case None
  with assms show ?thesis by (simp add: commit_partial_file_def)
next
  case (Some content)
  show ?thesis
  proof (cases "ce_links env")
    case True
    then obtain fs1 where c: "claim_name (ce_races env) name content fs = (r, fs1)"
      and fs1: "file_at fs1 n = Some bs"
      using assms Some by (auto simp: commit_partial_file_def split: prod.splits sum.splits)
    from claim_shape [OF c] obtain k where k: "case r of
        Inl _ \<Rightarrow> fs1 = interfere (concat (take k (ce_races env))) fs
      | Inr dest \<Rightarrow> fs1 = write_file dest content (interfere (concat (take k (ce_races env))) fs)"
      by (cases r) auto
    show ?thesis
      using Some k fs1 interfere_origin [of k "ce_races env" fs n bs]
      by (cases r) (auto simp: foreign_def split: if_splits)
  next
    case False
    show ?thesis
    proof (cases "resolve_destination fs name")
      case (Inl e)
      with assms Some False show ?thesis by (auto simp: commit_partial_file_def)
    next
      case (Inr d)
      with assms Some False obtain fs1 where "commit_by_copy env name content fs = (r, fs1)"
        "file_at fs1 n = Some bs"
        by (auto simp: commit_partial_file_def split: prod.splits sum.splits)
      from commit_by_copy_origin [OF this] Some show ?thesis by simp
    qed
  qed
qed

lemma commit_by_copy_keeps:
  assumes "commit_by_copy env name content fs = (r, fs')" "file_at fs n = Some bs"
    "n \<noteq> ce_temp env" "n \<notin> fst ` set (concat (ce_races env))"
  shows "file_at fs' n = Some bs"
proof -
  let ?fs0 = "write_file (ce_temp env) content fs"
  obtain q fs1 where c: "claim_name (ce_races env) name [] ?fs0 = (q, fs1)" by force
  from claim_shape [OF c] obtain k where k: "case q of
      Inl _ \<Rightarrow> fs1 = interfere (concat (take k (ce_races env))) ?fs0
    | Inr dest \<Rightarrow> file_at (interfere (concat (take k (ce_races env))) ?fs0) dest = None
        \<and> fs1 = write_file dest [] (interfere (concat (take k (ce_races env))) ?fs0)"
    by blast
  have kept: "file_at (interfere (concat (take k (ce_races env))) ?fs0) n = Some bs"
    using interfere_keeps [OF assms(4), of k ?fs0] assms(2,3) by simp
  show ?thesis
    using assms c k kept
    by (cases q; cases "ce_replace env") (auto simp: commit_by_copy_def)
qed

lemma commit_keeps:
  assumes "commit_partial_file env tid fid name fs = (r, fs')" "file_at fs n = Some bs"
    "n \<noteq> ce_temp env" "n \<notin> fst ` set (concat (ce_races env))"
  shows "file_at fs' n = Some bs"
proof (cases "part_of fs tid fid")
  case None
  with assms show ?thesis by (simp add: commit_partial_file_def)
next
  case (Some content)
  show ?thesis
  proof (cases "ce_links env")
    case True
    then obtain fs1 where c: "claim_name (ce_races env) name content fs = (r, fs1)"
      and fs1: "file_at fs' n = file_at fs1 n"
      using assms Some by (auto simp: commit_partial_file_def split: prod.splits sum.splits)
    from claim_shape [OF c] fs1 show ?thesis
      using assms(2) interfere_keeps [OF assms(4), of _ fs] by (cases r) auto
  next
    case False
    show ?thesis
    proof (cases "resolve_destination fs name")
      case (Inl e)
      with assms Some False show ?thesis by (auto simp: commit_partial_file_def)
    next
      case (Inr d)
      with assms Some False obtain fs1 where "commit_by_copy env name content fs = (r, fs1)"
        "file_at fs' n = file_at fs1 n"
        by (auto simp: commit_partial_file_def split: prod.splits sum.splits)
      with commit_by_copy_keeps [OF this(1) assms(2-4)] show ?thesis by simp
    qed
  qed
qed

text \<open>A commit that raises keeps the partial file.\<close>

lemma commit_failed_keeps_part:
  assumes "commit_partial_file env tid fid name fs = (Inl e, fs')"
  shows "fs_parts fs' = fs_parts fs"
proof -
  have claim: "fs_parts g' = fs_parts g" if "claim_name races name c g = (r, g')" for races c r g g'
    using that claim_sound claim_failed by (cases r) (fastforce simp: write_file_def)+
  show ?thesis
    using assms claim
    by (auto simp: commit_partial_file_def commit_by_copy_def write_file_def remove_file_def
        split: option.splits prod.splits sum.splits if_splits replace_outcome.splits)
qed

section \<open>Metadata\<close>

text \<open>
  \<open>_read_metadata\<close>. A document that is not UTF-8 raises \<open>UnicodeDecodeError\<close>, a \<open>ValueError\<close> the handler
  does not name. Documents are written with sorted keys; the order is not observable by the reads.
\<close>

definition metadata_error :: exn where
  "metadata_error = ProtocolError ''Invalid resume metadata''"

definition read_metadata :: "fsys \<Rightarrow> string \<Rightarrow> (string, json) dict result" where
  "read_metadata fs tid =
     (case dict_get (fs_metas fs) tid of
        None \<Rightarrow> Inr []
      | Some Missing \<Rightarrow> Inr []
      | Some BadUtf8 \<Rightarrow> Inl (ValueError ''utf-8'')
      | Some (Content v) \<Rightarrow>
          bind_result (as_dict metadata_error v) (\<lambda>d.
          bind_result (as_dict metadata_error (oget d ''files'')) (\<lambda>_. Inr d))
      | Some _ \<Rightarrow> Inl metadata_error)"

definition write_metadata :: "string \<Rightarrow> json \<Rightarrow> fsys \<Rightarrow> fsys" where
  "write_metadata tid v fs = fs\<lparr>fs_metas := dict_set tid (Content v) (fs_metas fs)\<rparr>"

lemma write_metadata_frame [simp, fs_simps]:
  "file_at (write_metadata tid v fs) n = file_at fs n" "part_of (write_metadata tid v fs) t f = part_of fs t f"
  "fs_parts (write_metadata tid v fs) = fs_parts fs" "fs_files (write_metadata tid v fs) = fs_files fs"
  "fs_root (write_metadata tid v fs) = fs_root fs"
  by (simp_all add: write_metadata_def file_at_def part_of_def)

text \<open>\<open>metadata.get("files", {})\<close> of a document that \<open>read_metadata\<close> returned.\<close>

definition meta_files :: "(string, json) dict \<Rightarrow> (string, json) dict" where
  "meta_files d = (case oget d ''files'' of JObj fs \<Rightarrow> fs | _ \<Rightarrow> [])"

definition final_text :: "fsys \<Rightarrow> string \<Rightarrow> string" where
  "final_text fs name = fs_root fs @ CHR ''/'' # name"

text \<open>
  A stored path that lies beneath the receive directory, as the name below it (paths are stored
  resolved).
\<close>

definition below_root :: "fsys \<Rightarrow> string \<Rightarrow> string option" where
  "below_root fs path =
     (if starts_with (fs_root fs @ ''/'') path then Some (drop (Suc (length (fs_root fs))) path) else None)"

lemma below_final_text [simp]: "below_root fs (final_text fs name) = Some name"
  by (simp add: below_root_def final_text_def starts_with_def)

section \<open>Resuming\<close>

definition file_digest :: "crypto \<Rightarrow> bytes \<Rightarrow> string" where
  "file_digest c bs = hexdigest (sha256_digest c bs)"

text \<open>\<open>ResumeFileState\<close>: the partial path is present exactly when the final one is not.\<close>

record resume_state =
  rs_offset :: nat
  rs_final :: "string option"

definition expected_record :: "incoming_file \<Rightarrow> (string, json) dict" where
  "expected_record f =
     [(''name'', JStr (ifile_name f)), (''size'', JInt (int (ifile_size f))),
      (''sha256'', JStr (ifile_sha256 f))]"

definition record_matches :: "json \<Rightarrow> incoming_file \<Rightarrow> bool" where
  "record_matches stored f \<longleftrightarrow>
     (case stored of
        JObj d \<Rightarrow> list_all (\<lambda>(k, v). json_eq (oget d k) v) (expected_record f)
      | _ \<Rightarrow> False)"

definition final_candidate :: "crypto \<Rightarrow> fsys \<Rightarrow> string \<Rightarrow> incoming_file \<Rightarrow> string option" where
  "final_candidate c fs raw f =
     (case below_root fs raw of
        None \<Rightarrow> None
      | Some name \<Rightarrow>
          (case file_at fs name of
             None \<Rightarrow> None
           | Some bs \<Rightarrow> if length bs = ifile_size f \<and> file_digest c bs = ifile_sha256 f
                       then Some name else None))"

text \<open>One iteration of the loop of \<open>prepare\<close>: the state of the file and its new record.\<close>

definition prepare_file ::
  "crypto \<Rightarrow> string \<Rightarrow> (string, json) dict \<Rightarrow> incoming_file \<Rightarrow> fsys \<Rightarrow> resume_state \<times> json \<times> fsys" where
  "prepare_file c tid stored_files f fs =
     (let fid = ifile_id f;
          stored = oget stored_files fid;
          (st, fs') =
            (if record_matches stored f
             then (case ojget stored ''final_path'' of
                     JStr raw \<Rightarrow>
                       (case final_candidate c fs raw f of
                          Some name \<Rightarrow> (\<lparr>rs_offset = ifile_size f, rs_final = Some name\<rparr>, fs)
                        | None \<Rightarrow> (\<lparr>rs_offset = 0, rs_final = None\<rparr>, fs))
                   | _ \<Rightarrow>
                       (case part_of fs tid fid of
                          None \<Rightarrow> (\<lparr>rs_offset = 0, rs_final = None\<rparr>, fs)
                        | Some bs \<Rightarrow>
                            if ifile_size f < length bs
                            then (\<lparr>rs_offset = 0, rs_final = None\<rparr>, remove_part tid fid fs)
                            else (\<lparr>rs_offset = length bs, rs_final = None\<rparr>, fs)))
             else (\<lparr>rs_offset = 0, rs_final = None\<rparr>, remove_part tid fid fs))
      in (st,
          JObj (expected_record f
                @ (case rs_final st of
                     None \<Rightarrow> [] | Some name \<Rightarrow> [(''final_path'', JStr (final_text fs name))])),
          fs'))"

fun prepare_files ::
  "crypto \<Rightarrow> string \<Rightarrow> (string, json) dict \<Rightarrow> incoming_file list \<Rightarrow> fsys
   \<Rightarrow> (string, resume_state) dict \<times> (string, json) dict \<times> fsys" where
  "prepare_files c tid stored [] fs = ([], [], fs)"
| "prepare_files c tid stored (f # files) fs =
     (let (st, record, fs1) = prepare_file c tid stored f fs;
          (sts, records, fs2) = prepare_files c tid stored files fs1
      in ((ifile_id f, st) # sts, (ifile_id f, record) # records, fs2))"

definition prepare :: "crypto \<Rightarrow> transfer_offer \<Rightarrow> fsys \<Rightarrow> (string, resume_state) dict result \<times> fsys" where
  "prepare c offer fs =
     (case read_metadata fs (offer_id offer) of
        Inl e \<Rightarrow> (Inl e, fs)
      | Inr existing \<Rightarrow>
          (let (sts, records, fs1) =
                 prepare_files c (offer_id offer) (meta_files existing) (offer_files offer) fs
           in (Inr sts,
               write_metadata (offer_id offer)
                 (JObj [(''transfer_id'', JStr (offer_id offer)), (''files'', JObj records)]) fs1)))"

definition mark_completed :: "string \<Rightarrow> string \<Rightarrow> string \<Rightarrow> fsys \<Rightarrow> unit result \<times> fsys" where
  "mark_completed tid fid name fs =
     (case read_metadata fs tid of
        Inl e \<Rightarrow> (Inl e, fs)
      | Inr d \<Rightarrow>
          (case oget (meta_files d) fid of
             JObj r \<Rightarrow>
               (Inr (),
                write_metadata tid
                  (JObj (dict_set ''files''
                     (JObj (dict_set fid (JObj (dict_set ''final_path'' (JStr (final_text fs name)) r))
                              (meta_files d))) d)) fs)
           | _ \<Rightarrow> (Inl (ProtocolError ''Missing resume metadata''), fs)))"

definition complete_session :: "string \<Rightarrow> fsys \<Rightarrow> fsys" where
  "complete_session tid fs =
     fs\<lparr>fs_parts := filter (\<lambda>((t, _), _). t \<noteq> tid) (fs_parts fs), fs_metas := dict_pop tid (fs_metas fs)\<rparr>"

section \<open>The resume frames\<close>

definition resume_query :: "transfer_offer \<Rightarrow> json" where
  "resume_query offer =
     JObj [(''type'', JStr ''resume_query''), (''transfer_id'', JStr (offer_id offer)),
           (''files'', JArr (map file_json (offer_files offer)))]"

definition validate_resume_query :: "json \<Rightarrow> transfer_offer \<Rightarrow> unit result" where
  "validate_resume_query payload offer =
     bind_result (as_dict (ProtocolError ''Expected resume query'') payload) (\<lambda>d.
     bind_result (ensure (ProtocolError ''Expected resume query'')
                    (oget d ''type'' = JStr ''resume_query'')) (\<lambda>_.
     bind_result (ensure (ProtocolError ''Resume transfer ID mismatch'')
                    (oget d ''transfer_id'' = JStr (offer_id offer))) (\<lambda>_.
     ensure (ProtocolError ''Resume metadata mismatch'')
       (json_eq (oget d ''files'') (JArr (map file_json (offer_files offer)))))))"

definition resume_state_json :: "transfer_offer \<Rightarrow> (string, resume_state) dict \<Rightarrow> json" where
  "resume_state_json offer sts =
     JObj [(''type'', JStr ''resume_state''), (''transfer_id'', JStr (offer_id offer)),
           (''files'',
            JArr (map (\<lambda>f. JObj [(''file_id'', JStr (ifile_id f)),
                                 (''offset'', JInt (int (rs_offset (the (dict_get sts (ifile_id f))))))])
                    (offer_files offer)))]"

text \<open>Lists and dicts cannot be looked up in a dict: the membership test itself raises.\<close>

fun unhashable :: "json \<Rightarrow> bool" where
  "unhashable (JArr _) = True"
| "unhashable (JObj _) = True"
| "unhashable _ = False"

definition resume_item :: "(string, nat) dict \<Rightarrow> (string, nat) dict \<Rightarrow> json \<Rightarrow> (string \<times> nat) result" where
  "resume_item expected offsets item =
     bind_result (as_dict (ProtocolError ''Invalid resume file ID'') item) (\<lambda>d.
     bind_result (ensure (TypeError ''unhashable type'') (\<not> unhashable (oget d ''file_id''))) (\<lambda>_.
     bind_result (as_str (ProtocolError ''Invalid resume file ID'') (oget d ''file_id'')) (\<lambda>fid.
     case dict_get expected fid of
       None \<Rightarrow> Inl (ProtocolError ''Invalid resume file ID'')
     | Some sz \<Rightarrow>
         bind_result (ensure (ProtocolError ''Invalid resume offset'') (dict_get offsets fid = None)) (\<lambda>_.
         bind_result (as_int (ProtocolError ''Invalid resume offset'') (oget d ''offset'')) (\<lambda>off.
         bind_result (ensure (ProtocolError ''Invalid resume offset'') (0 \<le> off \<and> off \<le> int sz)) (\<lambda>_.
         Inr (fid, nat off)))))))"

fun resume_items :: "(string, nat) dict \<Rightarrow> (string, nat) dict \<Rightarrow> json list \<Rightarrow> (string, nat) dict result" where
  "resume_items expected offsets [] = Inr offsets"
| "resume_items expected offsets (item # items) =
     bind_result (resume_item expected offsets item) (\<lambda>(fid, off).
       resume_items expected (dict_set fid off offsets) items)"

definition validate_resume_state :: "json \<Rightarrow> transfer_offer \<Rightarrow> (string, nat) dict result" where
  "validate_resume_state payload offer =
     bind_result (as_dict (ProtocolError ''Expected resume state'') payload) (\<lambda>d.
     bind_result (ensure (ProtocolError ''Expected resume state'')
                    (oget d ''type'' = JStr ''resume_state'')) (\<lambda>_.
     bind_result (ensure (ProtocolError ''Resume transfer ID mismatch'')
                    (oget d ''transfer_id'' = JStr (offer_id offer))) (\<lambda>_.
     bind_result (as_list (ProtocolError ''Invalid resume state'') (oget d ''files'')) (\<lambda>items.
     bind_result (ensure (ProtocolError ''Invalid resume state'')
                    (length items = length (offer_files offer))) (\<lambda>_.
     let expected = map (\<lambda>f. (ifile_id f, ifile_size f)) (offer_files offer) in
     bind_result (resume_items expected [] items) (\<lambda>offsets.
     bind_result (ensure (ProtocolError ''Incomplete resume state'')
                    (set (map fst offsets) = set (map fst expected))) (\<lambda>_. Inr offsets)))))))"

lemma resume_items_sound:
  "resume_items expected offsets items = Inr out \<Longrightarrow>
   (\<forall>fid off. dict_get offsets fid = Some off \<longrightarrow> (\<exists>sz. dict_get expected fid = Some sz \<and> off \<le> sz)) \<Longrightarrow>
   (\<forall>fid off. dict_get out fid = Some off \<longrightarrow> (\<exists>sz. dict_get expected fid = Some sz \<and> off \<le> sz))"
proof (induction items arbitrary: offsets)
  case (Cons item items)
  then obtain fid off where item: "resume_item expected offsets item = Inr (fid, off)"
    and rest: "resume_items expected (dict_set fid off offsets) items = Inr out"
    by auto
  from item obtain sz where "dict_get expected fid = Some sz" "off \<le> sz"
    by (auto simp: resume_item_def nat_le_iff split: option.splits)
  with Cons.prems(2) show ?case by (intro Cons.IH [OF rest]) auto
qed simp

text \<open>Accepted offsets cover exactly the offered files and never exceed their sizes.\<close>

lemma validate_resume_state_sound:
  assumes "validate_resume_state payload offer = Inr offsets" "f \<in> set (offer_files offer)"
    "distinct (map ifile_id (offer_files offer))"
  shows "\<exists>off. dict_get offsets (ifile_id f) = Some off \<and> off \<le> ifile_size f"
proof -
  let ?exp = "map (\<lambda>f. (ifile_id f, ifile_size f)) (offer_files offer)"
  obtain items where r: "resume_items ?exp [] items = Inr offsets"
    and cover: "fst ` set offsets = ifile_id ` set (offer_files offer)"
    using assms(1) by (auto simp: validate_resume_state_def Let_def image_image)
  have "ifile_id f \<in> fst ` set offsets" unfolding cover using assms(2) by (rule imageI)
  then obtain off where off: "dict_get offsets (ifile_id f) = Some off"
    by (metis map_of_eq_None_iff not_None_eq)
  have "dict_get ?exp (ifile_id f) = Some (ifile_size f)"
    using assms(2,3) by (intro dict_in_get) (auto simp: dict_ok_def comp_def)
  with resume_items_sound [OF r] off show ?thesis by fastforce
qed

text \<open>The frames each side builds are accepted by the other.\<close>

lemma plain_file_json: "plain (file_json f)"
  by (simp add: file_json_def dict_ok_def)

lemma resume_query_accepted: "validate_resume_query (resume_query offer) offer = Inr ()"
proof -
  have "json_eq (JArr (map file_json (offer_files offer))) (JArr (map file_json (offer_files offer)))"
    by (rule json_eq_refl) (simp add: plains_iff plain_file_json)
  then show ?thesis by (simp add: validate_resume_query_def resume_query_def)
qed

lemma dict_set_new: "dict_get d k = None \<Longrightarrow> dict_set k v d = d @ [(k, v)]"
  by (induction d) (auto split: if_splits)

lemma resume_items_json:
  assumes "distinct (map ifile_id files)" "\<forall>f \<in> set files. dict_get expected (ifile_id f) = Some (ifile_size f)"
    and "\<forall>f \<in> set files. off f \<le> ifile_size f" "\<forall>f \<in> set files. dict_get offsets (ifile_id f) = None"
  shows "resume_items expected offsets
      (map (\<lambda>f. JObj [(''file_id'', JStr (ifile_id f)), (''offset'', JInt (int (off f)))]) files)
    = Inr (offsets @ map (\<lambda>f. (ifile_id f, off f)) files)"
  using assms
proof (induction files arbitrary: offsets)
  case (Cons f files)
  have upd: "dict_set (ifile_id f) (off f) offsets = offsets @ [(ifile_id f, off f)]"
    using Cons.prems(4) by (simp add: dict_set_new)
  from Cons.prems have "resume_items expected (dict_set (ifile_id f) (off f) offsets)
      (map (\<lambda>f. JObj [(''file_id'', JStr (ifile_id f)), (''offset'', JInt (int (off f)))]) files)
    = Inr (dict_set (ifile_id f) (off f) offsets @ map (\<lambda>f. (ifile_id f, off f)) files)"
    by (intro Cons.IH) (auto, metis image_eqI)
  with Cons.prems upd show ?case by (simp add: resume_item_def)
qed simp

lemma resume_state_accepted:
  assumes "distinct (map ifile_id (offer_files offer))"
    and "\<forall>f \<in> set (offer_files offer). \<exists>st. dict_get sts (ifile_id f) = Some st \<and> rs_offset st \<le> ifile_size f"
  shows "validate_resume_state (resume_state_json offer sts) offer =
    Inr (map (\<lambda>f. (ifile_id f, rs_offset (the (dict_get sts (ifile_id f))))) (offer_files offer))"
proof -
  let ?exp = "map (\<lambda>f. (ifile_id f, ifile_size f)) (offer_files offer)"
  have "\<forall>f \<in> set (offer_files offer). dict_get ?exp (ifile_id f) = Some (ifile_size f)"
    using assms(1) by (intro ballI dict_in_get) (auto simp: dict_ok_def comp_def)
  then have "resume_items ?exp []
      (map (\<lambda>f. JObj [(''file_id'', JStr (ifile_id f)),
         (''offset'', JInt (int (rs_offset (the (dict_get sts (ifile_id f))))))]) (offer_files offer))
    = Inr ([] @ map (\<lambda>f. (ifile_id f, rs_offset (the (dict_get sts (ifile_id f))))) (offer_files offer))"
    using assms by (intro resume_items_json) auto
  then show ?thesis
    by (simp add: validate_resume_state_def resume_state_json_def comp_def Let_def image_image)
qed

section \<open>What prepare promises\<close>

text \<open>
  The state of one file: an exposed file with the offered digest, or an offset that is the length of
  the partial file (0 when nothing can be resumed).
\<close>

definition state_ok :: "crypto \<Rightarrow> string \<Rightarrow> fsys \<Rightarrow> incoming_file \<Rightarrow> resume_state \<Rightarrow> bool" where
  "state_ok c tid fs f st \<longleftrightarrow>
     rs_offset st \<le> ifile_size f \<and>
     (case rs_final st of
        Some name \<Rightarrow> rs_offset st = ifile_size f
          \<and> (\<exists>bs. file_at fs name = Some bs \<and> length bs = ifile_size f \<and> file_digest c bs = ifile_sha256 f)
      | None \<Rightarrow> rs_offset st = 0 \<or>
          (\<exists>bs. part_of fs tid (ifile_id f) = Some bs \<and> length bs = rs_offset st))"

lemma state_ok_cong:
  "file_at fs' = file_at fs \<Longrightarrow> part_of fs' tid (ifile_id f) = part_of fs tid (ifile_id f) \<Longrightarrow>
   state_ok c tid fs' f st = state_ok c tid fs f st"
  by (simp add: state_ok_def split: option.split)

lemma prepare_file_sound:
  assumes "prepare_file c tid stored f fs = (st, rcd, fs')"
  shows "state_ok c tid fs' f st" and "file_at fs' = file_at fs" and "fs_metas fs' = fs_metas fs"
    and "fid \<noteq> ifile_id f \<Longrightarrow> part_of fs' tid fid = part_of fs tid fid" and "fs_root fs' = fs_root fs"
proof -
  let ?raw = "ojget (oget stored (ifile_id f)) ''final_path''"
  have "state_ok c tid fs' f st \<and> file_at fs' = file_at fs \<and> fs_metas fs' = fs_metas fs
      \<and> (fid \<noteq> ifile_id f \<longrightarrow> part_of fs' tid fid = part_of fs tid fid) \<and> fs_root fs' = fs_root fs"
    using assms
    by (cases "?raw"; cases "part_of fs tid (ifile_id f)")
       (auto simp: prepare_file_def state_ok_def final_candidate_def Let_def
         split: if_splits option.splits)
  then show "state_ok c tid fs' f st" "file_at fs' = file_at fs" "fs_metas fs' = fs_metas fs"
    "fid \<noteq> ifile_id f \<Longrightarrow> part_of fs' tid fid = part_of fs tid fid" "fs_root fs' = fs_root fs"
    by blast+
qed

lemma prepare_files_sound:
  "prepare_files c tid stored files fs = (sts, records, fs') \<Longrightarrow> distinct (map ifile_id files) \<Longrightarrow>
   file_at fs' = file_at fs \<and> map fst sts = map ifile_id files
   \<and> (\<forall>fid. fid \<notin> ifile_id ` set files \<longrightarrow> part_of fs' tid fid = part_of fs tid fid)
   \<and> (\<forall>f \<in> set files. \<exists>st. dict_get sts (ifile_id f) = Some st \<and> state_ok c tid fs' f st)"
proof (induction files arbitrary: fs sts records fs')
  case (Cons f files)
  obtain st rcd fs1 where one: "prepare_file c tid stored f fs = (st, rcd, fs1)"
    by (metis prod_cases3)
  obtain sts' records' fs2 where rest: "prepare_files c tid stored files fs1 = (sts', records', fs2)"
    by (metis prod_cases3)
  note eqs = Cons.prems(1) [simplified, unfolded one, simplified, unfolded rest, simplified]
  note here = prepare_file_sound [OF one]
  have IH: "file_at fs2 = file_at fs1" "map fst sts' = map ifile_id files"
    "fid \<notin> ifile_id ` set files \<Longrightarrow> part_of fs2 tid fid = part_of fs1 tid fid"
    "g \<in> set files \<Longrightarrow> \<exists>st. dict_get sts' (ifile_id g) = Some st \<and> state_ok c tid fs2 g st" for fid g
    using Cons.IH [OF rest] Cons.prems(2) by auto
  have "state_ok c tid fs2 f st"
    using here(1) IH(1) IH(3) [of "ifile_id f"] Cons.prems(2) state_ok_cong [of fs2 fs1] by auto
  moreover have "dict_get sts (ifile_id g) = dict_get sts' (ifile_id g)" if "g \<in> set files" for g
  proof -
    have "ifile_id g \<noteq> ifile_id f" using Cons.prems(2) that by (auto simp: image_iff)
    then show ?thesis using eqs by auto
  qed
  ultimately show ?case
    using eqs IH here(2,4) Cons.prems(2) by (auto simp del: map_of_eq_Some_iff)
qed simp

lemma prepare_sound:
  assumes "prepare c offer fs = (Inr sts, fs')" "distinct (map ifile_id (offer_files offer))"
  shows "file_at fs' = file_at fs"
    and "f \<in> set (offer_files offer) \<Longrightarrow>
         \<exists>st. dict_get sts (ifile_id f) = Some st \<and> state_ok c (offer_id offer) fs' f st"
proof -
  obtain existing where ex: "read_metadata fs (offer_id offer) = Inr existing"
    using assms(1) by (auto simp: prepare_def split: sum.splits)
  obtain sts1 records fs1 where p:
    "prepare_files c (offer_id offer) (meta_files existing) (offer_files offer) fs = (sts1, records, fs1)"
    by (metis prod_cases3)
  have eqs: "sts = sts1" "\<And>n. file_at fs' n = file_at fs1 n"
      "\<And>t g. part_of fs' t g = part_of fs1 t g"
    using assms(1) ex p by (auto simp: prepare_def)
  show "file_at fs' = file_at fs" "f \<in> set (offer_files offer) \<Longrightarrow>
         \<exists>st. dict_get sts (ifile_id f) = Some st \<and> state_ok c (offer_id offer) fs' f st"
    using prepare_files_sound [OF p assms(2)] eqs state_ok_cong [of fs' fs1] by (auto simp: fun_eq_iff)
qed

text \<open>Hence the state frame of the receiver is always accepted by the sender of the same offer.\<close>

lemma prepared_state_accepted:
  assumes "prepare c offer fs = (Inr sts, fs')" "distinct (map ifile_id (offer_files offer))"
  shows "validate_resume_state (resume_state_json offer sts) offer =
    Inr (map (\<lambda>f. (ifile_id f, rs_offset (the (dict_get sts (ifile_id f))))) (offer_files offer))"
proof (rule resume_state_accepted [OF assms(2)], rule ballI)
  fix f assume "f \<in> set (offer_files offer)"
  from prepare_sound(2) [OF assms this]
  show "\<exists>st. dict_get sts (ifile_id f) = Some st \<and> rs_offset st \<le> ifile_size f"
    by (auto simp: state_ok_def)
qed

section \<open>Restart\<close>

lemma json_eq_expected: "list_all (\<lambda>(k, v). json_eq (oget (expected_record f @ r) k) v) (expected_record f)"
  by (simp add: expected_record_def oget_def)

lemma complete_session_frame [simp]:
  "file_at (complete_session tid fs) n = file_at fs n"
  "part_of (complete_session tid fs) tid fid = None"
  by (auto simp: complete_session_def file_at_def part_of_def map_of_eq_None_iff)

end
