(* ===== verification/Inbox.thy ===== *)
theory Inbox
  imports Protocol
begin

text \<open>
  \<open>core/inbox.py\<close>: the bounded queue of incoming offers and the decisions on them. Every method takes
  the manager's lock, so a concurrent run is a sequence of commands; the calls to the two callbacks
  are recorded in the order they are made.
\<close>

section \<open>Model\<close>

datatype request_status =
    Req_PENDING_APPROVAL
  | Req_ACCEPTED
  | Req_REJECTED
  | Req_EXPIRED
  | Req_CANCELLED

record incoming_request =
  rq_transfer_id :: string
  rq_peer_device_id :: string
  rq_peer_ip :: string
  rq_peer_name :: "string option"
  rq_files :: "incoming_file list"
  rq_total_size :: nat
  rq_message :: "string option"
  rq_received_at :: time
  rq_status :: request_status
  rq_reason :: "string option"

record pending_decision =
  pd_request :: incoming_request
  pd_event :: bool

datatype callback = OnRequest incoming_request | OnDecision incoming_request

record request_manager =
  rm_entries :: "(string, pending_decision) dict"
  rm_max_pending :: nat
  rm_calls :: "callback list"

definition manager_new :: "int \<Rightarrow> request_manager result" where
  "manager_new max_pending =
     (if max_pending \<le> 0 then Inl (ValueError ''max_pending must be positive'')
      else Inr \<lparr>rm_entries = [], rm_max_pending = nat max_pending, rm_calls = []\<rparr>)"

definition is_pending :: "pending_decision \<Rightarrow> bool" where
  "is_pending e \<longleftrightarrow> rq_status (pd_request e) = Req_PENDING_APPROVAL"

definition pending_count :: "request_manager \<Rightarrow> nat" where
  "pending_count m = length (filter (\<lambda>(_, e). is_pending e) (rm_entries m))"

text \<open>The comparison that lets a retried offer keep its earlier approval.\<close>

definition same_offer :: "incoming_request \<Rightarrow> incoming_request \<Rightarrow> bool" where
  "same_offer prior r \<longleftrightarrow>
     rq_peer_device_id prior = rq_peer_device_id r \<and> rq_files prior = rq_files r
     \<and> rq_total_size prior = rq_total_size r \<and> rq_message prior = rq_message r"

section \<open>Operations\<close>

definition put_entry :: "string \<Rightarrow> pending_decision \<Rightarrow> request_manager \<Rightarrow> request_manager" where
  "put_entry k e m = m\<lparr>rm_entries := dict_set k e (rm_entries m)\<rparr>"

definition publish :: "incoming_request \<Rightarrow> request_manager \<Rightarrow> unit result \<times> request_manager" where
  "publish r m =
     (case dict_get (rm_entries m) (rq_transfer_id r) of
        Some existing \<Rightarrow>
          (let prior = pd_request existing
           in if \<not> same_offer prior r then (Inl (ValueError ''Transfer ID metadata changed''), m)
              else if rq_status prior = Req_ACCEPTED
              then (Inr (), put_entry (rq_transfer_id r)
                              \<lparr>pd_request = r\<lparr>rq_status := Req_ACCEPTED\<rparr>, pd_event = True\<rparr> m)
              else (Inl (ValueError ''Transfer request already exists''), m))
      | None \<Rightarrow>
          if rm_max_pending m \<le> pending_count m
          then (Inl (InboxCapacityError ''Incoming transfer inbox is full''), m)
          else (let m' = put_entry (rq_transfer_id r) \<lparr>pd_request = r, pd_event = False\<rparr> m
                in (Inr (), m'\<lparr>rm_calls := rm_calls m' @ [OnRequest r]\<rparr>)))"

definition decide ::
  "string \<Rightarrow> request_status \<Rightarrow> string option \<Rightarrow> request_manager \<Rightarrow> bool \<times> request_manager" where
  "decide tid st reason m =
     (case dict_get (rm_entries m) tid of
        None \<Rightarrow> (False, m)
      | Some e \<Rightarrow>
          if \<not> is_pending e then (False, m)
          else (let r = (pd_request e)\<lparr>rq_status := st, rq_reason := reason\<rparr>;
                    m' = put_entry tid \<lparr>pd_request = r, pd_event = True\<rparr> m
                in (True, m'\<lparr>rm_calls := rm_calls m' @ [OnDecision r]\<rparr>)))"

definition accept_request :: "string \<Rightarrow> request_manager \<Rightarrow> bool \<times> request_manager" where
  "accept_request tid = decide tid Req_ACCEPTED None"

definition reject_request :: "string \<Rightarrow> string \<Rightarrow> request_manager \<Rightarrow> bool \<times> request_manager" where
  "reject_request tid reason = decide tid Req_REJECTED (Some reason)"

definition cancel_request :: "string \<Rightarrow> string \<Rightarrow> request_manager \<Rightarrow> bool \<times> request_manager" where
  "cancel_request tid reason = decide tid Req_CANCELLED (Some reason)"

definition get_request :: "request_manager \<Rightarrow> string \<Rightarrow> incoming_request option" where
  "get_request m tid = map_option pd_request (dict_get (rm_entries m) tid)"

definition get_pending_requests :: "request_manager \<Rightarrow> incoming_request list" where
  "get_pending_requests m =
     sort_key (\<lambda>r. - rq_received_at r)
       (map (pd_request \<circ> snd) (filter (\<lambda>(_, e). is_pending e) (rm_entries m)))"

text \<open>
  \<open>wait_for_decision\<close> from the moment its wait ends: the event was set, or the timeout passed and the
  request expires unless another thread decided in between.
\<close>

definition expire :: "string \<Rightarrow> request_manager \<Rightarrow> request_manager" where
  "expire tid m = snd (decide tid Req_EXPIRED (Some ''Transfer request expired'') m)"

definition wait_for_decision ::
  "string \<Rightarrow> request_manager \<Rightarrow> incoming_request result \<times> request_manager" where
  "wait_for_decision tid m =
     (case dict_get (rm_entries m) tid of
        None \<Rightarrow> (Inl (KeyError tid), m)
      | Some e \<Rightarrow>
          (let m' = (if pd_event e then m else expire tid m)
           in (case get_request m' tid of None \<Rightarrow> Inl (KeyError tid) | Some r \<Rightarrow> Inr r, m')))"

definition prune :: "time \<Rightarrow> time \<Rightarrow> request_manager \<Rightarrow> request_manager" where
  "prune now older_than m =
     m\<lparr>rm_entries :=
         filter (\<lambda>(_, e). is_pending e \<or> now - older_than \<le> rq_received_at (pd_request e)) (rm_entries m)\<rparr>"

definition cancel_all :: "string \<Rightarrow> request_manager \<Rightarrow> request_manager" where
  "cancel_all reason m =
     fold (\<lambda>tid m. snd (cancel_request tid reason m))
       (map fst (filter (\<lambda>(_, e). is_pending e) (rm_entries m))) m"

section \<open>Commands\<close>

datatype inbox_cmd =
    Publish incoming_request
  | Accept string
  | RejectReq string string
  | Cancel string string
  | Expire string
  | Prune time time

fun inbox_step :: "inbox_cmd \<Rightarrow> request_manager \<Rightarrow> request_manager" where
  "inbox_step (Publish r) m = snd (publish r m)"
| "inbox_step (Accept tid) m = snd (accept_request tid m)"
| "inbox_step (RejectReq tid reason) m = snd (reject_request tid reason m)"
| "inbox_step (Cancel tid reason) m = snd (cancel_request tid reason m)"
| "inbox_step (Expire tid) m = expire tid m"
| "inbox_step (Prune now older) m = prune now older m"

text \<open>A shutdown is a run of single cancellations.\<close>

lemma cancel_all_run:
  "cancel_all reason m =
   fold inbox_step (map (\<lambda>(tid, _). Cancel tid reason) (filter (\<lambda>(_, e). is_pending e) (rm_entries m))) m"
proof -
  have "fold (\<lambda>tid m. snd (cancel_request tid reason m)) (map fst es) m'
      = fold inbox_step (map (\<lambda>(tid, _). Cancel tid reason) es) m'"
    for es :: "(string, pending_decision) dict" and m'
    by (induction es arbitrary: m') (auto simp: prod.case_eq_if)
  then show ?thesis by (simp add: cancel_all_def)
qed

text \<open>All four decisions are one operation.\<close>

fun decision :: "inbox_cmd \<Rightarrow> (string \<times> request_status \<times> string option) option" where
  "decision (Accept tid) = Some (tid, Req_ACCEPTED, None)"
| "decision (RejectReq tid reason) = Some (tid, Req_REJECTED, Some reason)"
| "decision (Cancel tid reason) = Some (tid, Req_CANCELLED, Some reason)"
| "decision (Expire tid) = Some (tid, Req_EXPIRED, Some ''Transfer request expired'')"
| "decision _ = None"

lemma step_decision:
  "decision c = Some (tid, st, reason) \<Longrightarrow>
   inbox_step c m = snd (decide tid st reason m) \<and> st \<noteq> Req_PENDING_APPROVAL"
  by (cases c) (auto simp: accept_request_def reject_request_def cancel_request_def expire_def)

lemma inbox_cmd_cases:
  obtains (publish) r where "c = Publish r" | (prune) now older where "c = Prune now older"
  | (decide) tid st reason where "decision c = Some (tid, st, reason)"
  by (cases c) auto

section \<open>Invariant\<close>

definition entry_ok :: "string \<Rightarrow> pending_decision \<Rightarrow> bool" where
  "entry_ok tid e \<longleftrightarrow> rq_transfer_id (pd_request e) = tid \<and> (pd_event e \<longleftrightarrow> \<not> is_pending e)"

definition inbox_inv :: "request_manager \<Rightarrow> bool" where
  "inbox_inv m \<longleftrightarrow>
     dict_ok (rm_entries m) \<and> (\<forall>tid e. dict_get (rm_entries m) tid = Some e \<longrightarrow> entry_ok tid e)
     \<and> pending_count m \<le> rm_max_pending m"

text \<open>Every published request is pending: the program builds requests with the default status.\<close>

definition fresh_cmd :: "inbox_cmd \<Rightarrow> bool" where
  "fresh_cmd c \<longleftrightarrow> (case c of Publish r \<Rightarrow> rq_status r = Req_PENDING_APPROVAL | _ \<Rightarrow> True)"

lemma count_dict_set:
  "dict_ok d \<Longrightarrow>
   length (filter (\<lambda>(_, e). P e) (dict_set k v d)) + (case dict_get d k of None \<Rightarrow> 0 | Some w \<Rightarrow> if P w then 1 else 0)
   = length (filter (\<lambda>(_, e). P e) d) + (if P v then 1 else 0)"
  by (induction d) (auto simp: dict_ok_def map_of_eq_None_iff split: option.splits dest: map_of_SomeD)

lemma pending_count_put:
  "dict_ok (rm_entries m) \<Longrightarrow>
   pending_count (put_entry k e m) + (case dict_get (rm_entries m) k of None \<Rightarrow> 0 | Some w \<Rightarrow> if is_pending w then 1 else 0)
   = pending_count m + (if is_pending e then 1 else 0)"
  unfolding pending_count_def put_entry_def by (simp add: count_dict_set)

lemma put_entry_simps [simp]:
  "rm_entries (put_entry k e m) = dict_set k e (rm_entries m)"
  "rm_max_pending (put_entry k e m) = rm_max_pending m"
  "rm_calls (put_entry k e m) = rm_calls m"
  by (simp_all add: put_entry_def)

lemma pending_count_calls [simp]: "pending_count (m\<lparr>rm_calls := xs\<rparr>) = pending_count m"
  by (simp add: pending_count_def)

lemma decide_inv:
  assumes inv: "inbox_inv m" and st: "st \<noteq> Req_PENDING_APPROVAL"
  shows "inbox_inv (snd (decide tid st reason m))"
proof (cases "dict_get (rm_entries m) tid")
  case (Some e)
  show ?thesis
  proof (cases "is_pending e")
    case True
    let ?e = "\<lparr>pd_request = (pd_request e)\<lparr>rq_status := st, rq_reason := reason\<rparr>, pd_event = True\<rparr>"
    have "\<not> is_pending ?e" using st by (simp add: is_pending_def)
    moreover have "entry_ok tid e" using inv Some by (simp add: inbox_inv_def)
    ultimately show ?thesis
      using inv Some True pending_count_put [of m tid ?e]
      by (auto simp: decide_def inbox_inv_def entry_ok_def Let_def)
  qed (use inv Some in \<open>simp add: decide_def\<close>)
qed (use inv in \<open>simp add: decide_def\<close>)

lemma publish_inv:
  assumes inv: "inbox_inv m" and fresh: "rq_status r = Req_PENDING_APPROVAL"
  shows "inbox_inv (snd (publish r m))"
proof (cases "dict_get (rm_entries m) (rq_transfer_id r)")
  case None
  then show ?thesis
    using inv fresh pending_count_put [of m "rq_transfer_id r" "\<lparr>pd_request = r, pd_event = False\<rparr>"]
    by (auto simp: publish_def inbox_inv_def entry_ok_def is_pending_def Let_def)
next
  case (Some e)
  let ?e = "\<lparr>pd_request = r\<lparr>rq_status := Req_ACCEPTED\<rparr>, pd_event = True\<rparr>"
  show ?thesis
    using inv Some pending_count_put [of m "rq_transfer_id r" ?e]
    by (auto simp: publish_def inbox_inv_def entry_ok_def is_pending_def Let_def)
qed

lemma prune_inv: "inbox_inv m \<Longrightarrow> inbox_inv (prune now older m)"
proof -
  assume inv: "inbox_inv m"
  then have ok: "dict_ok (rm_entries m)" by (simp add: inbox_inv_def)
  have "filter (\<lambda>(_, e). is_pending e) (rm_entries (prune now older m))
      = filter (\<lambda>(_, e). is_pending e) (rm_entries m)"
    by (auto simp: prune_def filter_filter intro!: filter_cong)
  then have "pending_count (prune now older m) = pending_count m"
    by (simp add: pending_count_def)
  then show ?thesis
    using inv dict_get_filter [OF ok, of "\<lambda>_ e. is_pending e \<or> now - older \<le> rq_received_at (pd_request e)"]
    by (auto simp: inbox_inv_def prune_def split: option.splits if_splits)
qed

lemma inbox_step_inv: "inbox_inv m \<Longrightarrow> fresh_cmd c \<Longrightarrow> inbox_inv (inbox_step c m)"
  by (cases c rule: inbox_cmd_cases)
     (auto simp: fresh_cmd_def publish_inv prune_inv step_decision decide_inv)

text \<open>A step that ignores requests published with another status, so that the contract is closed.\<close>

definition fresh_step :: "inbox_cmd \<Rightarrow> request_manager \<Rightarrow> request_manager" where
  "fresh_step c m = (if fresh_cmd c then inbox_step c m else m)"

lemma fresh_run: "list_all fresh_cmd cs \<Longrightarrow> fold fresh_step cs m = fold inbox_step cs m"
  by (induction cs arbitrary: m) (auto simp: fresh_step_def)

interpretation inbox_machine: machine fresh_step inbox_inv
  by unfold_locales (simp add: fresh_step_def inbox_step_inv)

lemma manager_new_inv: "manager_new n = Inr m \<Longrightarrow> inbox_inv m"
  by (auto simp: manager_new_def inbox_inv_def pending_count_def split: if_splits)

section \<open>Decisions are final\<close>

definition request_state :: "request_manager \<Rightarrow> string \<Rightarrow> request_status option" where
  "request_state m tid = map_option rq_status (get_request m tid)"

definition not_prune :: "inbox_cmd \<Rightarrow> bool" where
  "not_prune c \<longleftrightarrow> (case c of Prune _ _ \<Rightarrow> False | _ \<Rightarrow> True)"

lemma decide_final:
  "request_state m k = Some v \<Longrightarrow> v \<noteq> Req_PENDING_APPROVAL \<Longrightarrow>
   request_state (snd (decide tid st reason m)) k = Some v"
  by (auto simp: request_state_def get_request_def decide_def is_pending_def Let_def split: option.splits)

lemma publish_final:
  "request_state m k = Some v \<Longrightarrow> v \<noteq> Req_PENDING_APPROVAL \<Longrightarrow>
   request_state (snd (publish r m)) k = Some v"
  by (auto simp: request_state_def get_request_def publish_def Let_def split: option.splits)

interpretation inbox_decided: decided_machine fresh_step inbox_inv request_state
    "\<lambda>v. v \<noteq> Req_PENDING_APPROVAL" not_prune
proof unfold_locales
  fix m :: request_manager and c k v
  assume "not_prune c" "request_state m k = Some v" "v \<noteq> Req_PENDING_APPROVAL"
  then show "request_state (fresh_step c m) k = Some v"
    by (cases c rule: inbox_cmd_cases)
       (auto simp: fresh_step_def not_prune_def step_decision decide_final publish_final)
qed

section \<open>Approval\<close>

text \<open>The offer an entry stands for: who sent it and what it contains.\<close>

definition offer_key :: "incoming_request \<Rightarrow> string \<times> incoming_file list \<times> nat \<times> string option" where
  "offer_key r = (rq_peer_device_id r, rq_files r, rq_total_size r, rq_message r)"

definition accepted_as ::
  "request_manager \<Rightarrow> string \<Rightarrow> string \<times> incoming_file list \<times> nat \<times> string option \<Rightarrow> bool" where
  "accepted_as m tid key \<longleftrightarrow>
     (\<exists>r. get_request m tid = Some r \<and> rq_status r = Req_ACCEPTED \<and> offer_key r = key)"

definition pending_as ::
  "request_manager \<Rightarrow> string \<Rightarrow> string \<times> incoming_file list \<times> nat \<times> string option \<Rightarrow> bool" where
  "pending_as m tid key \<longleftrightarrow>
     (\<exists>r. get_request m tid = Some r \<and> rq_status r = Req_PENDING_APPROVAL \<and> offer_key r = key)"

lemma same_offer_key: "same_offer p r \<longleftrightarrow> offer_key p = offer_key r"
  by (auto simp: same_offer_def offer_key_def)

lemma decide_accepted:
  "accepted_as (snd (decide t st reason m)) tid key \<Longrightarrow>
   accepted_as m tid key \<or> t = tid \<and> st = Req_ACCEPTED \<and> pending_as m tid key"
  by (auto simp: accepted_as_def pending_as_def get_request_def decide_def is_pending_def offer_key_def Let_def
      split: option.splits if_splits)

lemma publish_accepted:
  "rq_status r = Req_PENDING_APPROVAL \<Longrightarrow> accepted_as (snd (publish r m)) tid key \<Longrightarrow> accepted_as m tid key"
  by (auto simp: accepted_as_def get_request_def publish_def same_offer_key Let_def
      split: option.splits if_splits) (auto simp: offer_key_def)

lemma prune_accepted:
  "inbox_inv m \<Longrightarrow> accepted_as (prune now older m) tid key \<Longrightarrow> accepted_as m tid key"
  by (auto simp: accepted_as_def get_request_def prune_def inbox_inv_def dict_get_filter
      split: option.splits if_splits)

lemma step_accepted:
  assumes "inbox_inv m" "fresh_cmd c" "accepted_as (inbox_step c m) tid key"
  shows "accepted_as m tid key \<or> c = Accept tid \<and> pending_as m tid key"
proof (cases c rule: inbox_cmd_cases)
  case (decide t st reason)
  from step_decision [OF decide, of m] assms(3)
  have "accepted_as m tid key \<or> t = tid \<and> st = Req_ACCEPTED \<and> pending_as m tid key"
    by (intro decide_accepted [of t st reason m tid key]) simp
  then show ?thesis using decide by (cases c) auto
qed (use assms publish_accepted prune_accepted in \<open>auto simp: fresh_cmd_def\<close>)

lemma run_accepted:
  "inbox_inv m \<Longrightarrow> list_all fresh_cmd cs \<Longrightarrow> accepted_as (fold inbox_step cs m) tid key \<Longrightarrow>
   accepted_as m tid key \<or>
   (\<exists>pre post. cs = pre @ Accept tid # post \<and> pending_as (fold inbox_step pre m) tid key)"
proof (induction cs arbitrary: m)
  case (Cons c cs)
  have inv: "inbox_inv (inbox_step c m)" using Cons.prems by (simp add: inbox_step_inv)
  from Cons.IH [OF inv] Cons.prems
  consider "accepted_as (inbox_step c m) tid key"
    | pre post where "cs = pre @ Accept tid # post" "pending_as (fold inbox_step pre (inbox_step c m)) tid key"
    by auto
  then show ?case
  proof cases
    case 1
    then show ?thesis
      using step_accepted [of m c tid key] Cons.prems
      by (auto intro: exI [of _ "[]"])
  next
    case (2 pre post)
    then show ?thesis by (intro disjI2 exI [of _ "c # pre"] exI [of _ post]) simp
  qed
qed simp

end
