(* ===== verification/Lifecycle.thy ===== *)
theory Lifecycle
  imports Config
begin

text \<open>
  \<open>core/models.py\<close> and \<open>core/lifecycle.py\<close>: the runtime record of one file of a transfer and the
  guarded changes of its status.
\<close>

section \<open>Model\<close>

datatype transfer_direction = SEND | RECV

fun direction_value :: "transfer_direction \<Rightarrow> string" where
  "direction_value SEND = ''send''"
| "direction_value RECV = ''recv''"

datatype transfer_status =
    PENDING
  | PENDING_APPROVAL
  | ACCEPTED
  | REJECTED
  | ACTIVE
  | INTERRUPTED
  | RESUMING
  | COMPLETE
  | FAILED
  | CANCELLED

fun status_value :: "transfer_status \<Rightarrow> string" where
  "status_value PENDING = ''pending''"
| "status_value PENDING_APPROVAL = ''pending_approval''"
| "status_value ACCEPTED = ''accepted''"
| "status_value REJECTED = ''rejected''"
| "status_value ACTIVE = ''active''"
| "status_value INTERRUPTED = ''interrupted''"
| "status_value RESUMING = ''resuming''"
| "status_value COMPLETE = ''complete''"
| "status_value FAILED = ''failed''"
| "status_value CANCELLED = ''cancelled''"

definition all_statuses :: "transfer_status list" where
  "all_statuses =
     [PENDING, PENDING_APPROVAL, ACCEPTED, REJECTED, ACTIVE, INTERRUPTED, RESUMING, COMPLETE,
      FAILED, CANCELLED]"

lemma status_value_inj [simp]: "status_value s = status_value t \<longleftrightarrow> s = t"
  by (cases s; cases t) simp_all

definition terminal_statuses :: "transfer_status list" where
  "terminal_statuses = [COMPLETE, FAILED, REJECTED, CANCELLED]"

definition is_terminal :: "transfer_status \<Rightarrow> bool" where
  "is_terminal s \<longleftrightarrow> s \<in> set terminal_statuses"

lemma is_terminal_simps [simp]:
  "is_terminal COMPLETE" "is_terminal FAILED" "is_terminal REJECTED" "is_terminal CANCELLED"
  "\<not> is_terminal PENDING" "\<not> is_terminal PENDING_APPROVAL" "\<not> is_terminal ACCEPTED"
  "\<not> is_terminal ACTIVE" "\<not> is_terminal INTERRUPTED" "\<not> is_terminal RESUMING"
  by (simp_all add: is_terminal_def terminal_statuses_def)

record transfer_info =
  filename :: string
  filesize :: nat
  direction :: transfer_direction
  peer_ip :: string
  status :: transfer_status
  bytes_transferred :: nat
  started_at :: time
  error :: "string option"
  retry_count :: nat
  peer_device_id :: "string option"
  transfer_id :: string
  file_id :: "string option"
  resume_offset :: nat
  bytes_this_attempt :: nat
  completed_at :: "time option"
  message :: "string option"
  sha256 :: "string option"
  final_path :: "string option"

definition progress :: "transfer_info \<Rightarrow> rat" where
  "progress i =
     (if filesize i = 0 then 100
      else min 100 (max 0 (of_nat (bytes_transferred i) / of_nat (filesize i) * 100)))"

lemma progress_bounds: "0 \<le> progress i \<and> progress i \<le> 100"
  by (simp add: progress_def)

section \<open>Guarded transitions\<close>

fun allowed_from :: "transfer_status \<Rightarrow> transfer_status list" where
  "allowed_from PENDING = [PENDING_APPROVAL, ACTIVE, INTERRUPTED, FAILED, CANCELLED]"
| "allowed_from PENDING_APPROVAL = [ACCEPTED, REJECTED, FAILED, CANCELLED]"
| "allowed_from ACCEPTED = [ACTIVE, RESUMING, FAILED, CANCELLED]"
| "allowed_from ACTIVE = [INTERRUPTED, RESUMING, COMPLETE, FAILED, CANCELLED]"
| "allowed_from INTERRUPTED = [RESUMING, FAILED, CANCELLED]"
| "allowed_from RESUMING = [ACTIVE, INTERRUPTED, COMPLETE, FAILED, CANCELLED]"
| "allowed_from _ = []"

definition allowed :: "transfer_status \<Rightarrow> transfer_status \<Rightarrow> bool" where
  "allowed s t \<longleftrightarrow> t \<in> set (allowed_from s)"

lemma allowed_simps [simp]:
  "allowed PENDING t \<longleftrightarrow> t \<in> {PENDING_APPROVAL, ACTIVE, INTERRUPTED, FAILED, CANCELLED}"
  "allowed PENDING_APPROVAL t \<longleftrightarrow> t \<in> {ACCEPTED, REJECTED, FAILED, CANCELLED}"
  "allowed ACCEPTED t \<longleftrightarrow> t \<in> {ACTIVE, RESUMING, FAILED, CANCELLED}"
  "allowed ACTIVE t \<longleftrightarrow> t \<in> {INTERRUPTED, RESUMING, COMPLETE, FAILED, CANCELLED}"
  "allowed INTERRUPTED t \<longleftrightarrow> t \<in> {RESUMING, FAILED, CANCELLED}"
  "allowed RESUMING t \<longleftrightarrow> t \<in> {ACTIVE, INTERRUPTED, COMPLETE, FAILED, CANCELLED}"
  by (auto simp: allowed_def)

lemma terminal_stuck [simp]: "is_terminal s \<Longrightarrow> \<not> allowed s t"
  by (cases s) (simp_all add: allowed_def)

definition transition_error :: "transfer_status \<Rightarrow> transfer_status \<Rightarrow> exn" where
  "transition_error s t = InvalidTransferTransition (status_value s @ '' -> '' @ status_value t)"

text \<open>
  \<open>set_status(info, status, error=err, force=force)\<close> at time \<open>now\<close>: the updated record and whether the
  status changed. An idempotent assignment only overwrites the error when one is given.
\<close>

definition set_status_full ::
  "bool \<Rightarrow> time \<Rightarrow> transfer_info \<Rightarrow> transfer_status \<Rightarrow> string option \<Rightarrow> (transfer_info \<times> bool) result" where
  "set_status_full force now i t err =
     (if status i = t
      then Inr (if err \<noteq> None then i\<lparr>error := err\<rparr> else i, False)
      else if \<not> force \<and> \<not> allowed (status i) t then Inl (transition_error (status i) t)
      else let j = i\<lparr>status := t, error := err\<rparr>
           in Inr (if is_terminal t then j\<lparr>completed_at := Some now\<rparr> else j, True))"

text \<open>Every call of the program leaves \<open>force\<close> at its default and ignores the returned flag.\<close>

definition set_status :: "time \<Rightarrow> transfer_info \<Rightarrow> transfer_status \<Rightarrow> string option \<Rightarrow> transfer_info result" where
  "set_status now i t err = bind_result (set_status_full False now i t err) (\<lambda>(j, _). Inr j)"

lemma set_status_eq:
  "set_status now i t err =
     (if status i = t then Inr (if err \<noteq> None then i\<lparr>error := err\<rparr> else i)
      else if allowed (status i) t
           then Inr (if is_terminal t then i\<lparr>status := t, error := err, completed_at := Some now\<rparr>
                     else i\<lparr>status := t, error := err\<rparr>)
           else Inl (transition_error (status i) t))"
  by (simp add: set_status_def set_status_full_def Let_def)

lemma set_status_status: "set_status now i t err = Inr j \<Longrightarrow> status j = t"
  by (auto simp: set_status_eq split: if_splits)

lemma set_status_allowed:
  "set_status now i t err = Inr j \<Longrightarrow> status i = t \<or> allowed (status i) t"
  by (auto simp: set_status_eq split: if_splits)

lemma set_status_frame:
  assumes "set_status now i t err = Inr j"
  shows "filename j = filename i" "filesize j = filesize i" "direction j = direction i"
    "bytes_transferred j = bytes_transferred i" "transfer_id j = transfer_id i"
    "file_id j = file_id i" "resume_offset j = resume_offset i" "retry_count j = retry_count i"
    "bytes_this_attempt j = bytes_this_attempt i" "sha256 j = sha256 i" "final_path j = final_path i"
    "peer_ip j = peer_ip i" "peer_device_id j = peer_device_id i" "message j = message i"
    "started_at j = started_at i"
  using assms by (auto simp: set_status_eq split: if_splits)

text \<open>The completion time is set exactly on terminal records.\<close>

definition info_wf :: "transfer_info \<Rightarrow> bool" where
  "info_wf i \<longleftrightarrow> (completed_at i \<noteq> None \<longleftrightarrow> is_terminal (status i))"

lemma set_status_wf: "info_wf i \<Longrightarrow> set_status now i t err = Inr j \<Longrightarrow> info_wf j"
  by (auto simp: info_wf_def set_status_eq split: if_splits)

section \<open>Runs of status changes\<close>

text \<open>One attempted change; the caller of a refused one keeps the record as it was.\<close>

type_synonym status_call = "time \<times> transfer_status \<times> string option"

fun apply_call :: "status_call \<Rightarrow> transfer_info \<Rightarrow> transfer_info" where
  "apply_call (now, t, err) i = (case set_status now i t err of Inl _ \<Rightarrow> i | Inr j \<Rightarrow> j)"

interpretation info_machine: machine apply_call info_wf
  by unfold_locales (auto intro: set_status_wf split: sum.splits)

interpretation info_decided: decided_machine apply_call "\<lambda>_. True" "\<lambda>i (_ :: unit). Some (status i)"
    is_terminal "\<lambda>_. True"
proof unfold_locales
  fix s :: transfer_info and c :: status_call and k :: unit and v :: transfer_status
  assume "Some (status s) = Some v" and fin: "is_terminal v"
  then have st: "status s = v" by simp
  obtain now t err where "c = (now, t, err)" by (metis prod_cases3)
  then show "Some (status (apply_call c s)) = Some v"
    using st fin by (auto simp: set_status_eq)
qed simp

text \<open>The status changes as a step relation, and the statuses passed on the way.\<close>

inductive status_path :: "transfer_status \<Rightarrow> transfer_status list \<Rightarrow> transfer_status \<Rightarrow> bool" where
  path_refl: "status_path s [] s"
| path_step: "status_path s ts t \<Longrightarrow> allowed t u \<Longrightarrow> status_path s (ts @ [u]) u"

inductive_cases path_NilE: "status_path s [] t"

lemma path_last: "status_path s ts t \<Longrightarrow> t = last (s # ts)"
  by (induction rule: status_path.induct) auto

lemma path_from_approval:
  "status_path s ts t \<Longrightarrow> s = PENDING_APPROVAL \<Longrightarrow>
   (t \<notin> {PENDING_APPROVAL, REJECTED, FAILED, CANCELLED} \<longrightarrow> ACCEPTED \<in> set ts) \<and>
   (t = COMPLETE \<longrightarrow> ACTIVE \<in> set ts \<or> RESUMING \<in> set ts) \<and>
   (t = ACTIVE \<longrightarrow> ACTIVE \<in> set ts) \<and> (t = RESUMING \<longrightarrow> RESUMING \<in> set ts) \<and> t \<noteq> PENDING"
proof (induction rule: status_path.induct)
  case (path_step s ts t u)
  then show ?case by (cases t) auto
qed auto

lemma calls_give_path:
  "\<exists>ts. status_path (status i) ts (status (fold apply_call cs i))"
proof (induction cs rule: rev_induct)
  case Nil
  then show ?case by (auto intro: path_refl)
next
  case (snoc c cs)
  then obtain ts where path: "status_path (status i) ts (status (fold apply_call cs i))" by blast
  obtain now t err where c: "c = (now, t, err)" by (metis prod_cases3)
  let ?j = "fold apply_call cs i"
  show ?case
  proof (cases "set_status now ?j t err")
    case (Inl e)
    with path c show ?thesis by auto
  next
    case (Inr k)
    have step: "status (fold apply_call (cs @ [c]) i) = t"
      using Inr c set_status_status by simp
    from set_status_allowed [OF Inr] show ?thesis
      using path path_step [OF path, of t] unfolding step by auto
  qed
qed

end
