(* ===== verification/Receiver.thy ===== *)
theory Receiver
  imports Framing ResumeStore Inbox Lifecycle
begin

text \<open>
  The receiving session of \<open>FileServer\<close> (\<open>core/transfer.py\<close>) after the handshake: the decision on the
  offer, the negotiation of offsets, and the files. Frames are read from the socket of \<open>Framing\<close>;
  what is sent is recorded by payload, and every send can fail. Interference by other threads and
  processes comes in as arguments: the inbox commands and readiness seen at each poll, the files
  created during a commit. The clock is one argument of a session.
\<close>

section \<open>State\<close>

record recv_env =
  re_crypto :: crypto
  re_loads :: "bytes \<Rightarrow> parsed"
  re_key :: bytes
  re_now :: time
  re_peer_ip :: string
  re_peer_id :: string
  re_commit :: "string \<Rightarrow> commit_env"

record receiver =
  rc_net :: net
  rc_sends :: "exn option list"
  rc_sent :: "payload list"
  rc_fs :: fsys
  rc_infos :: "(string \<times> string, transfer_info) dict"
  rc_inbox :: request_manager
  rc_received :: "transfer_info list"

definition recv_control :: "recv_env \<Rightarrow> (receiver, json) io" where
  "recv_control e s =
     (case receive_control_frame (re_crypto e) (re_loads e) (re_key e) (rc_net s) of
        (r, net) \<Rightarrow> (r, s\<lparr>rc_net := net\<rparr>))"

definition recv_data :: "recv_env \<Rightarrow> (receiver, bytes) io" where
  "recv_data e s =
     (case receive_data_frame (re_crypto e) (re_key e) (rc_net s) of (r, net) \<Rightarrow> (r, s\<lparr>rc_net := net\<rparr>))"

definition send_frame :: "payload \<Rightarrow> (receiver, unit) io" where
  "send_frame p s =
     (case rc_sends s of
        Some e # sends \<Rightarrow> (Inl e, s\<lparr>rc_sends := sends\<rparr>)
      | None # sends \<Rightarrow> (Inr (), s\<lparr>rc_sends := sends, rc_sent := rc_sent s @ [p]\<rparr>)
      | [] \<Rightarrow> (Inr (), s\<lparr>rc_sent := rc_sent s @ [p]\<rparr>))"

definition fs_io :: "(fsys \<Rightarrow> 'a result \<times> fsys) \<Rightarrow> (receiver, 'a) io" where
  "fs_io m s = (case m (rc_fs s) of (r, fs) \<Rightarrow> (r, s\<lparr>rc_fs := fs\<rparr>))"

definition fs_mod :: "(fsys \<Rightarrow> fsys) \<Rightarrow> (receiver, unit) io" where
  "fs_mod f = fs_io (\<lambda>fs. (Inr (), f fs))"

text \<open>\<open>str(error)\<close>, as far as the program constructs the error itself.\<close>

fun exn_text :: "exn \<Rightarrow> string" where
  "exn_text (ProtocolError m) = m"
| "exn_text (TransferRejected m) = m"
| "exn_text (ApprovalTimeout m) = m"
| "exn_text (AuthenticationError m) = m"
| "exn_text (TransferCancelled m) = m"
| "exn_text (DirectConnectionError m) = m"
| "exn_text (ConnectionError m) = m"
| "exn_text (OSError m) = m"
| "exn_text (ValueError m) = m"
| "exn_text (EndpointError m) = m"
| "exn_text (InvalidTransferTransition m) = m"
| "exn_text (TypeError m) = m"
| "exn_text (KeyError m) = m"
| "exn_text (RuntimeError m) = m"
| "exn_text (InboxCapacityError m) = m"
| "exn_text (OverflowError m) = m"
| "exn_text _ = []"

section \<open>Runtime records\<close>

type_synonym info_key = "string \<times> string"

definition put_info :: "info_key \<Rightarrow> transfer_info \<Rightarrow> receiver \<Rightarrow> receiver" where
  "put_info k i s = s\<lparr>rc_infos := dict_set k i (rc_infos s)\<rparr>"

definition mod_info :: "info_key \<Rightarrow> (transfer_info \<Rightarrow> transfer_info) \<Rightarrow> (receiver, unit) io" where
  "mod_info k f s =
     (Inr (), case dict_get (rc_infos s) k of None \<Rightarrow> s | Some i \<Rightarrow> put_info k (f i) s)"

definition info_status ::
  "recv_env \<Rightarrow> info_key \<Rightarrow> transfer_status \<Rightarrow> string option \<Rightarrow> (receiver, unit) io" where
  "info_status e k st err s =
     (case dict_get (rc_infos s) k of
        None \<Rightarrow> (Inr (), s)
      | Some i \<Rightarrow> (case set_status (re_now e) i st err of
                     Inl x \<Rightarrow> (Inl x, s) | Inr j \<Rightarrow> (Inr (), put_info k j s)))"

text \<open>\<open>_get_or_create_v3_transfer\<close> for one offered file at its resume offset.\<close>

definition new_info :: "recv_env \<Rightarrow> transfer_offer \<Rightarrow> incoming_file \<Rightarrow> nat \<Rightarrow> transfer_info" where
  "new_info e offer f off =
     \<lparr>filename = ifile_name f, filesize = ifile_size f, direction = RECV, peer_ip = re_peer_ip e,
      status = (if off \<noteq> 0 then RESUMING else ACTIVE), bytes_transferred = off,
      started_at = re_now e, error = None, retry_count = 0, peer_device_id = Some (re_peer_id e),
      transfer_id = offer_id offer, file_id = Some (ifile_id f), resume_offset = off,
      bytes_this_attempt = 0, completed_at = None, message = offer_message offer,
      sha256 = Some (ifile_sha256 f), final_path = None\<rparr>"

definition reopen_info :: "incoming_file \<Rightarrow> nat \<Rightarrow> transfer_info \<Rightarrow> transfer_info" where
  "reopen_info f off i =
     (let j = i\<lparr>resume_offset := off, bytes_transferred := off, bytes_this_attempt := 0\<rparr>
      in if ifile_sha256 f \<noteq> [] \<and> sha256 j \<in> {None, Some []} then j\<lparr>sha256 := Some (ifile_sha256 f)\<rparr> else j)"

definition get_or_create_transfer ::
  "recv_env \<Rightarrow> transfer_offer \<Rightarrow> incoming_file \<Rightarrow> nat \<Rightarrow> (receiver, unit) io" where
  "get_or_create_transfer e offer f off s =
     (let k = (offer_id offer, ifile_id f) in
      case dict_get (rc_infos s) k of
        None \<Rightarrow> (Inr (), put_info k (new_info e offer f off) s)
      | Some i \<Rightarrow>
          if is_terminal (status i) then (Inr (), put_info k (reopen_info f off i) s)
          else (case set_status (re_now e) i RESUMING None of
                  Inl x \<Rightarrow> (Inl x, s)
                | Inr j \<Rightarrow>
                    (Inr (), put_info k (reopen_info f off
                       (j\<lparr>error := None, final_path := None, completed_at := None\<rparr>)) s)))"

section \<open>File data\<close>

definition cancelled_by_peer :: exn where
  "cancelled_by_peer = TransferCancelled ''Transfer cancelled by peer''"

text \<open>The checks on the control frame of one chunk; the declared size on success.\<close>

definition chunk_guard :: "transfer_offer \<Rightarrow> incoming_file \<Rightarrow> nat \<Rightarrow> nat \<Rightarrow> json \<Rightarrow> nat result" where
  "chunk_guard offer f pos index control =
     (if ojget control ''type'' = JStr ''cancel''
      then if ojget control ''transfer_id'' \<noteq> JStr (offer_id offer)
           then Inl (ProtocolError ''Cancel transfer ID mismatch'') else Inl cancelled_by_peer
      else validate_chunk_control control (offer_id offer) (ifile_id f) index pos (ifile_size f - pos))"

lemma chunk_guard_bounds:
  "chunk_guard offer f pos index control = Inr n \<Longrightarrow> 0 < n \<and> n \<le> CHUNK_SIZE \<and> n \<le> ifile_size f - pos"
  using validate_chunk_sound(1) by (auto simp: chunk_guard_def split: if_splits)

text \<open>\<open>file_handle.write\<close> at a position of a file.\<close>

definition write_at :: "nat \<Rightarrow> bytes \<Rightarrow> bytes \<Rightarrow> bytes" where
  "write_at pos bs p = take pos (p @ replicate (pos - length p) 0) @ bs @ drop (pos + length bs) p"

definition open_part :: "string \<Rightarrow> string \<Rightarrow> fsys \<Rightarrow> fsys" where
  "open_part tid fid fs = (case part_of fs tid fid of None \<Rightarrow> write_part tid fid [] fs | Some _ \<Rightarrow> fs)"

definition store_chunk :: "transfer_offer \<Rightarrow> incoming_file \<Rightarrow> nat \<Rightarrow> bytes \<Rightarrow> receiver \<Rightarrow> receiver" where
  "store_chunk offer f pos bs s =
     (let tid = offer_id offer; fid = ifile_id f;
          old = (case part_of (rc_fs s) tid fid of None \<Rightarrow> [] | Some p \<Rightarrow> p)
      in snd (mod_info (tid, fid)
                (\<lambda>i. i\<lparr>bytes_transferred := bytes_transferred i + length bs,
                       bytes_this_attempt := bytes_this_attempt i + length bs\<rparr>)
                (s\<lparr>rc_fs := write_part tid fid (write_at pos bs old) (rc_fs s)\<rparr>)))"

text \<open>
  The loop of \<open>_receive_v3_file_data\<close>: \<open>pos\<close> is \<open>info.bytes_transferred\<close>, the position in the file. Every
  accepted chunk has a positive size, so the loop ends.
\<close>

function recv_chunks ::
  "recv_env \<Rightarrow> transfer_offer \<Rightarrow> incoming_file \<Rightarrow> nat \<Rightarrow> nat \<Rightarrow> receiver \<Rightarrow> unit result \<times> receiver" where
  "recv_chunks e offer f pos index s =
     (if pos < ifile_size f
      then (case recv_control e s of
              (Inl x, s1) \<Rightarrow> (Inl x, s1)
            | (Inr control, s1) \<Rightarrow>
                (case chunk_guard offer f pos index control of
                   Inl x \<Rightarrow> (Inl x, s1)
                 | Inr declared \<Rightarrow>
                     (case recv_data e s1 of
                        (Inl x, s2) \<Rightarrow> (Inl x, s2)
                      | (Inr bs, s2) \<Rightarrow>
                          if length bs \<noteq> declared
                          then (Inl (ProtocolError ''Chunk length mismatch''), s2)
                          else recv_chunks e offer f (pos + length bs) (Suc index)
                                 (store_chunk offer f pos bs s2))))
      else (Inr (), s))"
  by pat_completeness auto
termination
  by (relation "measure (\<lambda>(e, offer, f, pos, index, s). ifile_size f - pos)")
     (auto dest!: chunk_guard_bounds intro!: diff_less_mono2)

declare recv_chunks.simps [simp del]

definition expect_file_end :: "recv_env \<Rightarrow> transfer_offer \<Rightarrow> string \<Rightarrow> (receiver, unit) io" where
  "expect_file_end e offer fid =
     io_bind (recv_control e) (\<lambda>control.
     io_lift (ensure (ProtocolError ''Invalid file finish'')
       (json_eq control (JObj [(''type'', JStr ''file_end''), (''transfer_id'', JStr (offer_id offer)),
                               (''file_id'', JStr fid)]))))"

definition recv_file_data :: "recv_env \<Rightarrow> transfer_offer \<Rightarrow> incoming_file \<Rightarrow> nat \<Rightarrow> (receiver, unit) io" where
  "recv_file_data e offer f off =
     io_bind (fs_mod (open_part (offer_id offer) (ifile_id f))) (\<lambda>_.
     io_bind (recv_chunks e offer f off (off div CHUNK_SIZE)) (\<lambda>_.
     expect_file_end e offer (ifile_id f)))"

section \<open>One file\<close>

definition hash_error :: exn where
  "hash_error = ProtocolError ''SHA-256 verification failed''"

definition file_result :: "string \<Rightarrow> string \<Rightarrow> string option \<Rightarrow> json" where
  "file_result tid fid name =
     JObj ([(''type'', JStr ''file_result''), (''transfer_id'', JStr tid), (''file_id'', JStr fid)]
           @ (case name of
                Some n \<Rightarrow> [(''ok'', JBool True), (''name'', JStr n)]
              | None \<Rightarrow> [(''ok'', JBool False), (''reason'', JStr ''SHA-256 verification failed'')]))"

text \<open>The digest check and the exposure of the file; its name in the receive directory.\<close>

definition verify_and_commit :: "recv_env \<Rightarrow> transfer_offer \<Rightarrow> incoming_file \<Rightarrow> (receiver, string) io" where
  "verify_and_commit e offer f s =
     (case part_of (rc_fs s) (offer_id offer) (ifile_id f) of
        None \<Rightarrow> (Inl (OSError ''No such file or directory''), s)
      | Some bs \<Rightarrow>
          if file_digest (re_crypto e) bs \<noteq> ifile_sha256 f
          then io_bind (send_frame (Control (file_result (offer_id offer) (ifile_id f) None)))
                 (\<lambda>_. io_lift (Inl hash_error)) s
          else io_bind (fs_io (commit_partial_file (re_commit e (ifile_id f)) (offer_id offer) (ifile_id f)
                                 (ifile_name f))) (\<lambda>name.
               io_bind (fs_io (mark_completed (offer_id offer) (ifile_id f) name)) (\<lambda>_.
               io_ret name)) s)"

definition note_received :: "info_key \<Rightarrow> (receiver, unit) io" where
  "note_received k s =
     (Inr (), case dict_get (rc_infos s) k of
                None \<Rightarrow> s | Some i \<Rightarrow> s\<lparr>rc_received := rc_received s @ [i]\<rparr>)"

text \<open>The body of the \<open>try\<close> in \<open>_receive_v3_session\<close>.\<close>

definition recv_file :: "recv_env \<Rightarrow> transfer_offer \<Rightarrow> incoming_file \<Rightarrow> resume_state \<Rightarrow> (receiver, unit) io" where
  "recv_file e offer f st =
     (let k = (offer_id offer, ifile_id f) in
      io_bind (case rs_final st of
                 None \<Rightarrow>
                   io_bind (info_status e k ACTIVE None) (\<lambda>_.
                   io_bind (recv_file_data e offer f (rs_offset st)) (\<lambda>_.
                   verify_and_commit e offer f))
               | Some name \<Rightarrow>
                   io_bind (expect_file_end e offer (ifile_id f)) (\<lambda>_. io_ret name)) (\<lambda>name.
      io_bind (\<lambda>s. mod_info k (\<lambda>i. i\<lparr>bytes_transferred := ifile_size f,
                                      final_path := Some (final_text (rc_fs s) name)\<rparr>) s) (\<lambda>_.
      io_bind (info_status e k COMPLETE None) (\<lambda>_.
      io_bind (send_frame (Control (file_result (offer_id offer) (ifile_id f) (Some name)))) (\<lambda>_.
      note_received k)))))"

text \<open>
  The \<open>except\<close> clauses around it: whether the session goes on with the next file, or the exception
  after the record's status has been set.
\<close>

definition handle_file_error :: "recv_env \<Rightarrow> info_key \<Rightarrow> exn \<Rightarrow> (receiver, bool) io" where
  "handle_file_error e k x =
     (if (case x of TransferCancelled _ \<Rightarrow> True | _ \<Rightarrow> False)
      then io_bind (info_status e k CANCELLED (Some (exn_text x))) (\<lambda>_. io_ret False)
      else if is_ProtocolError x \<or> x = InvalidTag \<or> is_ValueError x
      then io_bind (info_status e k FAILED (Some (exn_text x))) (\<lambda>_. io_lift (Inl x))
      else if is_OSError x
      then io_bind (info_status e k INTERRUPTED (Some ''Connection interrupted'')) (\<lambda>_. io_lift (Inl x))
      else io_lift (Inl x))"

definition recv_file_guarded ::
  "recv_env \<Rightarrow> transfer_offer \<Rightarrow> incoming_file \<Rightarrow> resume_state \<Rightarrow> (receiver, bool) io" where
  "recv_file_guarded e offer f st s =
     (case recv_file e offer f st s of
        (Inr _, s') \<Rightarrow> (Inr True, s')
      | (Inl x, s') \<Rightarrow> handle_file_error e (offer_id offer, ifile_id f) x s')"

definition check_file_start :: "transfer_offer \<Rightarrow> incoming_file \<Rightarrow> json \<Rightarrow> unit result" where
  "check_file_start offer f control =
     (if ojget control ''type'' = JStr ''cancel'' then Inl cancelled_by_peer
      else ensure (ProtocolError ''Invalid file start'')
             (ojget control ''type'' = JStr ''file_start'' \<and> ojget control ''transfer_id'' = JStr (offer_id offer)
              \<and> ojget control ''file_id'' = JStr (ifile_id f)))"

fun recv_files ::
  "recv_env \<Rightarrow> transfer_offer \<Rightarrow> (string, resume_state) dict \<Rightarrow> incoming_file list \<Rightarrow> (receiver \<Rightarrow> bool result \<times> receiver)" where
  "recv_files e offer sts [] s = (Inr True, s)"
| "recv_files e offer sts (f # files) s =
     io_bind (recv_control e) (\<lambda>control.
     io_bind (io_lift (check_file_start offer f control)) (\<lambda>_.
     case dict_get sts (ifile_id f) of
       None \<Rightarrow> io_lift (Inl (KeyError (ifile_id f)))
     | Some st \<Rightarrow>
         io_bind (get_or_create_transfer e offer f (rs_offset st)) (\<lambda>_.
         io_bind (recv_file_guarded e offer f st) (\<lambda>go_on.
         if go_on then recv_files e offer sts files else io_ret False)))) s"

section \<open>The session\<close>

definition recv_session :: "recv_env \<Rightarrow> transfer_offer \<Rightarrow> (receiver, unit) io" where
  "recv_session e offer =
     io_bind (recv_control e) (\<lambda>query.
     io_bind (io_lift (validate_resume_query query offer)) (\<lambda>_.
     io_bind (fs_io (prepare (re_crypto e) offer)) (\<lambda>sts.
     io_bind (send_frame (Control (resume_state_json offer sts))) (\<lambda>_.
     io_bind (recv_files e offer sts (offer_files offer)) (\<lambda>all_done.
     if \<not> all_done then io_ret ()
     else
       io_bind (recv_control e) (\<lambda>final.
       io_bind (io_lift (ensure (ProtocolError ''Invalid session finish'')
                  (json_eq final (JObj [(''type'', JStr ''fin''), (''transfer_id'', JStr (offer_id offer))])))) (\<lambda>_.
       io_bind (send_frame (Control (JObj [(''type'', JStr ''session_complete''),
                                           (''transfer_id'', JStr (offer_id offer))]))) (\<lambda>_.
       fs_mod (complete_session (offer_id offer))))))))))"

section \<open>The decision\<close>

definition inbox_io :: "(request_manager \<Rightarrow> 'a result \<times> request_manager) \<Rightarrow> (receiver, 'a) io" where
  "inbox_io m s = (case m (rc_inbox s) of (r, b) \<Rightarrow> (r, s\<lparr>rc_inbox := b\<rparr>))"

definition inbox_do :: "inbox_cmd \<Rightarrow> (receiver, unit) io" where
  "inbox_do cmd = inbox_io (\<lambda>b. (Inr (), inbox_step cmd b))"

text \<open>
  One turn of the polling loop: the inbox commands other threads have run since the last one, and
  whether the socket is readable. When the polls are used up the deadline has passed.
\<close>

type_synonym poll = "inbox_cmd list \<times> bool"

definition decided_request :: "request_manager \<Rightarrow> string \<Rightarrow> incoming_request option" where
  "decided_request b tid =
     (case get_request b tid of
        None \<Rightarrow> None | Some r \<Rightarrow> if rq_status r \<noteq> Req_PENDING_APPROVAL then Some r else None)"

fun await_decision :: "recv_env \<Rightarrow> string \<Rightarrow> poll list \<Rightarrow> (receiver \<Rightarrow> incoming_request result \<times> receiver)" where
  "await_decision e tid [] s = inbox_io (wait_for_decision tid) s"
| "await_decision e tid ((cmds, readable) # polls) s0 =
     (let s = s0\<lparr>rc_inbox := fold inbox_step cmds (rc_inbox s0)\<rparr> in
      case decided_request (rc_inbox s) tid of
        Some r \<Rightarrow> (Inr r, s)
      | None \<Rightarrow>
          if \<not> readable then await_decision e tid polls s
          else
            (case recv_control e s of
               (Inl x, s1) \<Rightarrow>
                 if is_OSError x
                 then io_bind (inbox_do (Cancel tid ''Peer disconnected'')) (\<lambda>_. io_lift (Inl x)) s1
                 else (Inl x, s1)
             | (Inr control, s1) \<Rightarrow>
                 if \<not> json_eq control (JObj [(''type'', JStr ''cancel''), (''transfer_id'', JStr tid)])
                 then io_bind (inbox_do (RejectReq tid ''Invalid transfer protocol''))
                        (\<lambda>_. io_lift (Inl (ProtocolError ''File payload sent before approval''))) s1
                 else await_decision e tid polls
                        (snd (inbox_do (Cancel tid ''Cancelled by peer'') s1))))"

definition make_request :: "recv_env \<Rightarrow> string option \<Rightarrow> transfer_offer \<Rightarrow> incoming_request" where
  "make_request e peer_name offer =
     \<lparr>rq_transfer_id = offer_id offer, rq_peer_device_id = re_peer_id e, rq_peer_ip = re_peer_ip e,
      rq_peer_name = peer_name, rq_files = offer_files offer, rq_total_size = offer_total offer,
      rq_message = offer_message offer, rq_received_at = re_now e, rq_status = Req_PENDING_APPROVAL,
      rq_reason = None\<rparr>"

definition send_response :: "string \<Rightarrow> bool \<Rightarrow> string option \<Rightarrow> (receiver, unit) io" where
  "send_response tid accepted reason =
     io_bind (io_lift (build_response tid accepted reason)) (\<lambda>r. send_frame (Control r))"

text \<open>
  \<open>_receive_session\<close> from the offer on, with an inbox (the program always has one): the whole exchange
  with an authenticated peer.
\<close>

definition serve_offer :: "recv_env \<Rightarrow> string option \<Rightarrow> poll list \<Rightarrow> (receiver, unit) io" where
  "serve_offer e peer_name polls =
     io_bind (recv_control e) (\<lambda>raw.
     io_bind (io_lift (validate_offer raw)) (\<lambda>offer s.
     case publish (make_request e peer_name offer) (rc_inbox s) of
       (Inl (InboxCapacityError _), b) \<Rightarrow>
         send_response (offer_id offer) False (Some ''Receiver is busy'') (s\<lparr>rc_inbox := b\<rparr>)
     | (Inl (ValueError _), b) \<Rightarrow>
         (Inl (ProtocolError ''Conflicting transfer request''), s\<lparr>rc_inbox := b\<rparr>)
     | (Inl x, b) \<Rightarrow> (Inl x, s\<lparr>rc_inbox := b\<rparr>)
     | (Inr _, b) \<Rightarrow>
         io_bind (await_decision e (offer_id offer) polls) (\<lambda>decided.
         io_bind (send_response (offer_id offer) (rq_status decided = Req_ACCEPTED) (rq_reason decided)) (\<lambda>_.
         if rq_status decided = Req_ACCEPTED then recv_session e offer else io_ret ())) (s\<lparr>rc_inbox := b\<rparr>)))"

text \<open>The frame of an offer with a message of the maximal length is over the limit of a control frame.\<close>

lemma long_offer_bytes:
  assumes "transfer_id_ok (offer_id offer)" "offer_message offer = Some m" "MAX_TRANSFER_MESSAGE_LENGTH \<le> length m"
  shows "HEADER_MAX_SIZE + 64 < length (payload_bytes fr (Control (offer_json offer))) + 28"
proof -
  have m: "m \<noteq> []" "4098 \<le> length (dump_string m)"
    using assms(3) length_dump_string [of m] by (auto simp: MAX_TRANSFER_MESSAGE_LENGTH_def)
  moreover have "34 \<le> length (dump_string (offer_id offer))"
    using assms(1) length_dump_string [of "offer_id offer"] by (simp add: transfer_id_ok_def)
  moreover have "6 \<le> length (dump_string ''type'')" using length_dump_string [of "''type''"] by simp
  ultimately show ?thesis
    using assms(2) by (simp add: payload_bytes_def offer_json_def HEADER_MAX_SIZE_def)
qed

end
