(* ===== verification/ReceiverSafety.thy ===== *)
theory ReceiverSafety
  imports Receiver
begin

text \<open>
  What a receiving session can do to the receive directory, whatever the peer sends and wherever it
  fails: files come only from verified content (or from other processes), nothing is overwritten,
  and nothing at all changes unless the offer was accepted.
\<close>

section \<open>Operations that leave the directory alone\<close>

definition files_of :: "receiver \<Rightarrow> string \<Rightarrow> bytes option" where
  "files_of s = file_at (rc_fs s)"

lemma files_frame [simp]:
  "files_of (snd (recv_control e s)) = files_of s"
  "files_of (snd (recv_data e s)) = files_of s"
  "files_of (snd (send_frame p s)) = files_of s"
  "files_of (snd (mod_info k g s)) = files_of s"
  "files_of (snd (info_status e k st err s)) = files_of s"
  "files_of (snd (get_or_create_transfer e offer f off s)) = files_of s"
  "files_of (snd (note_received k s)) = files_of s"
  "files_of (snd (inbox_io m s)) = files_of s"
  by (auto simp: files_of_def recv_control_def recv_data_def send_frame_def mod_info_def info_status_def
      get_or_create_transfer_def note_received_def put_info_def inbox_io_def Let_def
      split: prod.splits list.splits option.splits sum.splits)

lemma files_store_chunk [simp]: "files_of (store_chunk offer f pos bs s) = files_of s"
  by (auto simp: files_of_def store_chunk_def mod_info_def put_info_def Let_def split: option.splits)

lemma files_recv_chunks [simp]: "files_of (snd (recv_chunks e offer f pos index s)) = files_of s"
proof (induction e offer f pos index s rule: recv_chunks.induct)
  case (1 e offer f pos index s)
  have c: "recv_control e s = (r, s1) \<Longrightarrow> files_of s1 = files_of s" for r s1
    by (metis files_frame(1) snd_conv)
  have d: "recv_data e s1 = (r, s2) \<Longrightarrow> files_of s2 = files_of s1" for r s1 s2
    by (metis files_frame(2) snd_conv)
  show ?case
    by (subst recv_chunks.simps) (auto simp: 1 c d split: prod.splits sum.splits)
qed

section \<open>Relations between the directory before and after\<close>

text \<open>
  A preorder on directory contents that every commit of an offered file respects is respected by the
  whole session.
\<close>

locale directory_relation =
  fixes Q :: "(string \<Rightarrow> bytes option) \<Rightarrow> (string \<Rightarrow> bytes option) \<Rightarrow> bool"
    and e :: recv_env
    and offer :: transfer_offer
  assumes Q_refl: "Q d d"
    and Q_trans: "Q d d' \<Longrightarrow> Q d' d'' \<Longrightarrow> Q d d''"
    and Q_commit: "f \<in> set (offer_files offer) \<Longrightarrow> Q (files_of s) (files_of (snd (verify_and_commit e offer f s)))"

sublocale directory_relation \<subseteq> state_preorder "\<lambda>s s'. Q (files_of s) (files_of s')"
  by unfold_locales (auto intro: Q_refl Q_trans)

context directory_relation
begin

abbreviation ok :: "(receiver, 'a) io \<Rightarrow> bool" where
  "ok \<equiv> all_runs (\<lambda>s s'. Q (files_of s) (files_of s'))"

lemma same_ok: "(\<And>s. files_of (snd (m s)) = files_of s) \<Longrightarrow> ok m"
  by (rule all_runsI) (simp add: Q_refl)

lemma base_ok:
  "ok (recv_control e')" "ok (recv_data e')" "ok (send_frame p)" "ok (mod_info k g)"
  "ok (info_status e' k st err)" "ok (get_or_create_transfer e' off f n)" "ok (note_received k)"
  "ok (recv_chunks e' off f pos index)" "ok (inbox_io m)"
  by (rule same_ok, simp)+

lemma fs_ok: "(\<And>fs. file_at (snd (m fs)) = file_at fs) \<Longrightarrow> ok (fs_io m)"
  by (rule same_ok) (simp add: fs_io_def files_of_def case_prod_unfold)

lemma file_end_ok: "ok (expect_file_end e' off fid)"
  unfolding expect_file_end_def by (intro runs_bind runs_lift base_ok)

lemma file_data_ok: "ok (recv_file_data e' off f n)"
proof -
  have "ok (fs_mod (open_part t g))" for t g
    unfolding fs_mod_def by (rule fs_ok) (auto simp: open_part_def split: option.splits)
  then show ?thesis unfolding recv_file_data_def by (intro runs_bind base_ok file_end_ok)
qed

lemma mod_state_ok: "ok (\<lambda>s. mod_info k (g s) s)"
  by (rule same_ok) simp

lemma recv_file_ok: "f \<in> set (offer_files offer) \<Longrightarrow> ok (recv_file e offer f st)"
proof -
  assume "f \<in> set (offer_files offer)"
  then have "ok (verify_and_commit e offer f)" by (intro all_runsI Q_commit)
  then show ?thesis
    unfolding recv_file_def Let_def
    by (cases "rs_final st") (auto intro!: runs_bind runs_ret base_ok file_data_ok file_end_ok mod_state_ok)
qed

lemma handle_ok: "ok (handle_file_error e' k x)"
  unfolding handle_file_error_def by (intro runs_if runs_bind runs_ret runs_lift base_ok)

lemma recv_file_guarded_ok: "f \<in> set (offer_files offer) \<Longrightarrow> ok (recv_file_guarded e offer f st)"
proof (rule all_runsI)
  fix s assume f: "f \<in> set (offer_files offer)"
  obtain r s1 where r: "recv_file e offer f st s = (r, s1)" by force
  have "Q (files_of s) (files_of s1)" using all_runsD [OF recv_file_ok [OF f] r] .
  moreover have "Q (files_of s1) (files_of (snd (handle_file_error e' k x s1)))" for e' k x
    using handle_ok by (auto simp: all_runs_def)
  ultimately show "Q (files_of s) (files_of (snd (recv_file_guarded e offer f st s)))"
    using r Q_trans by (auto simp: recv_file_guarded_def split: sum.splits)
qed

lemma recv_files_ok: "set files \<subseteq> set (offer_files offer) \<Longrightarrow> ok (recv_files e offer sts files)"
proof (induction files)
  case Nil
  then show ?case by (simp add: all_runs_def Q_refl)
next
  case (Cons f files)
  have ind: "ok (case dict_get sts (ifile_id f) of
       None \<Rightarrow> io_lift (Inl (KeyError (ifile_id f)))
     | Some st \<Rightarrow> io_bind (get_or_create_transfer e offer f (rs_offset st)) (\<lambda>_.
         io_bind (recv_file_guarded e offer f st) (\<lambda>go_on.
         if go_on then recv_files e offer sts files else io_ret False)))"
    using Cons recv_file_guarded_ok
    by (cases "dict_get sts (ifile_id f)") (auto intro!: runs_bind runs_ret runs_lift base_ok)
  have "ok (io_bind (recv_control e) (\<lambda>control. io_bind (io_lift (check_file_start offer f control)) (\<lambda>_.
     case dict_get sts (ifile_id f) of
       None \<Rightarrow> io_lift (Inl (KeyError (ifile_id f)))
     | Some st \<Rightarrow> io_bind (get_or_create_transfer e offer f (rs_offset st)) (\<lambda>_.
         io_bind (recv_file_guarded e offer f st) (\<lambda>go_on.
         if go_on then recv_files e offer sts files else io_ret False)))))"
    by (intro runs_bind base_ok runs_lift ind)
  then show ?case by (simp add: all_runs_def)
qed

lemma recv_session_ok:
  assumes "distinct (map ifile_id (offer_files offer))"
  shows "ok (recv_session e offer)"
proof -
  have "file_at (snd (prepare c offer fs)) = file_at fs" for c fs
  proof (cases "prepare c offer fs")
    case (Pair r fs')
    then show ?thesis
      using prepare_sound(1) [OF _ assms] by (cases r) (auto simp: prepare_def split: sum.splits prod.splits)
  qed
  then have prep: "ok (fs_io (prepare c offer))" for c by (rule fs_ok)
  have "ok (fs_mod (complete_session t))" for t
    unfolding fs_mod_def by (rule fs_ok) (simp add: fun_eq_iff)
  then show ?thesis
    unfolding recv_session_def
    by (intro runs_bind runs_if runs_ret runs_lift base_ok prep recv_files_ok) simp_all
qed

end

section \<open>Every exposed file is verified\<close>

text \<open>
  The files of a later directory: there before, made by another process, with an offered digest, or the empty
  reservation of a commit that failed and whose removal failed too.
\<close>

definition verified_origin ::
  "recv_env \<Rightarrow> transfer_offer \<Rightarrow> (string \<Rightarrow> bytes option) \<Rightarrow> (string \<Rightarrow> bytes option) \<Rightarrow> bool" where
  "verified_origin e offer d d' \<longleftrightarrow>
     (\<forall>n bs. d' n = Some bs \<longrightarrow>
        d n = Some bs \<or>
        (\<exists>f \<in> set (offer_files offer).
           file_digest (re_crypto e) bs = ifile_sha256 f \<or> foreign (re_commit e (ifile_id f)) n bs
           \<or> leftover (re_commit e (ifile_id f)) bs))"

text \<open>The names other processes and the temporary copies may use.\<close>

definition untouched :: "recv_env \<Rightarrow> transfer_offer \<Rightarrow> string \<Rightarrow> bool" where
  "untouched e offer n \<longleftrightarrow>
     (\<forall>f \<in> set (offer_files offer).
        n \<noteq> ce_temp (re_commit e (ifile_id f)) \<and> n \<notin> fst ` set (concat (ce_races (re_commit e (ifile_id f)))))"

definition never_overwritten ::
  "recv_env \<Rightarrow> transfer_offer \<Rightarrow> (string \<Rightarrow> bytes option) \<Rightarrow> (string \<Rightarrow> bytes option) \<Rightarrow> bool" where
  "never_overwritten e offer d d' \<longleftrightarrow>
     (\<forall>n bs. untouched e offer n \<longrightarrow> d n = Some bs \<longrightarrow> d' n = Some bs)"

lemma mark_completed_files: "mark_completed tid fid name fs = (r, fs') \<Longrightarrow> file_at fs' = file_at fs"
  by (auto simp: mark_completed_def fun_eq_iff split: sum.splits json.splits)

text \<open>What the commit step does to the directory: nothing, or one commit of content with the right digest.\<close>

lemma verify_and_commit_files:
  obtains "files_of (snd (verify_and_commit e offer f s)) = files_of s"
  | bs r fs' where "part_of (rc_fs s) (offer_id offer) (ifile_id f) = Some bs"
      "file_digest (re_crypto e) bs = ifile_sha256 f"
      "commit_partial_file (re_commit e (ifile_id f)) (offer_id offer) (ifile_id f) (ifile_name f) (rc_fs s) = (r, fs')"
      "files_of (snd (verify_and_commit e offer f s)) = file_at fs'"
proof (cases "part_of (rc_fs s) (offer_id offer) (ifile_id f)")
  case None
  then show thesis using that(1) by (simp add: verify_and_commit_def)
next
  case (Some bs)
  show thesis
  proof (cases "file_digest (re_crypto e) bs = ifile_sha256 f")
    case False
    have "files_of (snd (io_bind (send_frame p) (\<lambda>_. io_lift (Inl hash_error)) s)) = files_of s" for p
      using files_frame(3) [of p s]
      by (cases "send_frame p s") (auto simp: io_bind_def split: sum.splits)
    then show thesis
      by (intro that(1)) (simp add: verify_and_commit_def Some False)
  next
    case True
    obtain r fs' where c: "commit_partial_file (re_commit e (ifile_id f)) (offer_id offer) (ifile_id f)
        (ifile_name f) (rc_fs s) = (r, fs')" by force
    have "files_of (snd (verify_and_commit e offer f s)) = file_at fs'"
      using Some True c
      by (cases r) (auto simp: verify_and_commit_def io_bind_def fs_io_def files_of_def mark_completed_files split: prod.splits sum.splits)
    with Some True c show thesis using that(2) by blast
  qed
qed

interpretation origin: directory_relation "verified_origin e offer" e offer for e offer
proof
  fix f s assume f: "f \<in> set (offer_files offer)"
  show "verified_origin e offer (files_of s) (files_of (snd (verify_and_commit e offer f s)))"
  proof (cases e offer f s rule: verify_and_commit_files)
    case (2 bs r fs')
    then show ?thesis
      using commit_origin [OF 2(3)] f by (fastforce simp: verified_origin_def files_of_def)
  qed (simp add: verified_origin_def)
qed (fastforce simp: verified_origin_def)+

interpretation keeping: directory_relation "never_overwritten e offer" e offer for e offer
proof
  fix f s assume f: "f \<in> set (offer_files offer)"
  show "never_overwritten e offer (files_of s) (files_of (snd (verify_and_commit e offer f s)))"
  proof (cases e offer f s rule: verify_and_commit_files)
    case (2 bs r fs')
    then show ?thesis
      using commit_keeps [OF 2(3)] f by (auto simp: never_overwritten_def files_of_def untouched_def)
  qed (simp add: never_overwritten_def)
qed (auto simp: never_overwritten_def)

section \<open>Nothing is received without an acceptance\<close>

lemma files_inbox_update [simp]: "files_of (s\<lparr>rc_inbox := b\<rparr>) = files_of s"
  by (simp add: files_of_def)

lemma io_bind_files:
  "files_of (snd (m s)) = files_of s \<Longrightarrow> (\<And>x t. files_of (snd (f x t)) = files_of t) \<Longrightarrow>
   files_of (snd (io_bind m f s)) = files_of s"
  by (cases "m s") (auto simp: io_bind_def split: sum.splits)

lemma await_files [simp]: "files_of (snd (await_decision e tid polls s)) = files_of s"
proof (induction e tid polls s rule: await_decision.induct)
  case (1 e tid s)
  then show ?case by simp
next
  case (2 e tid cmds readable polls s0)
  let ?s = "s0\<lparr>rc_inbox := fold inbox_step cmds (rc_inbox s0)\<rparr>"
  have c: "recv_control e ?s = (r, s1) \<Longrightarrow> files_of s1 = files_of s0" for r s1
    using files_frame(1) [of e ?s] by simp
  have b: "files_of (snd (inbox_do cmd t)) = files_of t" for cmd t by (simp add: inbox_do_def)
  have bb: "io_bind (inbox_do cmd) (\<lambda>_. io_lift r) t = (r', t') \<Longrightarrow> files_of t' = files_of t" for cmd t
      and r r' :: "incoming_request result" and t'
    using io_bind_files [of "inbox_do cmd" t "\<lambda>_. io_lift r"] b by simp
  show ?case
  proof (cases "decided_request (rc_inbox ?s) tid")
    case None
    note undecided = this
    show ?thesis
    proof (cases readable)
      case True
      obtain r s1 where r: "recv_control e ?s = (r, s1)" by force
      show ?thesis
      proof (cases r)
        case (Inl x)
        show ?thesis
          using undecided True r Inl c [OF r] bb
          by (cases "io_bind (inbox_do (Cancel tid ''Peer disconnected'')) (\<lambda>_. io_lift (Inl x :: incoming_request result)) s1")
             (auto simp: Let_def)
      next
        case (Inr control)
        let ?cancel = "JObj [(''type'', JStr ''cancel''), (''transfer_id'', JStr tid)]"
        show ?thesis
        proof (cases "json_eq control ?cancel")
          case True
          then show ?thesis
            using undecided \<open>readable\<close> r Inr c [OF r] 2(2) [OF refl undecided] b
            by (simp add: Let_def)
        next
          case False
          then show ?thesis
            using undecided \<open>readable\<close> r Inr c [OF r] bb
            by (cases "io_bind (inbox_do (RejectReq tid ''Invalid transfer protocol''))
                  (\<lambda>_. io_lift (Inl (ProtocolError ''File payload sent before approval'') :: incoming_request result)) s1")
               (auto simp: Let_def)
        qed
      qed
    qed (use undecided 2(1) [OF refl undecided] in \<open>simp add: Let_def\<close>)
  qed (simp add: Let_def)
qed

lemma send_response_files [simp]: "files_of (snd (send_response tid acc reason s)) = files_of s"
  unfolding send_response_def by (rule io_bind_files) simp_all

lemma serve_offer_cases:
  assumes "serve_offer e pn polls s = (r, s')"
  obtains (same) "files_of s' = files_of s"
  | (accepted) raw s1 offer b d s2 s3 where "recv_control e s = (Inr raw, s1)" "validate_offer raw = Inr offer"
      "publish (make_request e pn offer) (rc_inbox s1) = (Inr (), b)"
      "await_decision e (offer_id offer) polls (s1\<lparr>rc_inbox := b\<rparr>) = (Inr d, s2)"
      "rq_status d = Req_ACCEPTED" "send_response (offer_id offer) True (rq_reason d) s2 = (Inr (), s3)"
      "recv_session e offer s3 = (r, s')" "files_of s3 = files_of s"
proof (cases "files_of s' = files_of s")
  case True
  then show thesis by (rule same)
next
  case False
  obtain rc s1 where rc: "recv_control e s = (rc, s1)" by force
  have s1: "files_of s1 = files_of s" using rc files_frame(1) [of e s] by simp
  obtain raw where raw: "rc = Inr raw"
    using assms False rc s1 by (cases rc) (auto simp: serve_offer_def io_bind_def)
  obtain offer where offer: "validate_offer raw = Inr offer"
    using assms False rc s1 raw by (cases "validate_offer raw") (auto simp: serve_offer_def io_bind_def)
  obtain pr b where pub: "publish (make_request e pn offer) (rc_inbox s1) = (pr, b)" by force
  have busy: "send_response t acc rs (s1\<lparr>rc_inbox := b\<rparr>) = (r, s') \<Longrightarrow> False" for t acc rs
    using False s1 send_response_files [of t acc rs "s1\<lparr>rc_inbox := b\<rparr>"] by simp
  have pr: "pr = Inr ()"
    using assms False rc s1 raw offer pub busy
    by (cases pr) (auto simp: serve_offer_def io_bind_def split: exn.splits)
  obtain ar s2 where aw: "await_decision e (offer_id offer) polls (s1\<lparr>rc_inbox := b\<rparr>) = (ar, s2)" by force
  have s2: "files_of s2 = files_of s" using aw s1 await_files [of e "offer_id offer" polls "s1\<lparr>rc_inbox := b\<rparr>"] by simp
  obtain d where d: "ar = Inr d"
    using assms False rc s2 raw offer pub pr aw
    by (cases ar) (auto simp: serve_offer_def io_bind_def)
  obtain sr s3 where sr: "send_response (offer_id offer) (rq_status d = Req_ACCEPTED) (rq_reason d) s2 = (sr, s3)" by force
  have s3: "files_of s3 = files_of s"
    using sr s2 send_response_files [of "offer_id offer" "rq_status d = Req_ACCEPTED" "rq_reason d" s2] by simp
  have rest: "sr = Inr () \<and> rq_status d = Req_ACCEPTED \<and> recv_session e offer s3 = (r, s')"
    using assms False rc s3 raw offer pub pr aw d sr
    by (cases sr) (auto simp: serve_offer_def io_bind_def split: if_splits)
  show thesis
    using accepted [of raw s1 offer b d s2 s3] rc raw offer pub pr aw d sr s3 rest by simp
qed

text \<open>While entries are not pruned, a published offer stays in the inbox with its contents.\<close>

definition holds_offer ::
  "request_manager \<Rightarrow> string \<Rightarrow> string \<times> incoming_file list \<times> nat \<times> string option \<Rightarrow> bool" where
  "holds_offer m tid key \<longleftrightarrow> (\<exists>r. get_request m tid = Some r \<and> offer_key r = key)"

lemma holds_decide: "holds_offer m tid key \<Longrightarrow> holds_offer (snd (decide t st reason m)) tid key"
  by (auto simp: holds_offer_def get_request_def decide_def offer_key_def Let_def split: option.splits)

lemma holds_publish: "holds_offer m tid key \<Longrightarrow> holds_offer (snd (publish r m)) tid key"
  by (auto simp: holds_offer_def get_request_def publish_def same_offer_key Let_def split: option.splits)
     (auto simp: offer_key_def)

lemma holds_step: "holds_offer m tid key \<Longrightarrow> not_prune c \<Longrightarrow> holds_offer (inbox_step c m) tid key"
  by (cases c) (auto simp: not_prune_def holds_publish holds_decide accept_request_def reject_request_def
      cancel_request_def expire_def)

lemma holds_run: "holds_offer m tid key \<Longrightarrow> list_all not_prune cs \<Longrightarrow> holds_offer (fold inbox_step cs m) tid key"
  by (induction cs arbitrary: m) (auto intro: holds_step)

lemma inbox_run_inv: "inbox_inv m \<Longrightarrow> list_all fresh_cmd cs \<Longrightarrow> inbox_inv (fold inbox_step cs m)"
  using inbox_machine.run_inv [of m cs] by (simp add: fresh_run)

lemma recv_control_inbox: "recv_control e s = (r, s1) \<Longrightarrow> rc_inbox s1 = rc_inbox s"
  by (auto simp: recv_control_def split: prod.splits)

text \<open>How an offer came to be accepted: it was, or an accept ran while exactly this offer was pending.\<close>

definition accepted_by ::
  "request_manager \<Rightarrow> inbox_cmd list \<Rightarrow> string \<Rightarrow> string \<times> incoming_file list \<times> nat \<times> string option \<Rightarrow> bool" where
  "accepted_by m cs tid key \<longleftrightarrow>
     accepted_as m tid key \<or> (\<exists>pre post. cs = pre @ Accept tid # post \<and> pending_as (fold inbox_step pre m) tid key)"

lemma accepted_by_run:
  "inbox_inv m \<Longrightarrow> list_all fresh_cmd cs \<Longrightarrow> accepted_as (fold inbox_step cs m) tid key \<Longrightarrow> accepted_by m (cs @ ds) tid key"
  unfolding accepted_by_def using run_accepted [of m cs tid key] by (metis append.assoc append_Cons)

lemma accepted_by_prefix:
  assumes "inbox_inv m" "list_all fresh_cmd cs" "accepted_by (fold inbox_step cs m) ds tid key"
  shows "accepted_by m (cs @ ds) tid key"
  using assms(3) unfolding accepted_by_def [of "fold inbox_step cs m"]
proof
  assume "accepted_as (fold inbox_step cs m) tid key"
  with assms(1,2) show ?thesis by (rule accepted_by_run)
next
  assume "\<exists>pre post. ds = pre @ Accept tid # post \<and> pending_as (fold inbox_step pre (fold inbox_step cs m)) tid key"
  then obtain pre post where "ds = pre @ Accept tid # post" "pending_as (fold inbox_step pre (fold inbox_step cs m)) tid key"
    by blast
  then have "cs @ ds = (cs @ pre) @ Accept tid # post" "pending_as (fold inbox_step (cs @ pre) m) tid key" by simp_all
  then show ?thesis unfolding accepted_by_def by blast
qed

text \<open>Once cancelled, an offer is never accepted: decisions are final.\<close>

lemma cancelled_never_accepted:
  assumes "inbox_inv m" "pending_as m tid key" "list_all (\<lambda>c. fresh_cmd c \<and> not_prune c) ds"
  shows "\<not> accepted_by (inbox_step (Cancel tid reason) m) ds tid key'"
proof -
  let ?m = "inbox_step (Cancel tid reason) m"
  have state: "request_state ?m tid = Some Req_CANCELLED"
    using assms(2)
    by (auto simp: pending_as_def request_state_def get_request_def cancel_request_def decide_def is_pending_def Let_def)
  have inv: "inbox_inv ?m" using assms(1) by (intro inbox_step_inv) (simp_all add: fresh_cmd_def)
  have final: "request_state (fold inbox_step cs ?m) tid = Some Req_CANCELLED"
    if "list_all (\<lambda>c. fresh_cmd c \<and> not_prune c) cs" for cs
    using inbox_decided.run_final [OF inv _ state, of cs] fresh_run [of cs ?m] that
    by (auto simp: list_all_iff)
  show ?thesis
  proof
    assume "accepted_by ?m ds tid key'"
    then show False
      using state final assms(3)
      by (fastforce simp: accepted_by_def accepted_as_def pending_as_def request_state_def)
  qed
qed

lemma await_accepted:
  "await_decision e tid polls s = (Inr d, s') \<Longrightarrow> rq_status d = Req_ACCEPTED \<Longrightarrow>
   inbox_inv (rc_inbox s) \<Longrightarrow> list_all (\<lambda>c. fresh_cmd c \<and> not_prune c) (concat (map fst polls)) \<Longrightarrow>
   holds_offer (rc_inbox s) tid key \<Longrightarrow>
   accepted_by (rc_inbox s) (concat (map fst polls)) tid key"
proof (induction e tid polls s rule: await_decision.induct)
  case (1 e tid s)
  let ?m = "rc_inbox s"
  obtain entry where en: "dict_get (rm_entries ?m) tid = Some entry"
    using 1(5) by (auto simp: holds_offer_def get_request_def)
  let ?m' = "if pd_event entry then ?m else expire tid ?m"
  have d: "get_request ?m' tid = Some d"
    using 1(1) en by (auto simp: inbox_io_def wait_for_decision_def Let_def split: option.splits)
  have "holds_offer ?m' tid key"
    using 1(5) holds_step [of ?m tid key "Expire tid"] by (simp add: not_prune_def)
  then have "accepted_as ?m' tid key"
    using d 1(2) by (auto simp: accepted_as_def holds_offer_def)
  then show ?case
    using step_accepted [OF 1(3), of "Expire tid" tid key]
    by (auto simp: accepted_by_def fresh_cmd_def split: if_splits)
next
  case (2 e tid cmds readable polls s0)
  let ?s = "s0\<lparr>rc_inbox := fold inbox_step cmds (rc_inbox s0)\<rparr>"
  have cmds: "list_all fresh_cmd cmds" "list_all not_prune cmds"
    and rest: "list_all (\<lambda>c. fresh_cmd c \<and> not_prune c) (concat (map fst polls))"
    using 2(6) by (auto simp: list_all_iff)
  have inv: "inbox_inv (rc_inbox ?s)" using inbox_run_inv [OF 2(5) cmds(1)] by simp
  have held: "holds_offer (rc_inbox ?s) tid key" using holds_run [OF 2(7) cmds(2)] by simp
  show ?case
  proof (cases "decided_request (rc_inbox ?s) tid")
    case (Some r)
    then have "get_request (rc_inbox ?s) tid = Some d"
      using 2(3) by (auto simp: decided_request_def Let_def split: option.splits if_splits)
    with held 2(4) have "accepted_as (rc_inbox ?s) tid key"
      by (auto simp: accepted_as_def holds_offer_def)
    then show ?thesis using accepted_by_run [OF 2(5) cmds(1)] by simp
  next
    case None
    note undecided = this
    have "accepted_by (rc_inbox ?s) (concat (map fst polls)) tid key"
    proof (cases readable)
      case False
      with 2(3) undecided have "await_decision e tid polls ?s = (Inr d, s')" by (simp add: Let_def)
      from 2(1) [OF refl undecided False this 2(4) inv rest held] show ?thesis .
    next
      case True
      obtain r s1 where r: "recv_control e ?s = (r, s1)" by force
      have inb: "rc_inbox s1 = rc_inbox ?s" using r by (rule recv_control_inbox)
      obtain control where control: "r = Inr control"
        "json_eq control (JObj [(''type'', JStr ''cancel''), (''transfer_id'', JStr tid)])"
        using 2(3) undecided True r
        by (cases r) (auto simp: Let_def io_bind_def inbox_do_def inbox_io_def split: if_splits)
      let ?s2 = "snd (inbox_do (Cancel tid ''Cancelled by peer'') s1)"
      have s2: "rc_inbox ?s2 = inbox_step (Cancel tid ''Cancelled by peer'') (rc_inbox ?s)"
        using inb by (simp add: inbox_do_def inbox_io_def)
      have aw: "await_decision e tid polls ?s2 = (Inr d, s')"
        using 2(3) undecided True r control by (simp add: Let_def)
      have "accepted_by (rc_inbox ?s2) (concat (map fst polls)) tid key"
      proof (rule 2(2) [OF refl undecided _ r [symmetric] control(1) _ aw 2(4) _ rest])
        show "inbox_inv (rc_inbox ?s2)"
          unfolding s2 by (rule inbox_step_inv [OF inv]) (simp add: fresh_cmd_def)
        show "holds_offer (rc_inbox ?s2) tid key"
          unfolding s2 by (rule holds_step [OF held]) (simp add: not_prune_def)
      qed (use True control in auto)
      moreover have "pending_as (rc_inbox ?s) tid key"
        using held undecided
        by (auto simp: holds_offer_def pending_as_def decided_request_def split: option.splits if_splits)
      ultimately show ?thesis using cancelled_never_accepted [OF inv _ rest] s2 by metis
    qed
    then show ?thesis using accepted_by_prefix [OF 2(5) cmds(1)] by simp
  qed
qed

lemma publish_holds:
  "publish r m = (Inr (), b) \<Longrightarrow> holds_offer b (rq_transfer_id r) (offer_key r)"
  by (auto simp: publish_def holds_offer_def get_request_def Let_def offer_key_def split: option.splits if_splits)

definition request_key :: "recv_env \<Rightarrow> transfer_offer \<Rightarrow> string \<times> incoming_file list \<times> nat \<times> string option" where
  "request_key e offer = (re_peer_id e, offer_files offer, offer_total offer, offer_message offer)"

text \<open>The offer a session starts with, when its first frame is a valid one.\<close>

definition offer_of :: "recv_env \<Rightarrow> receiver \<Rightarrow> transfer_offer option" where
  "offer_of e s =
     (case recv_control e s of
        (Inl _, _) \<Rightarrow> None
      | (Inr raw, _) \<Rightarrow> (case validate_offer raw of Inl _ \<Rightarrow> None | Inr offer \<Rightarrow> Some offer))"

lemma serve_changes:
  assumes "serve_offer e pn polls s = (r, s')"
  shows "files_of s' = files_of s \<or>
    (\<exists>offer. offer_of e s = Some offer \<and> verified_origin e offer (files_of s) (files_of s')
            \<and> never_overwritten e offer (files_of s) (files_of s'))"
  using assms
proof (cases rule: serve_offer_cases)
  case (accepted raw s1 offer b d s2 s3)
  have ids: "distinct (map ifile_id (offer_files offer))"
    using validate_offer_sound [OF accepted(2)] by (simp add: offer_wf_def)
  have "offer_of e s = Some offer" using accepted(1,2) by (simp add: offer_of_def)
  moreover have "verified_origin e offer (files_of s) (files_of s')"
    using all_runsD [OF origin.recv_session_ok [OF ids] accepted(7)] accepted(8) by simp
  moreover have "never_overwritten e offer (files_of s) (files_of s')"
    using all_runsD [OF keeping.recv_session_ok [OF ids] accepted(7)] accepted(8) by simp
  ultimately show ?thesis by blast
qed simp

text \<open>The request the offer of a session is published as, and what has to have happened to it.\<close>

lemma serve_needs_offer:
  assumes "serve_offer e pn polls s = (r, s')" "files_of s' \<noteq> files_of s" "inbox_inv (rc_inbox s)"
    and "list_all (\<lambda>c. fresh_cmd c \<and> not_prune c) (concat (map fst polls))"
  shows "\<exists>offer. offer_of e s = Some offer
    \<and> (accepted_as (rc_inbox s) (offer_id offer) (request_key e offer)
        \<or> (\<exists>pre post. concat (map fst polls) = pre @ Accept (offer_id offer) # post
            \<and> pending_as (fold inbox_step (Publish (make_request e pn offer) # pre) (rc_inbox s))
                (offer_id offer) (request_key e offer)))"
  using assms(1)
proof (cases rule: serve_offer_cases)
  case same
  with assms(2) show ?thesis by simp
next
  case (accepted raw s1 offer b d s2 s3)
  let ?r = "make_request e pn offer"
  have inb: "rc_inbox s1 = rc_inbox s" using accepted(1) by (rule recv_control_inbox)
  have key: "offer_key ?r = request_key e offer" "rq_transfer_id ?r = offer_id offer"
    "rq_status ?r = Req_PENDING_APPROVAL"
    by (simp_all add: make_request_def offer_key_def request_key_def)
  have b: "b = inbox_step (Publish ?r) (rc_inbox s)" using accepted(3) inb by simp
  have inv: "inbox_inv b"
    using publish_inv [OF assms(3) key(3)] b by simp
  have held: "holds_offer b (offer_id offer) (request_key e offer)"
    using publish_holds [OF accepted(3)] key by simp
  have "accepted_by b (concat (map fst polls)) (offer_id offer) (request_key e offer)"
    using await_accepted [OF accepted(4,5) _ assms(4)] inv held by simp
  moreover have "accepted_as b (offer_id offer) (request_key e offer) \<Longrightarrow>
      accepted_as (rc_inbox s) (offer_id offer) (request_key e offer)"
    using publish_accepted [OF key(3), of "rc_inbox s" "offer_id offer" "request_key e offer"] b by simp
  moreover have "offer_of e s = Some offer" using accepted(1,2) by (simp add: offer_of_def)
  ultimately show ?thesis by (auto simp: accepted_by_def b)
qed

end
