(* ===== verification/Sender.thy ===== *)
theory Sender
  imports Framing ResumeStore Lifecycle
begin

text \<open>
  The sending side of \<open>core/transfer.py\<close> (\<open>FileClient\<close>): one session (offer, approval, offsets, files)
  and the worker that repeats it. The receiving side of the socket is that of \<open>Framing\<close>; every send
  can fail; each test of the cancel event is answered from a list. The files of the batch are the
  records \<open>sn_infos\<close>, in the order of the offer.
\<close>

section \<open>State\<close>

record send_env =
  se_crypto :: crypto
  se_loads :: "bytes \<Rightarrow> parsed"
  se_key :: bytes
  se_now :: time
  se_source :: "nat \<Rightarrow> bytes"

record sender =
  sn_net :: net
  sn_sends :: "exn option list"
  sn_sent :: "payload list"
  sn_cancels :: "bool list"
  sn_infos :: "transfer_info list"

definition get_control :: "send_env \<Rightarrow> (sender, json) io" where
  "get_control e s =
     (case receive_control_frame (se_crypto e) (se_loads e) (se_key e) (sn_net s) of
        (r, net) \<Rightarrow> (r, s\<lparr>sn_net := net\<rparr>))"

definition put_frame :: "payload \<Rightarrow> (sender, unit) io" where
  "put_frame p s =
     (case sn_sends s of
        Some x # sends \<Rightarrow> (Inl x, s\<lparr>sn_sends := sends\<rparr>)
      | None # sends \<Rightarrow> (Inr (), s\<lparr>sn_sends := sends, sn_sent := sn_sent s @ [p]\<rparr>)
      | [] \<Rightarrow> (Inr (), s\<lparr>sn_sent := sn_sent s @ [p]\<rparr>))"

definition cancel_set :: "(sender, bool) io" where
  "cancel_set s =
     (case sn_cancels s of [] \<Rightarrow> (Inr False, s) | b # bs \<Rightarrow> (Inr b, s\<lparr>sn_cancels := bs\<rparr>))"

definition upd_info :: "nat \<Rightarrow> (transfer_info \<Rightarrow> transfer_info) \<Rightarrow> (sender, unit) io" where
  "upd_info i f s = (Inr (), s\<lparr>sn_infos := (sn_infos s)[i := f (sn_infos s ! i)]\<rparr>)"

definition status_at :: "send_env \<Rightarrow> nat \<Rightarrow> transfer_status \<Rightarrow> (sender, unit) io" where
  "status_at e i st s =
     (case set_status (se_now e) (sn_infos s ! i) st None of
        Inl x \<Rightarrow> (Inl x, s)
      | Inr j \<Rightarrow> (Inr (), s\<lparr>sn_infos := (sn_infos s)[i := j]\<rparr>))"

text \<open>
  The loops \<open>for info in infos: if ...: set_status(info, ...)\<close>; a refused change raises and leaves the
  rest of the list as it was.
\<close>

fun set_each ::
  "time \<Rightarrow> (transfer_info \<Rightarrow> bool) \<Rightarrow> transfer_status \<Rightarrow> string option \<Rightarrow> transfer_info list
   \<Rightarrow> unit result \<times> transfer_info list" where
  "set_each now P st err [] = (Inr (), [])"
| "set_each now P st err (i # infos) =
     (if \<not> P i then (case set_each now P st err infos of (r, js) \<Rightarrow> (r, i # js))
      else case set_status now i st err of
             Inl x \<Rightarrow> (Inl x, i # infos)
           | Inr j \<Rightarrow> (case set_each now P st err infos of (r, js) \<Rightarrow> (r, j # js)))"

definition status_each ::
  "send_env \<Rightarrow> (transfer_info \<Rightarrow> bool) \<Rightarrow> transfer_status \<Rightarrow> string option \<Rightarrow> (sender, unit) io" where
  "status_each e P st err s =
     (case set_each (se_now e) P st err (sn_infos s) of (r, infos) \<Rightarrow> (r, s\<lparr>sn_infos := infos\<rparr>))"

abbreviation unfinished :: "transfer_info \<Rightarrow> bool" where
  "unfinished i \<equiv> \<not> is_terminal (status i)"

section \<open>One file\<close>

definition cancel_json :: "string \<Rightarrow> json" where
  "cancel_json tid = JObj [(''type'', JStr ''cancel''), (''transfer_id'', JStr tid)]"

definition send_cancel :: "string \<Rightarrow> (sender, 'a) io" where
  "send_cancel tid =
     io_bind (put_frame (Control (cancel_json tid))) (\<lambda>_. io_lift (Inl (TransferCancelled ''Transfer cancelled'')))"

definition next_chunk :: "bytes \<Rightarrow> nat \<Rightarrow> bytes" where
  "next_chunk content pos = take CHUNK_SIZE (drop pos content)"

text \<open>
  The chunk loop of \<open>_send_v3_payload\<close> for file \<open>i\<close>: \<open>content\<close> is what the file holds now, \<open>sz\<close> what it
  held when the batch was built. Every chunk is non-empty, so the loop ends.
\<close>

function send_chunks ::
  "string \<Rightarrow> string \<Rightarrow> nat \<Rightarrow> bytes \<Rightarrow> nat \<Rightarrow> nat \<Rightarrow> nat \<Rightarrow> sender \<Rightarrow> unit result \<times> sender" where
  "send_chunks tid fid i content sz pos index s =
     (if pos < sz
      then (case cancel_set s of
              (Inl x, s1) \<Rightarrow> (Inl x, s1)
            | (Inr cancelled, s1) \<Rightarrow>
                if cancelled then send_cancel tid s1
                else
                  (let raw = next_chunk content pos in
                   if raw = [] then (Inl (ProtocolError ''Source file changed during transfer''), s1)
                   else
                     (case io_bind (put_frame (Control (chunk_header tid fid index pos (length raw)))) (\<lambda>_.
                           io_bind (put_frame (Data raw)) (\<lambda>_.
                           upd_info i (\<lambda>inf. inf\<lparr>bytes_transferred := bytes_transferred inf + length raw,
                                                 bytes_this_attempt := bytes_this_attempt inf + length raw\<rparr>))) s1 of
                        (Inl x, s2) \<Rightarrow> (Inl x, s2)
                      | (Inr _, s2) \<Rightarrow>
                          send_chunks tid fid i content sz (pos + length raw) (Suc index) s2)))
      else (Inr (), s))"
  by pat_completeness auto
termination
  by (relation "measure (\<lambda>(tid, fid, i, content, sz, pos, index, s). sz - pos)")
     (auto intro: diff_less_mono2)

declare send_chunks.simps [simp del]

definition check_file_result :: "string \<Rightarrow> string \<Rightarrow> json \<Rightarrow> unit result" where
  "check_file_result tid fid r =
     ensure (ProtocolError ''Receiver failed file verification'')
       (ojget r ''type'' = JStr ''file_result'' \<and> ojget r ''transfer_id'' = JStr tid
        \<and> ojget r ''file_id'' = JStr fid \<and> ojget r ''ok'' = JBool True)"

text \<open>One turn of the loop over the files: file \<open>i\<close> of the offer from offset \<open>off\<close>.\<close>

definition send_file :: "send_env \<Rightarrow> string \<Rightarrow> nat \<Rightarrow> incoming_file \<Rightarrow> nat \<Rightarrow> (sender, unit) io" where
  "send_file e tid i f off =
     io_bind (upd_info i (\<lambda>inf. inf\<lparr>resume_offset := off, bytes_transferred := off,
                                    bytes_this_attempt := 0\<rparr>)) (\<lambda>_.
     io_bind (\<lambda>s. if is_terminal (status (sn_infos s ! i)) then (Inr (), s)
                  else io_bind (status_at e i (if off \<noteq> 0 then RESUMING else ACTIVE)) (\<lambda>_ s1.
                       if status (sn_infos s1 ! i) = RESUMING then status_at e i ACTIVE s1
                       else (Inr (), s1)) s) (\<lambda>_.
     io_bind (put_frame (Control (JObj [(''type'', JStr ''file_start''), (''transfer_id'', JStr tid),
                                        (''file_id'', JStr (ifile_id f))]))) (\<lambda>_.
     io_bind (send_chunks tid (ifile_id f) i (se_source e i) (ifile_size f) off (off div CHUNK_SIZE)) (\<lambda>_.
     io_bind (put_frame (Control (JObj [(''type'', JStr ''file_end''), (''transfer_id'', JStr tid),
                                        (''file_id'', JStr (ifile_id f))]))) (\<lambda>_.
     io_bind (get_control e) (\<lambda>r.
     io_bind (io_lift (check_file_result tid (ifile_id f) r)) (\<lambda>_.
     status_at e i COMPLETE)))))))"

fun send_files ::
  "send_env \<Rightarrow> string \<Rightarrow> (string, nat) dict \<Rightarrow> nat \<Rightarrow> incoming_file list \<Rightarrow> (sender \<Rightarrow> unit result \<times> sender)" where
  "send_files e tid offsets i [] s = (Inr (), s)"
| "send_files e tid offsets i (f # files) s =
     (case dict_get offsets (ifile_id f) of
        None \<Rightarrow> (Inl (KeyError (ifile_id f)), s)
      | Some off \<Rightarrow>
          io_bind (send_file e tid i f off) (\<lambda>_. send_files e tid offsets (Suc i) files) s)"

definition send_payload :: "send_env \<Rightarrow> transfer_offer \<Rightarrow> (sender, unit) io" where
  "send_payload e offer =
     io_bind (put_frame (Control (resume_query offer))) (\<lambda>_.
     io_bind (get_control e) (\<lambda>state.
     io_bind (io_lift (validate_resume_state state offer)) (\<lambda>offsets.
     io_bind (send_files e (offer_id offer) offsets 0 (offer_files offer)) (\<lambda>_.
     io_bind (put_frame (Control (JObj [(''type'', JStr ''fin''), (''transfer_id'', JStr (offer_id offer))]))) (\<lambda>_.
     io_bind (get_control e) (\<lambda>r.
     io_lift (ensure (ProtocolError ''Invalid session completion'')
       (json_eq r (JObj [(''type'', JStr ''session_complete''),
                         (''transfer_id'', JStr (offer_id offer))])))))))))"

section \<open>One session\<close>

text \<open>
  \<open>_wait_for_approval\<close>: at most \<open>turns\<close> turns of the loop fit before the deadline. A timeout starts the
  next turn.
\<close>

fun wait_for_approval :: "send_env \<Rightarrow> string \<Rightarrow> nat \<Rightarrow> (sender \<Rightarrow> json result \<times> sender)" where
  "wait_for_approval e tid 0 s = (Inl (ApprovalTimeout ''Peer did not respond to transfer request''), s)"
| "wait_for_approval e tid (Suc turns) s =
     (case cancel_set s of
        (Inl x, s1) \<Rightarrow> (Inl x, s1)
      | (Inr cancelled, s1) \<Rightarrow>
          if cancelled then send_cancel tid s1
          else (case get_control e s1 of
                  (Inl TimeoutError, s2) \<Rightarrow> wait_for_approval e tid turns s2
                | (r, s2) \<Rightarrow> (r, s2)))"

definition check_acceptance :: "bool \<times> string option \<Rightarrow> unit result" where
  "check_acceptance answer =
     (case answer of
        (True, _) \<Rightarrow> Inr ()
      | (False, reason) \<Rightarrow>
          if reason = Some ''Transfer request expired'' then Inl (ApprovalTimeout ''Transfer request expired'')
          else Inl (TransferRejected
                      (case reason of None \<Rightarrow> ''Rejected by user''
                                    | Some r \<Rightarrow> if r = [] then ''Rejected by user'' else r)))"

text \<open>
  \<open>_send_session\<close> on an opened socket: \<open>opened\<close> is the exception of the protocol check, the connection,
  the lookup of the peer or the handshake, if there was one. The offer frame is built from the batch
  and validated again before the payload.
\<close>

definition send_session :: "send_env \<Rightarrow> transfer_offer \<Rightarrow> exn option \<Rightarrow> nat \<Rightarrow> (sender, unit) io" where
  "send_session e offer opened turns =
     io_bind (io_lift (case opened of None \<Rightarrow> Inr () | Some x \<Rightarrow> Inl x)) (\<lambda>_.
     io_bind (put_frame (Control (offer_json offer))) (\<lambda>_.
     io_bind (wait_for_approval e (offer_id offer) turns) (\<lambda>response.
     io_bind (io_lift (validate_response response (offer_id offer))) (\<lambda>answer.
     io_bind (io_lift (check_acceptance answer)) (\<lambda>_.
     io_bind (status_each e (\<lambda>i. status i = PENDING_APPROVAL) ACCEPTED None) (\<lambda>_.
     io_bind (io_lift (validate_offer (offer_json offer))) (\<lambda>checked.
     send_payload e checked)))))))"

section \<open>The worker\<close>

text \<open>What one attempt meets: its connection, its socket, and the answers to the cancel tests.\<close>

record attempt =
  at_cancelled :: bool
  at_cancelled_in_delay :: bool
  at_opened :: "exn option"
  at_net :: net
  at_sends :: "exn option list"
  at_cancels :: "bool list"
  at_turns :: nat

definition mark_cancelled :: "send_env \<Rightarrow> (sender, unit) io" where
  "mark_cancelled e = status_each e unfinished CANCELLED (Some ''Cancelled by user'')"

text \<open>
  The \<open>except\<close> clauses around a session, in their order: whether the loop goes on, or the exception that
  leaves the worker.
\<close>

definition session_error :: "send_env \<Rightarrow> nat \<Rightarrow> exn \<Rightarrow> (sender, bool) io" where
  "session_error e n x =
     (case x of
        TransferRejected _ \<Rightarrow>
          io_bind (status_each e unfinished REJECTED (Some ''Transfer rejected by peer.'')) (\<lambda>_. io_ret False)
      | ApprovalTimeout _ \<Rightarrow>
          io_bind (status_each e unfinished FAILED (Some ''Peer did not respond to transfer request.'')) (\<lambda>_. io_ret False)
      | TransferCancelled _ \<Rightarrow> io_bind (mark_cancelled e) (\<lambda>_. io_ret False)
      | AuthenticationError _ \<Rightarrow>
          io_bind (status_each e unfinished FAILED (Some ''Transfer rejected.'')) (\<lambda>_. io_ret False)
      | ProtocolError _ \<Rightarrow>
          io_bind (status_each e unfinished FAILED (Some ''Transfer rejected.'')) (\<lambda>_. io_ret False)
      | InvalidTag \<Rightarrow>
          io_bind (status_each e unfinished FAILED (Some ''Cryptographic authentication failed.'')) (\<lambda>_. io_ret False)
      | _ \<Rightarrow>
          if is_OSError x
          then if n = MAX_RETRIES
               then io_bind (status_each e unfinished FAILED (Some ''Unable to connect to peer.'')) (\<lambda>_. io_ret True)
               else io_bind (status_each e unfinished INTERRUPTED (Some ''Connection interrupted'')) (\<lambda>_. io_ret True)
          else io_lift (Inl x))"

definition start_attempt :: "attempt \<Rightarrow> sender \<Rightarrow> sender" where
  "start_attempt a s =
     s\<lparr>sn_net := at_net a, sn_sends := at_sends a, sn_cancels := at_cancels a\<rparr>"

definition run_attempt :: "send_env \<Rightarrow> transfer_offer \<Rightarrow> nat \<Rightarrow> attempt \<Rightarrow> (sender, bool) io" where
  "run_attempt e offer n a s =
     (case send_session e offer (at_opened a) (at_turns a) (start_attempt a s) of
        (Inr _, s1) \<Rightarrow> (Inr False, s1)
      | (Inl x, s1) \<Rightarrow> session_error e n x s1)"

definition retry_info :: "nat \<Rightarrow> transfer_info \<Rightarrow> transfer_info" where
  "retry_info n i = i\<lparr>retry_count := n\<rparr>"

text \<open>
  Before a repetition every record gets the attempt's number and, unless finished, the status
  \<open>RESUMING\<close>; a refused change leaves the later records as they were.
\<close>

fun resume_each :: "time \<Rightarrow> nat \<Rightarrow> transfer_info list \<Rightarrow> unit result \<times> transfer_info list" where
  "resume_each now n [] = (Inr (), [])"
| "resume_each now n (i # infos) =
     (if is_terminal (status i)
      then (case resume_each now n infos of (r, js) \<Rightarrow> (r, retry_info n i # js))
      else case set_status now (retry_info n i) RESUMING None of
             Inl x \<Rightarrow> (Inl x, retry_info n i # infos)
           | Inr j \<Rightarrow> (case resume_each now n infos of (r, js) \<Rightarrow> (r, j # js)))"

definition before_retry :: "send_env \<Rightarrow> nat \<Rightarrow> (sender, unit) io" where
  "before_retry e n s =
     (case resume_each (se_now e) n (sn_infos s) of (r, infos) \<Rightarrow> (r, s\<lparr>sn_infos := infos\<rparr>))"

text \<open>The retry loop of \<open>_batch_worker\<close> from attempt \<open>n\<close> on, with what the remaining attempts meet.\<close>

fun retry_loop :: "send_env \<Rightarrow> transfer_offer \<Rightarrow> nat \<Rightarrow> attempt list \<Rightarrow> (sender \<Rightarrow> unit result \<times> sender)" where
  "retry_loop e offer n [] s = (Inr (), s)"
| "retry_loop e offer n (a # as) s =
     (if at_cancelled a then mark_cancelled e s
      else if 0 < n \<and> at_cancelled_in_delay a then mark_cancelled e s
      else io_bind (if 0 < n then before_retry e n else io_ret ()) (\<lambda>_.
           io_bind (run_attempt e offer n a) (\<lambda>go_on.
           if go_on then retry_loop e offer (Suc n) as else io_ret ())) s)"

text \<open>The records the worker starts with: one per file, waiting for approval.\<close>

definition batch_info :: "time \<Rightarrow> string \<Rightarrow> string option \<Rightarrow> transfer_offer \<Rightarrow> incoming_file \<Rightarrow> transfer_info" where
  "batch_info now ip peer offer f =
     \<lparr>filename = ifile_name f, filesize = ifile_size f, direction = SEND, peer_ip = ip,
      status = PENDING_APPROVAL, bytes_transferred = 0, started_at = now, error = None,
      retry_count = 0, peer_device_id = peer, transfer_id = offer_id offer,
      file_id = Some (ifile_id f), resume_offset = 0, bytes_this_attempt = 0, completed_at = None,
      message = offer_message offer, sha256 = Some (ifile_sha256 f), final_path = None\<rparr>"

definition worker_start :: "send_env \<Rightarrow> string \<Rightarrow> string option \<Rightarrow> transfer_offer \<Rightarrow> sender" where
  "worker_start e ip peer offer =
     \<lparr>sn_net = [], sn_sends = [], sn_sent = [], sn_cancels = [],
      sn_infos = map (batch_info (se_now e) ip peer offer) (offer_files offer)\<rparr>"

definition batch_worker ::
  "send_env \<Rightarrow> string \<Rightarrow> string option \<Rightarrow> transfer_offer \<Rightarrow> (nat \<Rightarrow> attempt) \<Rightarrow> unit result \<times> sender" where
  "batch_worker e ip peer offer attempts =
     retry_loop e offer 0 (map attempts [0..<MAX_RETRIES + 1]) (worker_start e ip peer offer)"

text \<open>
  The batch the worker builds from the paths it was given, each with the content it reads, or \<open>None\<close>
  when it is not a file; nothing is sent when the batch is empty or exceeds a limit.
\<close>

definition batch_file :: "crypto \<Rightarrow> nat \<Rightarrow> string \<times> bytes \<Rightarrow> incoming_file" where
  "batch_file c index p =
     \<lparr>ifile_id = ''file-'' @ show_nat index, ifile_name = fst p, ifile_size = length (snd p),
      ifile_sha256 = file_digest c (snd p)\<rparr>"

definition build_batch ::
  "crypto \<Rightarrow> string \<Rightarrow> string option \<Rightarrow> (string \<times> bytes option) list \<Rightarrow> transfer_offer option" where
  "build_batch c tid msg paths =
     (let valid = [(name, bs). (name, Some bs) \<leftarrow> paths];
          tot = sum_list (map (length \<circ> snd) valid)
      in if valid = [] \<or> MAX_FILES_PER_SESSION < length valid
            \<or> list_ex (\<lambda>p. MAX_FILE_SIZE < length (snd p)) valid \<or> MAX_SESSION_SIZE < tot
         then None
         else Some \<lparr>offer_id = tid, offer_files = map2 (batch_file c) [0..<length valid] valid,
                    offer_total = tot, offer_message = (if msg = Some [] then None else msg)\<rparr>)"

section \<open>A returning worker leaves only finished records\<close>

lemma set_each_terminal:
  "set_each now unfinished st err infos = (Inr u, js) \<Longrightarrow> is_terminal st \<Longrightarrow>
   list_all (\<lambda>j. is_terminal (status j)) js"
  by (induction infos arbitrary: js)
     (auto split: if_splits sum.splits prod.splits dest: set_status_status)

text \<open>Only the record of file \<open>i\<close> may differ.\<close>

definition only_info :: "nat \<Rightarrow> sender \<Rightarrow> sender \<Rightarrow> bool" where
  "only_info i s t \<longleftrightarrow>
     length (sn_infos t) = length (sn_infos s) \<and> (\<forall>j. j \<noteq> i \<longrightarrow> sn_infos t ! j = sn_infos s ! j)"

interpretation only: state_preorder "only_info i" for i
  by unfold_locales (auto simp: only_info_def)

lemma same_infos: "(\<And>s. sn_infos (snd (m s)) = sn_infos s) \<Longrightarrow> all_runs (only_info i) m"
  by (rule all_runsI) (simp add: only_info_def)

lemma infos_frame [simp]:
  "sn_infos (snd (get_control e s)) = sn_infos s"
  "sn_infos (snd (put_frame p s)) = sn_infos s"
  "sn_infos (snd (cancel_set s)) = sn_infos s"
  by (auto simp: get_control_def put_frame_def cancel_set_def split: prod.splits list.splits option.splits)

lemma only_base:
  "all_runs (only_info i) (get_control e)" "all_runs (only_info i) (put_frame p)"
  "all_runs (only_info i) cancel_set"
  by (rule same_infos, simp)+

lemma only_upd: "all_runs (only_info i) (upd_info i f)"
  by (rule all_runsI) (simp add: only_info_def upd_info_def)

lemma only_status: "all_runs (only_info i) (status_at e i st)"
  by (rule all_runsI) (auto simp: only_info_def status_at_def split: sum.splits)

lemma only_cancel: "all_runs (only_info i) (send_cancel tid)"
  unfolding send_cancel_def by (intro only.runs_bind only_base only.runs_lift)

lemma only_chunks: "all_runs (only_info i) (send_chunks tid fid i content sz pos index)"
proof (rule all_runsI)
  fix s
  show "only_info i s (snd (send_chunks tid fid i content sz pos index s))"
  proof (induction tid fid i content sz pos index s rule: send_chunks.induct)
    case (1 tid fid i content sz pos index s)
    let ?raw = "next_chunk content pos"
    let ?one = "io_bind (put_frame (Control (chunk_header tid fid index pos (length ?raw)))) (\<lambda>_.
        io_bind (put_frame (Data ?raw)) (\<lambda>_.
        upd_info i (\<lambda>inf. inf\<lparr>bytes_transferred := bytes_transferred inf + length ?raw,
                              bytes_this_attempt := bytes_this_attempt inf + length ?raw\<rparr>)))"
    have one: "all_runs (only_info i) ?one" by (intro only.runs_bind only_base only_upd)
    obtain c s1 where c: "cancel_set s = (c, s1)" by force
    have s1: "only_info i s s1" using all_runsD [OF only_base(3) c] .
    obtain r s2 where r: "?one s1 = (r, s2)" by force
    have s2: "only_info i s s2" using only.trans [OF s1 all_runsD [OF one r]] .
    have s3: "only_info i s (snd (send_cancel tid s1))" for tid
      using only.trans [OF s1] only_cancel by (auto simp: all_runs_def)
    show ?case
      using 1 c r s1 s2 s3 only.refl only.trans [OF s2]
      by (subst send_chunks.simps) (auto simp: Let_def split: sum.splits)
  qed
qed

lemma only_send_file: "all_runs (only_info i) (send_file e tid i f off)"
proof -
  have "all_runs (only_info i) (\<lambda>s. if is_terminal (status (sn_infos s ! i)) then (Inr (), s)
      else io_bind (status_at e i st) (\<lambda>_ s1. if status (sn_infos s1 ! i) = RESUMING
             then status_at e i ACTIVE s1 else (Inr (), s1)) s)" for st
  proof -
    have again: "all_runs (only_info i) (\<lambda>s1. if status (sn_infos s1 ! i) = RESUMING
             then status_at e i ACTIVE s1 else (Inr (), s1))"
      using only_status [of i e ACTIVE] by (auto simp: all_runs_def only.refl)
    have "all_runs (only_info i) (io_bind (status_at e i st) (\<lambda>_ s1. if status (sn_infos s1 ! i) = RESUMING
             then status_at e i ACTIVE s1 else (Inr (), s1)))"
      by (intro only.runs_bind only_status again)
    then show ?thesis by (simp add: all_runs_def only.refl)
  qed
  then show ?thesis
    unfolding send_file_def
    by (intro only.runs_bind only_upd only_base only_chunks only.runs_lift only_status)
qed

lemma send_file_complete:
  assumes "send_file e tid i f off s = (Inr u, t)" "i < length (sn_infos s)"
  shows "status (sn_infos t ! i) = COMPLETE"
proof -
  from assms(1) obtain s1 where last: "status_at e i COMPLETE s1 = (Inr u, t)"
    by (auto simp: send_file_def io_bind_Inr)
  have "only_info i s t" using all_runsD [OF only_send_file assms(1)] .
  moreover have "length (sn_infos t) = length (sn_infos s1)"
    using last by (auto simp: status_at_def split: sum.splits)
  ultimately have "i < length (sn_infos s1)" using assms(2) by (simp add: only_info_def)
  with last show ?thesis by (auto simp: status_at_def dest: set_status_status split: sum.splits)
qed

lemma send_files_complete:
  "send_files e tid offsets i files s = (Inr u, t) \<Longrightarrow> length (sn_infos s) = i + length files \<Longrightarrow>
   \<forall>j < i. status (sn_infos s ! j) = COMPLETE \<Longrightarrow> list_all (\<lambda>j. status j = COMPLETE) (sn_infos t)"
proof (induction files arbitrary: i s)
  case Nil
  then show ?case by (simp add: list_all_length)
next
  case (Cons f files)
  from Cons.prems(1) obtain off v s1 where one: "send_file e tid i f off s = (Inr v, s1)"
    and rest: "send_files e tid offsets (Suc i) files s1 = (Inr u, t)"
    by (auto simp: io_bind_Inr split: option.splits)
  have frame: "only_info i s s1" using all_runsD [OF only_send_file one] .
  have "status (sn_infos s1 ! i) = COMPLETE" using send_file_complete [OF one] Cons.prems(2) by simp
  then show ?case
    using Cons.IH [OF rest] Cons.prems frame by (auto simp: only_info_def less_Suc_eq)
qed

lemma status_each_length: "status_each e P st err s = (r, t) \<Longrightarrow> length (sn_infos t) = length (sn_infos s)"
proof -
  have "length (snd (set_each now P st err infos)) = length infos" for now infos
    by (induction infos) (auto split: prod.splits sum.splits)
  then show "status_each e P st err s = (r, t) \<Longrightarrow> ?thesis"
    by (auto simp: status_each_def split: prod.splits) (metis snd_conv)
qed

lemma send_payload_complete:
  assumes "send_payload e offer s = (Inr u, t)" "length (sn_infos s) = length (offer_files offer)"
  shows "list_all (\<lambda>j. status j = COMPLETE) (sn_infos t)"
proof -
  obtain s1 r1 s2 offsets where a: "put_frame (Control (resume_query offer)) s = (Inr (), s1)"
    "get_control e s1 = (Inr r1, s2)" "validate_resume_state r1 offer = Inr offsets"
    and rest: "io_bind (send_files e (offer_id offer) offsets 0 (offer_files offer)) (\<lambda>_.
     io_bind (put_frame (Control (JObj [(''type'', JStr ''fin''), (''transfer_id'', JStr (offer_id offer))]))) (\<lambda>_.
     io_bind (get_control e) (\<lambda>r.
     io_lift (ensure (ProtocolError ''Invalid session completion'')
       (json_eq r (JObj [(''type'', JStr ''session_complete''),
                         (''transfer_id'', JStr (offer_id offer))])))))) s2 = (Inr u, t)"
    using assms(1) unfolding send_payload_def by (auto simp: io_bind_Inr)
  obtain s3 s4 s5 r where b: "send_files e (offer_id offer) offsets 0 (offer_files offer) s2 = (Inr (), s3)"
    "put_frame (Control (JObj [(''type'', JStr ''fin''), (''transfer_id'', JStr (offer_id offer))])) s3 = (Inr (), s4)"
    "get_control e s4 = (Inr r, s5)" "t = s5"
    using rest by (auto simp: io_bind_Inr)
  have same: "sn_infos s2 = sn_infos s" "sn_infos t = sn_infos s3"
    using a b infos_frame by (metis snd_conv)+
  show ?thesis
    using send_files_complete [OF b(1)] assms(2) same by simp
qed

lemma wait_infos: "sn_infos (snd (wait_for_approval e tid turns s)) = sn_infos s"
proof (induction turns arbitrary: s)
  case (Suc turns)
  obtain c s1 where c: "cancel_set s = (c, s1)" by force
  obtain r s2 where r: "get_control e s1 = (r, s2)" by force
  have s: "sn_infos s1 = sn_infos s" "sn_infos s2 = sn_infos s"
    using c r infos_frame by (metis snd_conv)+
  have cancel: "sn_infos (snd (send_cancel tid s1)) = sn_infos s1" for tid
    by (auto simp: send_cancel_def io_bind_def put_frame_def split: list.splits option.splits)
  show ?case
  proof (cases "c = Inr False \<and> r = Inl TimeoutError")
    case True
    with Suc c r s show ?thesis by simp
  next
    case False
    with c r s cancel show ?thesis by (auto split: sum.splits exn.splits)
  qed
qed simp

lemma send_session_complete:
  assumes "send_session e offer opened turns s = (Inr u, t)" "length (sn_infos s) = length (offer_files offer)"
  shows "list_all (\<lambda>j. status j = COMPLETE) (sn_infos t)"
proof -
  obtain s1 resp s2 s3 checked where a: "put_frame (Control (offer_json offer)) s = (Inr (), s1)"
    "wait_for_approval e (offer_id offer) turns s1 = (Inr resp, s2)"
    "status_each e (\<lambda>i. status i = PENDING_APPROVAL) ACCEPTED None s2 = (Inr (), s3)"
    "validate_offer (offer_json offer) = Inr checked" "send_payload e checked s3 = (Inr u, t)"
    using assms(1) unfolding send_session_def by (auto simp: io_bind_Inr)
  have "sn_infos s2 = sn_infos s"
    using a(1,2) infos_frame(2) wait_infos by (metis snd_conv)
  moreover have "length (offer_files checked) = length (offer_files offer)"
    using a(4) by (auto simp: validate_offer_def offer_json_def dest!: validate_files_sound split: option.splits)
  ultimately show ?thesis
    using send_payload_complete [OF a(5)] status_each_length [OF a(3)] assms(2) by simp
qed

definition all_finished :: "sender \<Rightarrow> bool" where
  "all_finished s \<longleftrightarrow> list_all (\<lambda>i. is_terminal (status i)) (sn_infos s)"

lemma status_each_finished:
  "status_each e unfinished st err s = (Inr u, t) \<Longrightarrow> is_terminal st \<Longrightarrow> all_finished t"
  by (auto simp: status_each_def all_finished_def split: prod.splits dest: set_each_terminal)

lemma each_then:
  "io_bind (status_each e unfinished st err) (\<lambda>_. io_ret b) s = (Inr go_on, t) \<Longrightarrow>
   go_on = b \<and> length (sn_infos t) = length (sn_infos s) \<and> (is_terminal st \<longrightarrow> all_finished t)"
  by (auto simp: io_bind_Inr dest: status_each_finished status_each_length)

lemma session_error_result:
  assumes "session_error e n x s = (Inr go_on, t)"
  shows "(\<not> go_on \<longrightarrow> all_finished t) \<and> (n = MAX_RETRIES \<longrightarrow> all_finished t) \<and> length (sn_infos t) = length (sn_infos s)"
  using assms
  by (cases x)
     (auto simp: session_error_def mark_cancelled_def split: if_splits dest!: each_then)

definition same_length :: "sender \<Rightarrow> sender \<Rightarrow> bool" where
  "same_length s t \<longleftrightarrow> length (sn_infos t) = length (sn_infos s)"

interpretation len: state_preorder same_length
  by unfold_locales (auto simp: same_length_def)

lemma only_length: "all_runs (only_info i) m \<Longrightarrow> all_runs same_length m"
  by (auto simp: all_runs_def only_info_def same_length_def)

lemma length_base: "all_runs same_length (put_frame p)" "all_runs same_length (get_control e)"
  "all_runs same_length (status_each e P st err)" "all_runs same_length (wait_for_approval e tid turns)"
  using status_each_length [of e P st err]
  by (auto simp: all_runs_def same_length_def wait_infos) (metis prod.collapse)

lemma length_files: "all_runs same_length (send_files e tid offsets i files)"
proof (induction files arbitrary: i)
  case Nil
  then show ?case by (simp add: all_runs_def len.refl)
next
  case (Cons f files)
  have "all_runs same_length (io_bind (send_file e tid i f off) (\<lambda>_. send_files e tid offsets (Suc i) files))" for off
    by (intro len.runs_bind only_length [OF only_send_file] Cons.IH)
  then show ?case by (auto simp: all_runs_def len.refl split: option.splits)
qed

lemma length_session: "all_runs same_length (send_session e offer opened turns)"
  unfolding send_session_def send_payload_def
  by (intro len.runs_bind len.runs_lift length_base length_files)

lemma run_attempt_result:
  assumes "run_attempt e offer n a s = (Inr go_on, t)" "length (sn_infos s) = length (offer_files offer)"
  shows "(\<not> go_on \<longrightarrow> all_finished t) \<and> (n = MAX_RETRIES \<longrightarrow> all_finished t)
    \<and> length (sn_infos t) = length (offer_files offer)"
proof -
  let ?s = "start_attempt a s"
  have start: "length (sn_infos ?s) = length (offer_files offer)" using assms(2) by (simp add: start_attempt_def)
  obtain r s1 where r: "send_session e offer (at_opened a) (at_turns a) ?s = (r, s1)" by force
  have len: "length (sn_infos s1) = length (sn_infos ?s)"
    using all_runsD [OF length_session r] by (simp add: same_length_def)
  show ?thesis
  proof (cases r)
    case (Inl x)
    with r assms(1) have "session_error e n x s1 = (Inr go_on, t)" by (simp add: run_attempt_def)
    from session_error_result [OF this] len start show ?thesis by simp
  next
    case (Inr u)
    with r assms(1) have "t = s1" "\<not> go_on" by (auto simp: run_attempt_def)
    moreover have "all_finished s1"
      using send_session_complete [of e offer _ _ ?s u s1] r Inr start
      by (auto simp: all_finished_def list_all_iff)
    ultimately show ?thesis using len start by simp
  qed
qed

lemma before_retry_length: "before_retry e n s = (r, t) \<Longrightarrow> length (sn_infos t) = length (sn_infos s)"
proof -
  have "length (snd (resume_each now n infos)) = length infos" for now infos
    by (induction infos) (auto split: prod.splits sum.splits)
  then show "before_retry e n s = (r, t) \<Longrightarrow> ?thesis"
    by (auto simp: before_retry_def split: prod.splits) (metis snd_conv)
qed

lemma retry_loop_finished:
  "retry_loop e offer n as s = (Inr u, t) \<Longrightarrow> n + length as = MAX_RETRIES + 1 \<Longrightarrow>
   length (sn_infos s) = length (offer_files offer) \<Longrightarrow> (as = [] \<longrightarrow> all_finished s) \<Longrightarrow> all_finished t"
proof (induction as arbitrary: n s)
  case (Cons a as)
  show ?case
  proof (cases "at_cancelled a \<or> 0 < n \<and> at_cancelled_in_delay a")
    case True
    with Cons.prems(1) have "mark_cancelled e s = (Inr u, t)" by (auto split: if_splits)
    then show ?thesis unfolding mark_cancelled_def by (rule status_each_finished) simp
  next
    case False
    obtain s1 where s1: "(if 0 < n then before_retry e n else io_ret ()) s = (Inr (), s1)"
      and rest: "io_bind (run_attempt e offer n a) (\<lambda>go_on. if go_on then retry_loop e offer (Suc n) as else io_ret ()) s1
        = (Inr u, t)"
      using Cons.prems(1) False by (auto simp: io_bind_Inr)
    have len1: "length (sn_infos s1) = length (offer_files offer)"
      using s1 Cons.prems(3) before_retry_length by (auto split: if_splits)
    obtain go_on s2 where run: "run_attempt e offer n a s1 = (Inr go_on, s2)"
      and cont: "(if go_on then retry_loop e offer (Suc n) as else io_ret ()) s2 = (Inr u, t)"
      using rest by (auto simp: io_bind_Inr)
    note res = run_attempt_result [OF run len1]
    show ?thesis
    proof (cases go_on)
      case True
      then show ?thesis
        using Cons.IH [of "Suc n" s2] cont res Cons.prems(2) by (cases as) auto
    next
      case False
      then show ?thesis using cont res by simp
    qed
  qed
qed simp

section \<open>A failed first connection\<close>

text \<open>An exception that only the last clause of the worker's handler catches.\<close>

definition connection_failure :: "exn \<Rightarrow> bool" where
  "connection_failure x \<longleftrightarrow>
     is_OSError x \<and>
     (case x of TransferRejected _ \<Rightarrow> False | ApprovalTimeout _ \<Rightarrow> False | TransferCancelled _ \<Rightarrow> False
              | AuthenticationError _ \<Rightarrow> False | ProtocolError _ \<Rightarrow> False | _ \<Rightarrow> True)"

lemma session_error_connection:
  "connection_failure x \<Longrightarrow> n \<noteq> MAX_RETRIES \<Longrightarrow>
   session_error e n x =
     io_bind (status_each e unfinished INTERRUPTED (Some ''Connection interrupted'')) (\<lambda>_. io_ret True)"
  by (cases x) (simp_all add: connection_failure_def session_error_def)

text \<open>
  The records are still waiting for approval, from where \<open>INTERRUPTED\<close> is not allowed: the handler itself
  raises and the worker ends without a retry.
\<close>

lemma attempts_Cons: "map attempts [0..<MAX_RETRIES + 1] = attempts 0 # map attempts [1..<MAX_RETRIES + 1]"
  using upt_conv_Cons [of 0 "MAX_RETRIES + 1"] by (simp del: upt_Suc)

lemma batch_worker_first:
  "batch_worker e ip peer offer attempts =
     retry_loop e offer 0 (attempts 0 # map attempts [1..<MAX_RETRIES + 1]) (worker_start e ip peer offer)"
  by (simp only: batch_worker_def attempts_Cons)

lemma first_failure_escapes:
  assumes "offer_files offer \<noteq> []" "\<not> at_cancelled (attempts 0)" "at_opened (attempts 0) = Some x"
    "connection_failure x"
  shows "batch_worker e ip peer offer attempts =
    (Inl (transition_error PENDING_APPROVAL INTERRUPTED),
     start_attempt (attempts 0) (worker_start e ip peer offer))"
proof -
  obtain f fs where f: "offer_files offer = f # fs" using assms(1) by (cases "offer_files offer") auto
  let ?s = "start_attempt (attempts 0) (worker_start e ip peer offer)"
  have "send_session e offer (Some x) turns ?s = (Inl x, ?s)" for turns
    by (simp add: send_session_def io_bind_def)
  moreover have "status_each e unfinished INTERRUPTED err ?s
      = (Inl (transition_error PENDING_APPROVAL INTERRUPTED), ?s)" for err
    by (simp add: status_each_def start_attempt_def worker_start_def f batch_info_def set_status_eq)
  moreover have "session_error e 0 x =
      io_bind (status_each e unfinished INTERRUPTED (Some ''Connection interrupted'')) (\<lambda>_. io_ret True)"
    by (rule session_error_connection [OF assms(4)]) (simp add: MAX_RETRIES_def)
  ultimately show ?thesis
    unfolding batch_worker_first using assms by (simp add: run_attempt_def io_bind_def)
qed

end
