(* ===== verification/TrustStore.thy ===== *)
theory TrustStore
  imports Identity
begin

text \<open>
  \<open>core/trust.py\<close>: trust decisions keyed by device identifier and their JSON document on disk. The
  lock makes every method atomic; a run of the store is a sequence of commands.
\<close>

section \<open>Model\<close>

datatype trust_status = NEW | TRUSTED | REJECTED_DEVICE | CHANGED

fun trust_value :: "trust_status \<Rightarrow> string" where
  "trust_value NEW = ''new''"
| "trust_value TRUSTED = ''trusted''"
| "trust_value REJECTED_DEVICE = ''rejected''"
| "trust_value CHANGED = ''changed''"

text \<open>\<open>TrustStatus(value)\<close>.\<close>

definition trust_of_value :: "string \<Rightarrow> trust_status result" where
  "trust_of_value s =
     (if s = ''new'' then Inr NEW else if s = ''trusted'' then Inr TRUSTED
      else if s = ''rejected'' then Inr REJECTED_DEVICE else if s = ''changed'' then Inr CHANGED
      else Inl (ValueError s))"

record trusted_device =
  td_device_id :: string
  td_hostname :: string
  td_public_key :: string
  td_fingerprint :: string
  td_first_trusted_at :: time
  td_last_seen_at :: time
  td_status :: string

record trust_store =
  ts_devices :: "(string, trusted_device) dict"
  ts_disk :: "json file_read"

section \<open>Validation and loading\<close>

text \<open>\<open>TrustStore._validate\<close>: the identifier is bound to the key.\<close>

definition trust_validate :: "crypto \<Rightarrow> json \<Rightarrow> json \<Rightarrow> (string \<times> string) result" where
  "trust_validate c did key =
     bind_result (decode_public_key key) (\<lambda>raw.
     bind_result (as_str (ValueError ''Invalid device ID'') did) (\<lambda>d.
     bind_result (ensure (ValueError ''Invalid device ID'') (device_id_ok d)) (\<lambda>_.
     bind_result (ensure (ValueError ''Device ID does not match the supplied public key'')
                    (d = device_id_of_raw c raw)) (\<lambda>_.
     bind_result (as_str key_error key) (\<lambda>k. Inr (d, k))))))"

definition hostname_ok :: "string \<Rightarrow> bool" where
  "hostname_ok h \<longleftrightarrow> h \<noteq> [] \<and> length h \<le> 255 \<and> list_all is_printable h"

text \<open>
  A timestamp of a record: a number, not a boolean, finite and not negative. \<open>float(value)\<close> of an
  integer beyond the range of a double raises \<open>OverflowError\<close>.
\<close>

definition validate_timestamp :: "exn \<Rightarrow> json \<Rightarrow> time result" where
  "validate_timestamp e v =
     (case v of
        JInt i \<Rightarrow> if float_limit \<le> \<bar>i\<bar> then Inl (OverflowError ''int too large to convert to float'')
                  else if i < 0 then Inl e else Inr (of_int i)
      | JFloat (Fin r) \<Rightarrow> if r < 0 then Inl e else Inr r
      | _ \<Rightarrow> Inl e)"

definition device_fields :: "string list" where
  "device_fields =
     [''device_id'', ''hostname'', ''public_key'', ''fingerprint'', ''first_trusted_at'',
      ''last_seen_at'', ''status'']"

definition timestamp_error :: exn where
  "timestamp_error = ValueError ''Invalid trust timestamp''"

text \<open>One record of the document: the constructor call and \<open>_validate_record\<close>.\<close>

definition load_device :: "crypto \<Rightarrow> string \<Rightarrow> json \<Rightarrow> trusted_device result" where
  "load_device c key record =
     bind_result (as_dict (ValueError ''record key does not match device ID'') record) (\<lambda>d.
     bind_result (ensure (ValueError ''record key does not match device ID'')
                    (oget d ''device_id'' = JStr key)) (\<lambda>_.
     bind_result (ensure (TypeError ''unexpected or missing field'')
                    (set (map fst d) \<subseteq> set device_fields
                     \<and> set (butlast device_fields) \<subseteq> set (map fst d))) (\<lambda>_.
     bind_result (trust_validate c (oget d ''device_id'') (oget d ''public_key'')) (\<lambda>(did, pk).
     bind_result (as_str (ValueError ''Invalid trusted hostname'') (oget d ''hostname'')) (\<lambda>h.
     bind_result (ensure (ValueError ''Invalid trusted hostname'') (hostname_ok h)) (\<lambda>_.
     bind_result (if ''status'' \<in> set (map fst d)
                  then as_str (ValueError ''Invalid trust status'') (oget d ''status'')
                  else Inr (trust_value TRUSTED)) (\<lambda>st.
     bind_result (ensure (ValueError ''Invalid trust status'')
                    (st = trust_value TRUSTED \<or> st = trust_value REJECTED_DEVICE)) (\<lambda>_.
     bind_result (fingerprint_from_public_key c pk) (\<lambda>fp.
     bind_result (ensure (ValueError ''Invalid identity fingerprint'')
                    (oget d ''fingerprint'' = JStr fp)) (\<lambda>_.
     bind_result (validate_timestamp timestamp_error (oget d ''first_trusted_at'')) (\<lambda>t1.
     bind_result (validate_timestamp timestamp_error (oget d ''last_seen_at'')) (\<lambda>t2.
     Inr \<lparr>td_device_id = did, td_hostname = h, td_public_key = pk, td_fingerprint = fp,
          td_first_trusted_at = t1, td_last_seen_at = t2, td_status = st\<rparr>))))))))))))"

text \<open>
  The loop over the document: a \<open>TypeError\<close> or \<open>ValueError\<close> skips the record, any other exception
  ends the load.
\<close>

fun load_devices :: "crypto \<Rightarrow> (string \<times> json) list \<Rightarrow> (string, trusted_device) dict result" where
  "load_devices c [] = Inr []"
| "load_devices c ((key, record) # rest) =
     (case load_device c key record of
        Inr d \<Rightarrow> bind_result (load_devices c rest) (\<lambda>ds. Inr ((key, d) # ds))
      | Inl (TypeError _) \<Rightarrow> load_devices c rest
      | Inl e \<Rightarrow> if is_ValueError e then load_devices c rest else Inl e)"

text \<open>\<open>TrustStore(path)\<close> over what is on disk.\<close>

definition trust_load :: "crypto \<Rightarrow> json file_read \<Rightarrow> trust_store result" where
  "trust_load c disk =
     (case disk of
        Content (JObj d) \<Rightarrow>
          (case (if ''devices'' \<in> set (map fst d) then oget d ''devices'' else JObj []) of
             JObj ds \<Rightarrow> bind_result (load_devices c ds) (\<lambda>devs. Inr \<lparr>ts_devices = devs, ts_disk = disk\<rparr>)
           | _ \<Rightarrow> Inr \<lparr>ts_devices = [], ts_disk = disk\<rparr>)
      | BadUtf8 \<Rightarrow> Inl (ValueError ''utf-8'')
      | _ \<Rightarrow> Inr \<lparr>ts_devices = [], ts_disk = disk\<rparr>)"

section \<open>Persistence\<close>

definition device_json :: "trusted_device \<Rightarrow> json" where
  "device_json d =
     JObj [(''device_id'', JStr (td_device_id d)), (''hostname'', JStr (td_hostname d)),
           (''public_key'', JStr (td_public_key d)), (''fingerprint'', JStr (td_fingerprint d)),
           (''first_trusted_at'', JFloat (Fin (td_first_trusted_at d))),
           (''last_seen_at'', JFloat (Fin (td_last_seen_at d))), (''status'', JStr (td_status d))]"

definition trust_document :: "(string, trusted_device) dict \<Rightarrow> json" where
  "trust_document devs =
     JObj [(''version'', JInt 1),
           (''devices'', JObj (map (\<lambda>(k, d). (k, device_json d)) (sort_key fst devs)))]"

text \<open>\<open>_save\<close> replaces the document atomically or raises \<open>OSError\<close> and leaves it as it was.\<close>

definition trust_save :: "bool \<Rightarrow> trust_store \<Rightarrow> unit result \<times> trust_store" where
  "trust_save io s =
     (if io then (Inr (), s\<lparr>ts_disk := Content (trust_document (ts_devices s))\<rparr>)
      else (Inl (OSError ''save''), s))"

section \<open>Operations\<close>

definition trust_get :: "trust_store \<Rightarrow> string \<Rightarrow> trusted_device option" where
  "trust_get s did = dict_get (ts_devices s) did"

definition trust_all :: "trust_store \<Rightarrow> trusted_device list" where
  "trust_all s = map snd (ts_devices s)"

definition assess :: "trust_store \<Rightarrow> string option \<Rightarrow> string option \<Rightarrow> trust_status result" where
  "assess s did key =
     (case (did, key) of
        (Some d, Some k) \<Rightarrow>
          if d = [] \<or> k = [] then Inr NEW
          else (case dict_get (ts_devices s) d of
                  None \<Rightarrow> Inr NEW
                | Some r \<Rightarrow> if td_public_key r \<noteq> k then Inr CHANGED else trust_of_value (td_status r))
      | _ \<Rightarrow> Inr NEW)"

definition trust_device ::
  "crypto \<Rightarrow> bool \<Rightarrow> time \<Rightarrow> trust_store \<Rightarrow> string \<Rightarrow> string \<Rightarrow> string \<Rightarrow> time option
   \<Rightarrow> trusted_device result \<times> trust_store" where
  "trust_device c io now s did hostname key last_seen =
     (case trust_validate c (JStr did) (JStr key) of
        Inl e \<Rightarrow> (Inl e, s)
      | Inr _ \<Rightarrow>
          (case fingerprint_from_public_key c key of
             Inl e \<Rightarrow> (Inl e, s)
           | Inr fp \<Rightarrow>
               (let r = \<lparr>td_device_id = did, td_hostname = take 255 hostname, td_public_key = key,
                         td_fingerprint = fp,
                         td_first_trusted_at =
                           (case dict_get (ts_devices s) did of
                              None \<Rightarrow> now | Some old \<Rightarrow> td_first_trusted_at old),
                         td_last_seen_at =
                           (case last_seen of None \<Rightarrow> now | Some t \<Rightarrow> if t = 0 then now else t),
                         td_status = trust_value TRUSTED\<rparr>;
                    (res, s') = trust_save io (s\<lparr>ts_devices := dict_set did r (ts_devices s)\<rparr>)
                in (bind_result res (\<lambda>_. Inr r), s'))))"

definition reject_device ::
  "crypto \<Rightarrow> bool \<Rightarrow> time \<Rightarrow> trust_store \<Rightarrow> string \<Rightarrow> string \<Rightarrow> string
   \<Rightarrow> trusted_device result \<times> trust_store" where
  "reject_device c io now s did hostname key =
     (case trust_validate c (JStr did) (JStr key) of
        Inl e \<Rightarrow> (Inl e, s)
      | Inr _ \<Rightarrow>
          (case fingerprint_from_public_key c key of
             Inl e \<Rightarrow> (Inl e, s)
           | Inr fp \<Rightarrow>
               (let r = \<lparr>td_device_id = did, td_hostname = take 255 hostname, td_public_key = key,
                         td_fingerprint = fp, td_first_trusted_at = now, td_last_seen_at = now,
                         td_status = trust_value REJECTED_DEVICE\<rparr>;
                    (res, s') = trust_save io (s\<lparr>ts_devices := dict_set did r (ts_devices s)\<rparr>)
                in (bind_result res (\<lambda>_. Inr r), s'))))"

definition untrust :: "bool \<Rightarrow> trust_store \<Rightarrow> string \<Rightarrow> bool result \<times> trust_store" where
  "untrust io s did =
     (if dict_get (ts_devices s) did = None then (Inr False, s)
      else let (res, s') = trust_save io (s\<lparr>ts_devices := dict_pop did (ts_devices s)\<rparr>)
           in (bind_result res (\<lambda>_. Inr True), s'))"

definition update_last_seen :: "bool \<Rightarrow> trust_store \<Rightarrow> string \<Rightarrow> time \<Rightarrow> unit result \<times> trust_store" where
  "update_last_seen io s did t =
     (case dict_get (ts_devices s) did of
        None \<Rightarrow> (Inr (), s)
      | Some r \<Rightarrow>
          if t - td_last_seen_at r < 30 then (Inr (), s)
          else trust_save io (s\<lparr>ts_devices := dict_set did (r\<lparr>td_last_seen_at := t\<rparr>) (ts_devices s)\<rparr>))"

section \<open>Commands and the invariant\<close>

datatype trust_cmd =
    Trust time string string string "time option"
  | Reject time string string string
  | Untrust string
  | Seen string time

fun trust_step :: "crypto \<Rightarrow> trust_cmd \<times> bool \<Rightarrow> trust_store \<Rightarrow> trust_store" where
  "trust_step c (Trust now did h key t, io) s = snd (trust_device c io now s did h key t)"
| "trust_step c (Reject now did h key, io) s = snd (reject_device c io now s did h key)"
| "trust_step c (Untrust did, io) s = snd (untrust io s did)"
| "trust_step c (Seen did t, io) s = snd (update_last_seen io s did t)"

definition device_ok :: "crypto \<Rightarrow> string \<Rightarrow> trusted_device \<Rightarrow> bool" where
  "device_ok c did d \<longleftrightarrow>
     td_device_id d = did \<and> key_bound c did (td_public_key d)
     \<and> fingerprint_from_public_key c (td_public_key d) = Inr (td_fingerprint d)
     \<and> td_status d \<in> {trust_value TRUSTED, trust_value REJECTED_DEVICE}"

definition trust_inv :: "crypto \<Rightarrow> trust_store \<Rightarrow> bool" where
  "trust_inv c s \<longleftrightarrow>
     dict_ok (ts_devices s) \<and> (\<forall>did d. dict_get (ts_devices s) did = Some d \<longrightarrow> device_ok c did d)"

lemma trust_validate_bound:
  "trust_validate c (JStr did) (JStr key) = Inr p \<Longrightarrow> key_bound c did key \<and> p = (did, key)"
  by (auto simp: trust_validate_def key_bound_def)

lemma trust_validate_eq:
  "trust_validate c did key = Inr (d, k) \<longleftrightarrow> did = JStr d \<and> key = JStr k \<and> key_bound c d k"
  by (auto simp: trust_validate_def key_bound_def)

lemma save_devices [simp]: "ts_devices (snd (trust_save io s)) = ts_devices s"
  by (simp add: trust_save_def)

text \<open>What each command does to the dictionary.\<close>

lemma trust_device_devices:
  "ts_devices (snd (trust_device c io now s did h key t)) = ts_devices s \<or>
   (\<exists>r. ts_devices (snd (trust_device c io now s did h key t)) = dict_set did r (ts_devices s)
        \<and> device_ok c did r \<and> td_public_key r = key \<and> td_status r = trust_value TRUSTED)"
proof (cases "trust_validate c (JStr did) (JStr key)")
  case (Inr p)
  note bound = trust_validate_bound [OF Inr]
  show ?thesis
  proof (cases "fingerprint_from_public_key c key")
    case fp: (Inr f)
    show ?thesis
      by (rule disjI2, simp add: trust_device_def Inr fp Let_def prod.case_eq_if)
         (rule exI, rule conjI, rule refl, simp add: device_ok_def bound fp)
  qed (simp add: trust_device_def Inr)
qed (simp add: trust_device_def)

lemma reject_device_devices:
  "ts_devices (snd (reject_device c io now s did h key)) = ts_devices s \<or>
   (\<exists>r. ts_devices (snd (reject_device c io now s did h key)) = dict_set did r (ts_devices s)
        \<and> device_ok c did r \<and> td_public_key r = key \<and> td_status r = trust_value REJECTED_DEVICE)"
proof (cases "trust_validate c (JStr did) (JStr key)")
  case (Inr p)
  note bound = trust_validate_bound [OF Inr]
  show ?thesis
  proof (cases "fingerprint_from_public_key c key")
    case fp: (Inr f)
    show ?thesis
      by (rule disjI2, simp add: reject_device_def Inr fp Let_def prod.case_eq_if)
         (rule exI, rule conjI, rule refl, simp add: device_ok_def bound fp)
  qed (simp add: reject_device_def Inr)
qed (simp add: reject_device_def)

lemma untrust_devices:
  "ts_devices (snd (untrust io s did)) \<in> {ts_devices s, dict_pop did (ts_devices s)}"
  by (auto simp: untrust_def prod.case_eq_if)

lemma update_last_seen_devices:
  "ts_devices (snd (update_last_seen io s did t)) = ts_devices s \<or>
   (\<exists>r. dict_get (ts_devices s) did = Some r \<and>
        ts_devices (snd (update_last_seen io s did t)) =
          dict_set did (r\<lparr>td_last_seen_at := t\<rparr>) (ts_devices s))"
  by (auto simp: update_last_seen_def split: option.splits)

lemma trust_inv_set:
  "trust_inv c s \<Longrightarrow> device_ok c did r \<Longrightarrow> ts_devices s' = dict_set did r (ts_devices s) \<Longrightarrow> trust_inv c s'"
  by (auto simp: trust_inv_def split: if_splits)

lemma trust_inv_same: "trust_inv c s \<Longrightarrow> ts_devices s' = ts_devices s \<Longrightarrow> trust_inv c s'"
  by (simp add: trust_inv_def)

lemma trust_step_inv:
  assumes inv: "trust_inv c s"
  shows "trust_inv c (trust_step c cmd s)"
proof -
  obtain k io where cmd: "cmd = (k, io)" by force
  note keep = trust_inv_same [OF inv] and put = trust_inv_set [OF inv]
  show ?thesis
  proof (cases k)
    case (Trust now did h key t)
    show ?thesis
      unfolding cmd Trust trust_step.simps
      using trust_device_devices [of c io now s did h key t]
      by (elim disjE exE conjE) (erule keep, erule put, assumption)
  next
    case (Reject now did h key)
    show ?thesis
      unfolding cmd Reject trust_step.simps
      using reject_device_devices [of c io now s did h key]
      by (elim disjE exE conjE) (erule keep, erule put, assumption)
  next
    case (Untrust did)
    show ?thesis
      unfolding cmd Untrust trust_step.simps
      using untrust_devices [of io s did] inv
      by (auto simp: trust_inv_def split: if_splits)
  next
    case (Seen did t)
    have "trust_inv c (snd (update_last_seen io s did t))"
      using update_last_seen_devices [of io s did t]
    proof (elim disjE exE conjE)
      fix r assume r: "dict_get (ts_devices s) did = Some r"
      then have "device_ok c did r" using inv by (simp add: trust_inv_def)
      then have "device_ok c did (r\<lparr>td_last_seen_at := t\<rparr>)" by (simp add: device_ok_def)
      then show ?thesis if "ts_devices (snd (update_last_seen io s did t)) =
          dict_set did (r\<lparr>td_last_seen_at := t\<rparr>) (ts_devices s)"
        using put that by blast
    qed (rule keep)
    then show ?thesis by (simp add: cmd Seen)
  qed
qed

interpretation trust_machine: machine "trust_step c" "trust_inv c"
  by unfold_locales (rule trust_step_inv)

section \<open>The store as a map\<close>

text \<open>What a decision about a device is, abstractly: the key and the status last decided for it.\<close>

definition trust_view :: "trust_store \<Rightarrow> string \<Rightarrow> (string \<times> string) option" where
  "trust_view s did = map_option (\<lambda>r. (td_public_key r, td_status r)) (dict_get (ts_devices s) did)"

fun trust_spec ::
  "crypto \<Rightarrow> trust_cmd \<times> bool \<Rightarrow> (string \<Rightarrow> (string \<times> string) option) \<Rightarrow> string \<Rightarrow> (string \<times> string) option" where
  "trust_spec c (Trust now did h key t, io) m = (if key_bound c did key then m(did \<mapsto> (key, trust_value TRUSTED)) else m)"
| "trust_spec c (Reject now did h key, io) m =
     (if key_bound c did key then m(did \<mapsto> (key, trust_value REJECTED_DEVICE)) else m)"
| "trust_spec c (Untrust did, io) m = m(did := None)"
| "trust_spec c (Seen did t, io) m = m"

lemma trust_validate_bound_eq:
  "key_bound c did key \<Longrightarrow> trust_validate c (JStr did) (JStr key) = Inr (did, key)"
  by (simp add: trust_validate_eq)

lemma trust_validate_unbound:
  "\<not> key_bound c did key \<Longrightarrow> \<exists>e. trust_validate c (JStr did) (JStr key) = Inl e"
  using trust_validate_bound by (cases "trust_validate c (JStr did) (JStr key)") blast+

lemma trust_device_view:
  "trust_view (snd (trust_device c io now s did h key t)) =
     (if key_bound c did key then (trust_view s)(did \<mapsto> (key, trust_value TRUSTED)) else trust_view s)"
proof (cases "key_bound c did key")
  case True
  then obtain fp where "fingerprint_from_public_key c key = Inr fp"
    by (auto simp: key_bound_def dest: device_id_from_decoded)
  with True show ?thesis
    by (simp add: trust_device_def trust_validate_bound_eq Let_def prod.case_eq_if trust_view_def fun_eq_iff)
next
  case False
  then show ?thesis using trust_validate_unbound [OF False] by (auto simp: trust_device_def)
qed

lemma reject_device_view:
  "trust_view (snd (reject_device c io now s did h key)) =
     (if key_bound c did key then (trust_view s)(did \<mapsto> (key, trust_value REJECTED_DEVICE)) else trust_view s)"
proof (cases "key_bound c did key")
  case True
  then obtain fp where "fingerprint_from_public_key c key = Inr fp"
    by (auto simp: key_bound_def dest: device_id_from_decoded)
  with True show ?thesis
    by (simp add: reject_device_def trust_validate_bound_eq Let_def prod.case_eq_if trust_view_def fun_eq_iff)
next
  case False
  then show ?thesis using trust_validate_unbound [OF False] by (auto simp: reject_device_def)
qed

lemma trust_step_view: "trust_inv c s \<Longrightarrow> trust_view (trust_step c cmd s) = trust_spec c cmd (trust_view s)"
proof (induction c cmd s rule: trust_step.induct)
  case (3 c did io s)
  then show ?case
    by (auto simp: untrust_def Let_def prod.case_eq_if trust_view_def trust_inv_def fun_eq_iff)
next
  case (4 c did t io s)
  then show ?case
    by (auto simp: update_last_seen_def trust_view_def fun_eq_iff split: option.split)
qed (simp_all add: trust_device_view reject_device_view)

interpretation trust_refined: refined_machine "trust_step c" "trust_inv c" trust_view "trust_spec c"
  by unfold_locales (rule trust_step_view)

lemma assess_view:
  "assess s (Some did) (Some key) =
     (if did = [] \<or> key = [] then Inr NEW
      else case trust_view s did of
             None \<Rightarrow> Inr NEW
           | Some (k, st) \<Rightarrow> if k \<noteq> key then Inr CHANGED else trust_of_value st)"
  by (simp add: assess_def trust_view_def split: option.split)

section \<open>Trust is an explicit decision\<close>

definition trusted :: "trust_store \<Rightarrow> string \<Rightarrow> string \<Rightarrow> bool" where
  "trusted s did key \<longleftrightarrow> assess s (Some did) (Some key) = Inr TRUSTED"

fun is_trust_of :: "string \<Rightarrow> string \<Rightarrow> trust_cmd \<times> bool \<Rightarrow> bool" where
  "is_trust_of did key (Trust _ d _ k _, _) \<longleftrightarrow> d = did \<and> k = key"
| "is_trust_of did key _ \<longleftrightarrow> False"

lemma trusted_iff:
  "trusted s did key \<longleftrightarrow>
     did \<noteq> [] \<and> key \<noteq> [] \<and>
     (\<exists>r. dict_get (ts_devices s) did = Some r \<and> td_public_key r = key \<and> td_status r = trust_value TRUSTED)"
  by (auto simp: trusted_def assess_def trust_of_value_def split: option.splits if_splits)

lemma trusted_same: "ts_devices s' = ts_devices s \<Longrightarrow> trusted s' did key \<longleftrightarrow> trusted s did key"
  by (simp add: trusted_iff)

lemma trusted_set:
  "ts_devices s' = dict_set d r (ts_devices s) \<Longrightarrow> trusted s' did key \<Longrightarrow>
   trusted s did key \<or> d = did \<and> td_public_key r = key \<and> td_status r = trust_value TRUSTED"
  by (auto simp: trusted_iff split: if_splits)

lemma trusted_step:
  assumes now: "trusted (trust_step c cmd s) did key"
  shows "trusted s did key \<or> is_trust_of did key cmd"
proof -
  obtain k io where cmd: "cmd = (k, io)" by force
  show ?thesis
  proof (cases k)
    case (Trust t d h pk seen)
    show ?thesis
      using trust_device_devices [of c io t s d h pk seen] now
      by (auto simp: cmd Trust dest: trusted_same trusted_set)
  next
    case (Reject t d h pk)
    show ?thesis
      using reject_device_devices [of c io t s d h pk] now
      by (auto simp: cmd Reject dest: trusted_same trusted_set)
  next
    case (Untrust d)
    show ?thesis
      using untrust_devices [of io s d] now
      by (auto simp: cmd Untrust trusted_iff split: if_splits)
  next
    case (Seen d t)
    show ?thesis
      using update_last_seen_devices [of io s d t] now
      by (auto simp: cmd Seen trusted_iff split: if_splits)
  qed
qed

lemma trusted_run:
  "trusted (fold (trust_step c) cmds s) did key \<Longrightarrow>
   trusted s did key \<or> list_ex (is_trust_of did key) cmds"
  by (induction cmds arbitrary: s) (auto dest: trusted_step)

text \<open>A decision holds: after a valid \<open>trust\<close> the pair is trusted, after a valid \<open>reject\<close> it is not.\<close>

lemma key_bound_nonempty: "key_bound c did key \<Longrightarrow> did \<noteq> [] \<and> key \<noteq> []"
  by (auto simp: key_bound_def device_id_ok_def decode_public_key_def b64decode_def b64quads.simps)

lemma trust_takes_effect:
  "key_bound c did key \<Longrightarrow> trusted (snd (trust_device c io now s did h key t)) did key"
proof -
  assume b: "key_bound c did key"
  then obtain f where f: "fingerprint_from_public_key c key = Inr f"
    by (auto simp: key_bound_def dest: device_id_from_decoded)
  have v: "trust_validate c (JStr did) (JStr key) = Inr (did, key)"
    using b by (simp add: trust_validate_eq)
  show ?thesis
    using key_bound_nonempty [OF b]
    by (simp add: trusted_iff trust_device_def v f Let_def prod.case_eq_if)
qed

lemma reject_takes_effect:
  "key_bound c did key \<Longrightarrow> \<not> trusted (snd (reject_device c io now s did h key)) did key'"
proof -
  assume b: "key_bound c did key"
  then obtain f where f: "fingerprint_from_public_key c key = Inr f"
    by (auto simp: key_bound_def dest: device_id_from_decoded)
  have v: "trust_validate c (JStr did) (JStr key) = Inr (did, key)"
    using b by (simp add: trust_validate_eq)
  show ?thesis
    by (auto simp add: trusted_iff reject_device_def v f Let_def prod.case_eq_if)
qed

lemma untrust_takes_effect: "\<not> trusted (snd (untrust io s did)) did key"
  by (auto simp: trusted_iff untrust_def prod.case_eq_if)

section \<open>Persistence round trip\<close>

text \<open>Records that survive a restart: the loader also checks the name and the clock values.\<close>

definition device_loadable :: "trusted_device \<Rightarrow> bool" where
  "device_loadable d \<longleftrightarrow>
     hostname_ok (td_hostname d) \<and> 0 \<le> td_first_trusted_at d \<and> 0 \<le> td_last_seen_at d"

lemma load_device_json:
  assumes "device_ok c did d" "device_loadable d"
  shows "load_device c did (device_json d) = Inr d"
proof -
  have v: "trust_validate c (JStr did) (JStr (td_public_key d)) = Inr (did, td_public_key d)"
    using assms by (simp add: trust_validate_eq device_ok_def)
  show ?thesis
    using assms
    by (auto simp: load_device_def device_json_def device_ok_def device_loadable_def v
        device_fields_def validate_timestamp_def)
qed

lemma load_device_bad_hostname:
  assumes "device_ok c did d" "\<not> hostname_ok (td_hostname d)"
  shows "load_device c did (device_json d) = Inl (ValueError ''Invalid trusted hostname'')"
proof -
  have v: "trust_validate c (JStr did) (JStr (td_public_key d)) = Inr (did, td_public_key d)"
    using assms by (simp add: trust_validate_eq device_ok_def)
  show ?thesis
    using assms
    by (auto simp: load_device_def device_json_def device_ok_def v device_fields_def)
qed

lemma load_device_unloadable:
  assumes "device_ok c did d" "\<not> device_loadable d"
  shows "\<exists>m. load_device c did (device_json d) = Inl (ValueError m)"
proof -
  have v: "trust_validate c (JStr did) (JStr (td_public_key d)) = Inr (did, td_public_key d)"
    using assms by (simp add: trust_validate_eq device_ok_def)
  show ?thesis
    using assms
    by (cases "hostname_ok (td_hostname d)")
       (auto simp: load_device_def device_json_def device_ok_def device_loadable_def v device_fields_def
          validate_timestamp_def timestamp_error_def)
qed

lemma load_devices_json:
  "\<forall>(k, d) \<in> set devs. device_ok c k d \<Longrightarrow>
   load_devices c (map (\<lambda>(k, d). (k, device_json d)) devs) = Inr (filter (\<lambda>(k, d). device_loadable d) devs)"
proof (induction devs)
  case (Cons kd devs)
  obtain k d where kd: "kd = (k, d)" by force
  show ?case
  proof (cases "device_loadable d")
    case True
    with Cons kd show ?thesis by (simp add: load_device_json)
  next
    case False
    with Cons.prems kd obtain m where "load_device c k (device_json d) = Inl (ValueError m)"
      using load_device_unloadable [of c k d] by auto
    with Cons kd False show ?thesis by simp
  qed
qed simp

text \<open>Of any consistent store, a save and a start give back the records whose name and times the loader accepts.\<close>

definition loadable_record :: "trust_store \<Rightarrow> string \<Rightarrow> trusted_device option" where
  "loadable_record s did =
     (case dict_get (ts_devices s) did of
        None \<Rightarrow> None | Some r \<Rightarrow> if device_loadable r then Some r else None)"

lemma trust_reload_loadable:
  assumes inv: "trust_inv c s"
  shows "\<exists>s'. trust_load c (ts_disk (snd (trust_save True s))) = Inr s' \<and> dict_get (ts_devices s') = loadable_record s"
proof -
  let ?devs = "sort_key fst (ts_devices s)"
  let ?loaded = "filter (\<lambda>(k, d). device_loadable d) ?devs"
  have dok: "dict_ok (ts_devices s)" using inv by (simp add: trust_inv_def)
  then have sok: "dict_ok ?devs" by simp
  have "\<forall>(k, d) \<in> set ?devs. device_ok c k d"
    using inv dok by (auto simp: trust_inv_def dest: dict_in_get)
  then have "load_devices c (map (\<lambda>(k, d). (k, device_json d)) ?devs) = Inr ?loaded"
    by (rule load_devices_json)
  then have "trust_load c (ts_disk (snd (trust_save True s))) =
      Inr \<lparr>ts_devices = ?loaded, ts_disk = Content (trust_document (ts_devices s))\<rparr>"
    by (simp add: trust_load_def trust_save_def trust_document_def)
  moreover have "dict_get ?devs = dict_get (ts_devices s)"
    using dok by (intro dict_get_same_set) simp_all
  then have "dict_get ?loaded = loadable_record s"
    using dict_get_filter [OF sok, of "\<lambda>_ d. device_loadable d"] by (auto simp: loadable_record_def fun_eq_iff)
  ultimately show ?thesis by simp
qed

lemma trust_reload:
  assumes inv: "trust_inv c s" and ok: "\<forall>(k, d) \<in> set (ts_devices s). device_loadable d"
  shows "\<exists>s'. trust_load c (ts_disk (snd (trust_save True s))) = Inr s'
              \<and> dict_get (ts_devices s') = dict_get (ts_devices s)"
proof -
  have "loadable_record s = dict_get (ts_devices s)"
    using ok by (auto simp: loadable_record_def fun_eq_iff dest!: dict_get_in split: option.split)
  with trust_reload_loadable [OF inv] show ?thesis by simp
qed

end
