(* ===== verification/PairingInbox.thy ===== *)
theory PairingInbox
  imports Config
begin

text \<open>
  The inbox of pairing requests (\<open>core/pairing.py\<close>, \<open>PairingIdentity\<close> and \<open>PairingInbox\<close>): bounded, one
  entry per device, every entry with a deadline. Each method holds the lock; the readings of the
  clock are arguments, two of them where the code reads it twice.
\<close>

section \<open>Model\<close>

record pairing_identity =
  pr_device_id :: string
  pr_public_key :: string
  pr_fingerprint :: string
  pr_peer_ip :: string
  pr_received_at :: time
  pr_transfer_port :: int

record pairing_inbox =
  pi_max_pending :: nat
  pi_ttl :: time
  pi_items :: "(string, pairing_identity \<times> time) dict"

definition pairing_inbox_new :: "int \<Rightarrow> time \<Rightarrow> pairing_inbox result" where
  "pairing_inbox_new max_pending ttl =
     (if max_pending \<le> 0 then Inl (ValueError ''max_pending must be positive'')
      else if ttl \<le> 0 then Inl (ValueError ''ttl must be positive'')
      else Inr \<lparr>pi_max_pending = nat max_pending, pi_ttl = ttl, pi_items = []\<rparr>)"

section \<open>Operations\<close>

definition pairing_prune :: "time \<Rightarrow> pairing_inbox \<Rightarrow> pairing_inbox" where
  "pairing_prune now b = b\<lparr>pi_items := filter (\<lambda>(_, _, deadline). \<not> deadline \<le> now) (pi_items b)\<rparr>"

definition pairing_pruned_count :: "time \<Rightarrow> pairing_inbox \<Rightarrow> nat" where
  "pairing_pruned_count now b = length (filter (\<lambda>(_, _, deadline). deadline \<le> now) (pi_items b))"

definition pairing_publish ::
  "time \<Rightarrow> time \<Rightarrow> pairing_identity \<Rightarrow> pairing_inbox \<Rightarrow> unit result \<times> pairing_inbox" where
  "pairing_publish now stamp p b0 =
     (let b = pairing_prune now b0 in
      if dict_get (pi_items b) (pr_device_id p) = None \<and> pi_max_pending b \<le> length (pi_items b)
      then (Inl (ProtocolError ''Pairing inbox is full''), b)
      else (Inr (), b\<lparr>pi_items := dict_set (pr_device_id p) (p, stamp + pi_ttl b) (pi_items b)\<rparr>))"

definition pairing_get :: "time \<Rightarrow> string \<Rightarrow> pairing_inbox \<Rightarrow> pairing_identity option \<times> pairing_inbox" where
  "pairing_get now did b0 =
     (let b = pairing_prune now b0 in (map_option fst (dict_get (pi_items b) did), b))"

definition pairing_all :: "time \<Rightarrow> pairing_inbox \<Rightarrow> pairing_identity list \<times> pairing_inbox" where
  "pairing_all now b0 =
     (let b = pairing_prune now b0
      in (sort_key (\<lambda>p. - pr_received_at p) (map (fst \<circ> snd) (pi_items b)), b))"

definition pairing_remove :: "string \<Rightarrow> pairing_inbox \<Rightarrow> bool \<times> pairing_inbox" where
  "pairing_remove did b =
     (dict_get (pi_items b) did \<noteq> None, b\<lparr>pi_items := dict_pop did (pi_items b)\<rparr>)"

definition pairing_reject :: "string \<Rightarrow> pairing_inbox \<Rightarrow> bool \<times> pairing_inbox" where
  "pairing_reject = pairing_remove"

datatype pairing_cmd =
    PPublish time time pairing_identity
  | PGet time string
  | PAll time
  | PPrune time
  | PRemove string

fun pairing_step :: "pairing_cmd \<Rightarrow> pairing_inbox \<Rightarrow> pairing_inbox" where
  "pairing_step (PPublish now stamp p) b = snd (pairing_publish now stamp p b)"
| "pairing_step (PGet now did) b = snd (pairing_get now did b)"
| "pairing_step (PAll now) b = snd (pairing_all now b)"
| "pairing_step (PPrune now) b = pairing_prune now b"
| "pairing_step (PRemove did) b = snd (pairing_remove did b)"

section \<open>Invariant\<close>

definition pairing_inv :: "pairing_inbox \<Rightarrow> bool" where
  "pairing_inv b \<longleftrightarrow>
     dict_ok (pi_items b) \<and> length (pi_items b) \<le> pi_max_pending b
     \<and> (\<forall>did p t. dict_get (pi_items b) did = Some (p, t) \<longrightarrow> pr_device_id p = did)"

lemma pairing_new_inv: "pairing_inbox_new n ttl = Inr b \<Longrightarrow> pairing_inv b"
  by (auto simp: pairing_inbox_new_def pairing_inv_def split: if_splits)

lemma prune_get:
  "pairing_inv b \<Longrightarrow>
   dict_get (pi_items (pairing_prune now b)) did =
     (case dict_get (pi_items b) did of
        None \<Rightarrow> None | Some (p, t) \<Rightarrow> if t \<le> now then None else Some (p, t))"
  using dict_get_filter [of "pi_items b" "\<lambda>_ (_, t). \<not> t \<le> now" did]
  by (auto simp: pairing_prune_def pairing_inv_def split: option.splits)

lemma prune_frame [simp]:
  "pi_max_pending (pairing_prune now b) = pi_max_pending b" "pi_ttl (pairing_prune now b) = pi_ttl b"
  by (simp_all add: pairing_prune_def)

lemma pairing_prune_inv: "pairing_inv b \<Longrightarrow> pairing_inv (pairing_prune now b)"
proof -
  assume inv: "pairing_inv b"
  have "length (pi_items (pairing_prune now b)) \<le> length (pi_items b)" "dict_ok (pi_items (pairing_prune now b))"
    using inv by (simp_all add: pairing_prune_def pairing_inv_def)
  moreover have "pr_device_id p = did" if "dict_get (pi_items (pairing_prune now b)) did = Some (p, t)" for did p t
    using inv that unfolding prune_get [OF inv]
    by (auto simp: pairing_inv_def split: option.splits if_splits)
  ultimately show ?thesis
    using inv by (auto simp: pairing_inv_def)
qed

lemma pairing_publish_inv:
  assumes "pairing_inv b"
  shows "pairing_inv (snd (pairing_publish now stamp p b))"
proof -
  have "pairing_inv (pairing_prune now b)" using assms by (rule pairing_prune_inv)
  then show ?thesis
    by (auto simp: pairing_publish_def pairing_inv_def length_dict_set Let_def)
qed

lemma length_dict_pop: "length (dict_pop k d) \<le> length d"
  by (simp add: AList.delete_eq)

lemma pairing_remove_inv: "pairing_inv b \<Longrightarrow> pairing_inv (snd (pairing_remove did b))"
  using length_dict_pop [of did "pi_items b"]
  by (auto simp: pairing_remove_def pairing_inv_def)

lemma pairing_step_inv: "pairing_inv b \<Longrightarrow> pairing_inv (pairing_step c b)"
  by (cases c)
     (simp_all add: pairing_publish_inv pairing_remove_inv pairing_prune_inv pairing_get_def
       pairing_all_def Let_def)

interpretation pairing_machine: machine pairing_step pairing_inv
  by unfold_locales (rule pairing_step_inv)

section \<open>Lifetime of a request\<close>

definition pairing_deadline :: "pairing_inbox \<Rightarrow> string \<Rightarrow> time option" where
  "pairing_deadline b did = map_option snd (dict_get (pi_items b) did)"

text \<open>A published request is returned until its time to live has passed, and never after.\<close>

lemma publish_then_get:
  assumes "pairing_inv b" "fst (pairing_publish now stamp p b) = Inr ()"
  shows "fst (pairing_get later (pr_device_id p) (snd (pairing_publish now stamp p b))) =
         (if stamp + pi_ttl b \<le> later then None else Some p)"
proof -
  let ?b = "snd (pairing_publish now stamp p b)"
  have "dict_get (pi_items ?b) (pr_device_id p) = Some (p, stamp + pi_ttl b)"
    using assms(2) by (auto simp: pairing_publish_def Let_def split: if_splits)
  moreover have "pairing_inv ?b" using assms(1) by (rule pairing_publish_inv)
  ultimately show ?thesis
    by (simp add: pairing_get_def Let_def prune_get)
qed

end
