(* ===== verification/Ipaddress.thy ===== *)
theory Ipaddress
  imports Pystr
begin

text \<open>
  \<open>ipaddress.ip_address\<close> of the standard library as the program uses it: whether a string is an
  IPv4 or an IPv6 address, and the octets of an IPv4 address. The checks follow CPython's
  \<open>_parse_octet\<close>, \<open>_split_scope_id\<close> and \<open>_ip_int_from_string\<close>.
\<close>

section \<open>IPv4\<close>

definition parse_octet :: "string \<Rightarrow> nat option" where
  "parse_octet s =
     (if s \<noteq> [] \<and> list_all is_decimal s \<and> length s \<le> 3 \<and> \<not> (s \<noteq> ''0'' \<and> hd s = CHR ''0'')
         \<and> read_nat s \<le> 255
      then Some (read_nat s) else None)"

fun collect :: "'a option list \<Rightarrow> 'a list option" where
  "collect [] = Some []"
| "collect (None # xs) = None"
| "collect (Some x # xs) = map_option ((#) x) (collect xs)"

definition ipv4_parse :: "string \<Rightarrow> nat list option" where
  "ipv4_parse s =
     (let octets = split_on CHR ''.'' s
      in if length octets = 4 then collect (map parse_octet octets) else None)"

lemma collect_Some: "collect xs = Some ys \<longleftrightarrow> xs = map Some ys"
proof (induction xs arbitrary: ys)
  case (Cons x xs)
  then show ?case by (cases x; cases ys) auto
qed auto

lemma parse_octet_chars: "parse_octet s = Some n \<Longrightarrow> list_all is_decimal s"
  by (simp add: parse_octet_def split: if_splits)

lemma ipv4_parse_chars:
  assumes "ipv4_parse s = Some os"
  shows "\<forall>c \<in> set s. is_decimal c \<or> c = CHR ''.''"
proof -
  have parts: "\<forall>w \<in> set (split_on CHR ''.'' s). list_all is_decimal w"
  proof
    fix w assume w: "w \<in> set (split_on CHR ''.'' s)"
    from assms have "map parse_octet (split_on CHR ''.'' s) = map Some os"
      by (auto simp: ipv4_parse_def Let_def collect_Some split: if_splits)
    then have "parse_octet w \<in> Some ` set os"
      using w by (metis imageI list.set_map)
    then show "list_all is_decimal w" by (auto dest: parse_octet_chars)
  qed
  have "set (join sep ws) \<subseteq> set sep \<union> \<Union> (set ` set ws)" for sep and ws :: "string list"
    by (induction sep ws rule: join.induct) auto
  from this [of "[CHR ''.'']" "split_on CHR ''.'' s"] parts show ?thesis
    by (auto simp: join_split list_all_iff)
qed

section \<open>IPv6\<close>

definition parse_hextet :: "string \<Rightarrow> bool" where
  "parse_hextet s \<longleftrightarrow> s \<noteq> [] \<and> list_all is_hex s \<and> length s \<le> 4"

text \<open>The address part: \<open>parts\<close> after splitting at colons, with a dotted tail counted as two parts.\<close>

definition ipv6_parts :: "string \<Rightarrow> string list option" where
  "ipv6_parts s =
     (let parts = split_on CHR '':'' s
      in if s = [] \<or> length parts < 3 then None
         else if CHR ''.'' \<in> set (last parts)
              then (case ipv4_parse (last parts) of
                      None \<Rightarrow> None
                    | Some _ \<Rightarrow> Some (butlast parts @ [''0'', ''0'']))
              else Some parts)"

text \<open>Positions of the empty inner parts: a second one is an error.\<close>

definition inner_gaps :: "string list \<Rightarrow> nat list" where
  "inner_gaps parts = filter (\<lambda>i. parts ! i = []) [1..<length parts - 1]"

definition hextets_ok :: "string list \<Rightarrow> bool" where
  "hextets_ok parts =
     (case inner_gaps parts of
        [] \<Rightarrow> length parts = 8 \<and> list_all parse_hextet parts
      | [skip] \<Rightarrow>
          (let hi = (if hd parts = [] then skip - 1 else skip);
               lo0 = length parts - skip - 1;
               lo = (if last parts = [] then lo0 - 1 else lo0)
           in (hd parts = [] \<longrightarrow> hi = 0) \<and> (last parts = [] \<longrightarrow> lo = 0) \<and> hi + lo < 8
              \<and> list_all parse_hextet (take hi parts)
              \<and> list_all parse_hextet (drop (length parts - lo) parts))
      | _ \<Rightarrow> False)"

definition ipv6_valid :: "string \<Rightarrow> bool" where
  "ipv6_valid s \<longleftrightarrow>
     CHR ''/'' \<notin> set s
     \<and> (case find_char CHR ''%'' s of
          None \<Rightarrow> True
        | Some i \<Rightarrow> drop (Suc i) s \<noteq> [] \<and> CHR ''%'' \<notin> set (drop (Suc i) s))
     \<and> (case ipv6_parts (case find_char CHR ''%'' s of None \<Rightarrow> s | Some i \<Rightarrow> take i s) of
          None \<Rightarrow> False
        | Some parts \<Rightarrow> length parts \<le> 9 \<and> hextets_ok parts)"

text \<open>\<open>ipaddress.ip_address(s).version\<close>, \<open>None\<close> for the \<open>ValueError\<close>.\<close>

definition ip_version :: "string \<Rightarrow> nat option" where
  "ip_version s =
     (if ipv4_parse s \<noteq> None then Some 4 else if ipv6_valid s then Some 6 else None)"

lemma ip_version_examples:
  "ip_version ''192.168.1.20'' = Some 4"
  "ip_version ''999.2.3.4'' = None"
  "ip_version ''2001:db8::1'' = Some 6"
  "ip_version ''::'' = Some 6"
  "ip_version ''1::2::3'' = None"
  "ip_version ''::ffff:10.0.0.1'' = Some 6"
  by code_simp+

lemma ipv6_valid_colon:
  assumes "ipv6_valid s"
  shows "2 \<le> count_list s CHR '':''"
proof -
  define a where "a = (case find_char CHR ''%'' s of None \<Rightarrow> s | Some i \<Rightarrow> take i s)"
  have "ipv6_parts a \<noteq> None"
    using assms by (auto simp: ipv6_valid_def a_def split: option.splits)
  then have "3 \<le> length (split_on CHR '':'' a)"
    by (auto simp: ipv6_parts_def Let_def split: if_splits)
  then have 2: "2 \<le> count_list a CHR '':''"
    by (simp add: length_split_on)
  have "\<exists>t. s = a @ t"
    by (auto simp: a_def split: option.splits intro: exI [of _ "drop _ s"]) (metis append_take_drop_id)
  then obtain t where "s = a @ t" by blast
  with 2 show ?thesis by (simp add: count_list_append)
qed

lemma ip_version_no_colon: "CHR '':'' \<notin> set s \<Longrightarrow> ip_version s = Some v \<Longrightarrow> ipv4_parse s \<noteq> None"
  using ipv6_valid_colon [of s] by (auto simp: ip_version_def split: if_splits)

lemma ip_version_colon: "CHR '':'' \<in> set s \<Longrightarrow> ip_version s = Some v \<Longrightarrow> v = 6"
  using ipv4_parse_chars [of s]
  by (auto simp: ip_version_def is_decimal_def split: if_splits)

end
