(* ===== verification/Endpoint.thy ===== *)
theory Endpoint
  imports Config Ipaddress
begin

text \<open>
  \<open>core/endpoint.py\<close>: the validated pair of host and port, its parser and its text form. Neither
  resolves a name. The text form of every accepted endpoint parses back to it, except for IPv6
  scope identifiers that hold a closing bracket.
\<close>

section \<open>Data and validation\<close>

record endpoint =
  host :: string
  port :: int

definition host_label_ok :: "string \<Rightarrow> bool" where
  "host_label_ok l \<longleftrightarrow>
     l \<noteq> [] \<and> length l \<le> 63 \<and> is_alnum_ascii (hd l) \<and> is_alnum_ascii (last l)
     \<and> list_all (\<lambda>c. is_alnum_ascii c \<or> c = CHR ''_'' \<or> c = CHR ''-'') l"

definition validate_host :: "string \<Rightarrow> unit result" where
  "validate_host h =
     (if ip_version h \<noteq> None then Inr ()
      else if (let d = filter (\<lambda>c. c \<noteq> CHR ''.'') h in d \<noteq> [] \<and> list_all is_decimal d)
              \<and> CHR ''.'' \<in> set h
           then Inl (EndpointError ''Malformed IPv4 address'')
      else if CHR '':'' \<in> set h then Inl (EndpointError ''Malformed IPv6 address'')
      else let candidate = (if ends_with h CHR ''.'' then butlast h else h)
           in if candidate = [] \<or> \<not> list_all host_label_ok (split_on CHR ''.'' candidate)
              then Inl (EndpointError ''Malformed host name'')
              else Inr ())"

definition has_space :: "string \<Rightarrow> bool" where
  "has_space s \<longleftrightarrow> s \<noteq> strip s \<or> list_ex is_space s"

text \<open>\<open>Endpoint(host, port)\<close>; the port is whatever value the caller has.\<close>

definition endpoint_new :: "json \<Rightarrow> json \<Rightarrow> endpoint result" where
  "endpoint_new hv pv =
     (case hv of
        JStr h \<Rightarrow>
          if h = [] then Inl (EndpointError ''Host is required'')
          else if has_space h then Inl (EndpointError ''Address must not contain whitespace'')
          else if 253 < length h then Inl (EndpointError ''Host name is too long'')
          else (case validate_port pv of
                  Inl (TypeError m) \<Rightarrow> Inl (EndpointError m)
                | Inl (ValueError m) \<Rightarrow> Inl (EndpointError m)
                | Inl e \<Rightarrow> Inl e
                | Inr p \<Rightarrow> bind_result (validate_host h) (\<lambda>_. Inr \<lparr>host = h, port = p\<rparr>))
      | _ \<Rightarrow> Inl (EndpointError ''Host is required''))"

section \<open>Parsing\<close>

definition parse_port :: "string \<Rightarrow> int result" where
  "parse_port s =
     (if s = [] \<or> \<not> list_all is_decimal s then Inl (EndpointError ''Port must be a number'')
      else (case validate_port (JInt (int (read_nat s))) of
              Inl (TypeError m) \<Rightarrow> Inl (EndpointError m)
            | Inl (ValueError m) \<Rightarrow> Inl (EndpointError m)
            | r \<Rightarrow> r))"

text \<open>
  The bracketed form. The error for brackets around an IPv4 address is raised inside the \<open>try\<close> whose
  handler turns every \<open>ValueError\<close> (of which \<open>EndpointError\<close> is one) into ``Malformed IPv6 address''.
\<close>

definition parse_bracketed :: "string \<Rightarrow> endpoint result" where
  "parse_bracketed s =
     (case find_char CHR '']'' s of
        None \<Rightarrow> Inl (EndpointError ''Invalid IPv6 bracket syntax'')
      | Some close \<Rightarrow>
          let h = drop 1 (take close s); rest = drop (Suc close) s
          in if h = [] \<or> \<not> starts_with '':'' rest \<or> length rest = 1 \<or> CHR '':'' \<in> set (drop 1 rest)
             then Inl (EndpointError ''Invalid IPv6 endpoint'')
             else if ip_version h \<noteq> Some 6 then Inl (EndpointError ''Malformed IPv6 address'')
             else bind_result (parse_port (drop 1 rest)) (\<lambda>p. endpoint_new (JStr h) (JInt p)))"

definition endpoint_parse :: "string \<Rightarrow> int \<Rightarrow> endpoint result" where
  "endpoint_parse s default_port =
     (if s = [] then Inl (EndpointError ''Address is required'')
      else if has_space s then Inl (EndpointError ''Address must not contain whitespace'')
      else if hd s = CHR ''['' then parse_bracketed s
      else if CHR ''['' \<in> set s \<or> CHR '']'' \<in> set s
           then Inl (EndpointError ''Invalid bracket syntax'')
      else if count_list s CHR '':'' = 0 then endpoint_new (JStr s) (JInt default_port)
      else if count_list s CHR '':'' = 1
           then (case split_on CHR '':'' s of
                   [h, p] \<Rightarrow> bind_result (parse_port p) (\<lambda>p. endpoint_new (JStr h) (JInt p))
                 | _ \<Rightarrow> Inl (EndpointError ''Malformed address''))
      else (case ip_version s of
              None \<Rightarrow> Inl (EndpointError ''Malformed IPv6 address'')
            | Some v \<Rightarrow> if v \<noteq> 6 then Inl (EndpointError ''Malformed address'')
                        else endpoint_new (JStr s) (JInt default_port)))"

definition endpoint_str :: "endpoint \<Rightarrow> string" where
  "endpoint_str e =
     (if CHR '':'' \<in> set (host e) then ''['' @ host e @ '']'' else host e) @ '':'' @ show_int (port e)"

section \<open>Accepted endpoints\<close>

text \<open>What the constructor establishes: every endpoint in the program satisfies it.\<close>

definition endpoint_ok :: "endpoint \<Rightarrow> bool" where
  "endpoint_ok e \<longleftrightarrow>
     host e \<noteq> [] \<and> list_all (\<lambda>c. \<not> is_space c) (host e) \<and> length (host e) \<le> 253
     \<and> 1 \<le> port e \<and> port e \<le> 65535 \<and> validate_host (host e) = Inr ()"

lemma has_space_iff [simp]: "has_space s \<longleftrightarrow> list_ex is_space s"
proof (cases "list_ex is_space s")
  case False
  then have "strip s = s" by (intro strip_id) (auto simp: list_ex_iff)
  with False show ?thesis by (simp add: has_space_def)
qed (simp add: has_space_def)

lemma endpoint_new_eq:
  "endpoint_new (JStr h) (JInt p) = Inr e \<longleftrightarrow> e = \<lparr>host = h, port = p\<rparr> \<and> endpoint_ok e"
  by (auto simp: endpoint_new_def endpoint_ok_def list_ex_iff list_all_iff)

lemma endpoint_new_ok: "endpoint_new hv pv = Inr e \<Longrightarrow> endpoint_ok e"
  by (auto simp: endpoint_new_def endpoint_ok_def list_ex_iff list_all_iff
      dest: validate_port_range split: json.splits if_splits sum.splits exn.splits)

lemma parse_port_ok: "parse_port s = Inr p \<Longrightarrow> 1 \<le> p \<and> p \<le> 65535"
  by (auto simp: parse_port_def split: if_splits)

lemma parse_port_show [simp]: "1 \<le> p \<Longrightarrow> p \<le> 65535 \<Longrightarrow> parse_port (show_int p) = Inr p"
  using show_nat_decimal by (simp add: parse_port_def show_int_def list_all_iff)

lemma show_int_port_chars:
  "1 \<le> p \<Longrightarrow> c \<in> set (show_int p) \<Longrightarrow> is_decimal c"
  using show_nat_decimal by (simp add: show_int_def)

lemma endpoint_parse_ok: "endpoint_parse s d = Inr e \<Longrightarrow> endpoint_ok e"
  by (auto simp: endpoint_parse_def parse_bracketed_def Let_def
      intro: endpoint_new_ok split: if_splits option.splits list.splits)

text \<open>Hosts without a colon are made of letters, digits, dots, hyphens and underscores.\<close>

lemma host_label_chars:
  "host_label_ok l \<Longrightarrow> c \<in> set l \<Longrightarrow> is_alnum_ascii c \<or> c = CHR ''_'' \<or> c = CHR ''-''"
  by (auto simp: host_label_ok_def list_all_iff)

lemma plain_host_chars:
  assumes "validate_host h = Inr ()" and "CHR '':'' \<notin> set h" and c: "c \<in> set h"
  shows "is_alnum_ascii c \<or> c \<in> {CHR ''_'', CHR ''-'', CHR ''.''}"
proof (cases "ip_version h")
  case (Some v)
  then obtain os where "ipv4_parse h = Some os"
    using ip_version_no_colon assms(2) by blast
  then show ?thesis using ipv4_parse_chars c by (auto simp: is_alnum_ascii_def)
next
  case None
  define cand where "cand = (if ends_with h CHR ''.'' then butlast h else h)"
  have labels: "\<forall>l \<in> set (split_on CHR ''.'' cand). host_label_ok l"
    using assms None by (auto simp: validate_host_def cand_def Let_def list_all_iff split: if_splits)
  have sub: "set (join sep ws) \<subseteq> set sep \<union> \<Union> (set ` set ws)" for sep and ws :: "string list"
    by (induction sep ws rule: join.induct) auto
  have "set h \<subseteq> insert CHR ''.'' (set cand)"
  proof (cases "ends_with h CHR ''.''")
    case True
    then have "h = butlast h @ [CHR ''.'']"
      by (auto simp: ends_with_def) (metis append_butlast_last_id)
    then have "set h = set (butlast h @ [CHR ''.''])" by simp
    with True show ?thesis by (auto simp: cand_def)
  qed (auto simp: cand_def)
  with c have "c = CHR ''.'' \<or> c \<in> set cand" by auto
  moreover have "c = CHR ''.'' \<or> (\<exists>l \<in> set (split_on CHR ''.'' cand). c \<in> set l)" if "c \<in> set cand"
    using that sub [of "[CHR ''.'']" "split_on CHR ''.'' cand"] by (auto simp: join_split)
  ultimately show ?thesis using labels host_label_chars by blast
qed

lemma bracket_not_space: "\<not> is_space CHR ''[''" "\<not> is_space CHR '']''" "\<not> is_space CHR '':''"
  by (simp_all add: is_space_def)

lemma decimal_not_space: "is_decimal c \<Longrightarrow> \<not> is_space c"
  and decimal_not_colon: "is_decimal c \<Longrightarrow> c \<noteq> CHR '':''"
  and decimal_not_bracket: "is_decimal c \<Longrightarrow> c \<noteq> CHR ''['' \<and> c \<noteq> CHR '']''"
  by (auto simp: char_defs)

lemma str_has_no_space:
  assumes "endpoint_ok e" shows "\<not> has_space (endpoint_str e)"
  using assms show_int_port_chars [of "port e"] decimal_not_space bracket_not_space
  by (auto simp: endpoint_str_def endpoint_ok_def list_ex_iff list_all_iff)

lemma parse_str_plain:
  assumes ok: "endpoint_ok e" and plain: "CHR '':'' \<notin> set (host e)"
  shows "endpoint_parse (endpoint_str e) d = Inr e"
proof -
  let ?p = "show_int (port e)"
  have str: "endpoint_str e = host e @ CHR '':'' # ?p"
    using plain by (simp add: endpoint_str_def)
  have port: "1 \<le> port e" "port e \<le> 65535" and h: "host e \<noteq> []"
    and vh: "validate_host (host e) = Inr ()"
    using ok by (auto simp: endpoint_ok_def)
  have pdec: "\<forall>c \<in> set ?p. is_decimal c"
    using show_int_port_chars port by blast
  have hbr: "CHR ''['' \<notin> set (host e)" "CHR '']'' \<notin> set (host e)"
    using plain_host_chars [OF vh plain, of "CHR ''[''"] plain_host_chars [OF vh plain, of "CHR '']''"]
    by (auto simp: char_defs)
  have pbr: "CHR ''['' \<notin> set ?p" "CHR '']'' \<notin> set ?p" "CHR '':'' \<notin> set ?p"
    using pdec decimal_not_bracket decimal_not_colon by blast+
  have "hd (endpoint_str e) \<noteq> CHR ''[''"
    using h hbr str by (cases "host e") auto
  moreover have "count_list (endpoint_str e) CHR '':'' = 1"
    using plain pbr str by (simp add: count_list_append count_list_0_iff)
  moreover have "split_on CHR '':'' (endpoint_str e) = [host e, ?p]"
    using plain pbr str by (simp add: split_on_append)
  moreover have "endpoint_new (JStr (host e)) (JInt (port e)) = Inr e"
    using ok by (simp add: endpoint_new_eq)
  ultimately show ?thesis
    using str_has_no_space [OF ok] hbr pbr port by (simp add: endpoint_parse_def str)
qed

lemma parse_str_ipv6:
  assumes ok: "endpoint_ok e" and colon: "CHR '':'' \<in> set (host e)" and br: "CHR '']'' \<notin> set (host e)"
  shows "endpoint_parse (endpoint_str e) d = Inr e"
proof -
  let ?p = "show_int (port e)"
  have str: "endpoint_str e = CHR ''['' # host e @ CHR '']'' # CHR '':'' # ?p"
    using colon by (simp add: endpoint_str_def)
  have port: "1 \<le> port e" "port e \<le> 65535" and h: "host e \<noteq> []"
    and vh: "validate_host (host e) = Inr ()"
    using ok by (auto simp: endpoint_ok_def)
  have v6: "ip_version (host e) = Some 6"
    using vh colon ip_version_colon by (auto simp: validate_host_def split: if_splits)
  have find: "find_char CHR '']'' (endpoint_str e) = Some (Suc (length (host e)))"
    using br str by simp
  have p: "?p \<noteq> []" "CHR '':'' \<notin> set ?p"
    using show_int_port_chars [of "port e"] decimal_not_colon port by (auto simp: show_int_def)
  have "endpoint_new (JStr (host e)) (JInt (port e)) = Inr e"
    using ok by (simp add: endpoint_new_eq)
  then have "parse_bracketed (endpoint_str e) = Inr e"
    using find h p v6 port by (simp add: parse_bracketed_def str)
  then show ?thesis
    using str_has_no_space [OF ok] by (simp add: endpoint_parse_def str)
qed

definition endpoint_printable :: "endpoint \<Rightarrow> bool" where
  "endpoint_printable e \<longleftrightarrow> endpoint_ok e \<and> CHR '']'' \<notin> set (host e)"

interpretation endpoint_codec: codec endpoint_str "\<lambda>s. endpoint_parse s d" endpoint_printable
  by unfold_locales (use parse_str_plain parse_str_ipv6 in \<open>auto simp: endpoint_printable_def\<close>)

text \<open>Brackets around the whole text leave no room for the colon the parser demands.\<close>

lemma parse_bracketed_alone: "\<exists>x. endpoint_parse (CHR ''['' # h @ [CHR '']'']) d = Inl x"
proof (cases "endpoint_parse (CHR ''['' # h @ [CHR '']'']) d")
  case (Inr e)
  let ?s = "CHR ''['' # h @ [CHR '']'']"
  from Inr have b: "parse_bracketed ?s = Inr e" by (simp add: endpoint_parse_def split: if_splits)
  then obtain close where close: "find_char CHR '']'' ?s = Some close"
    and rest: "starts_with '':'' (drop (Suc close) ?s)" "length (drop (Suc close) ?s) \<noteq> 1"
    and port: "\<exists>p. parse_port (drop 1 (drop (Suc close) ?s)) = Inr p"
    by (auto simp: parse_bracketed_def Let_def split: option.splits if_splits)
  have ne: "drop 1 (drop (Suc close) ?s) \<noteq> []"
    using rest by (cases "drop (Suc close) ?s") (auto simp del: drop_Suc_Cons)
  then have "last (drop 1 (drop (Suc close) ?s)) = CHR '']''"
    by (simp del: drop_Suc_Cons add: last_drop)
  with ne have "CHR '']'' \<in> set (drop 1 (drop (Suc close) ?s))" by (metis last_in_set)
  with port show ?thesis
    by (auto simp: parse_port_def list_all_iff is_decimal_def split: if_splits simp del: drop_Suc_Cons)
qed blast

end
