(* ===== verification/Samples.thy ===== *)
theory Samples
  imports ReceiverSafety Sender TrustStore PairingInbox Endpoint
begin

text \<open>
  Concrete inputs for the applications of the properties: a peer, its identity and keys under the toy
  primitives, and the complete exchange of one small file. The frames' texts are single bytes that
  the sample parser maps to the JSON values.
\<close>

definition sample_tid :: string where
  "sample_tid = replicate 32 (CHR ''a'')"

definition sample_digest :: string where
  "sample_digest = file_digest toy_crypto [7]"

definition sample_file :: incoming_file where
  "sample_file = \<lparr>ifile_id = ''file-0'', ifile_name = ''a.txt'', ifile_size = 1, ifile_sha256 = sample_digest\<rparr>"

definition sample_offer :: transfer_offer where
  "sample_offer = \<lparr>offer_id = sample_tid, offer_files = [sample_file], offer_total = 1, offer_message = None\<rparr>"

definition sample_key :: bytes where "sample_key = replicate 32 0"
definition sample_nonce :: bytes where "sample_nonce = replicate 12 0"

definition tagged :: "string \<Rightarrow> json" where
  "tagged kind = JObj [(''type'', JStr kind), (''transfer_id'', JStr sample_tid)]"

definition tagged_file :: "string \<Rightarrow> json" where
  "tagged_file kind =
     JObj [(''type'', JStr kind), (''transfer_id'', JStr sample_tid), (''file_id'', JStr ''file-0'')]"

definition sample_loads :: "bytes \<Rightarrow> parsed" where
  "sample_loads bs =
     (if bs = [1] then Parsed (resume_query sample_offer)
      else if bs = [2] then Parsed (tagged_file ''file_start'')
      else if bs = [3] then Parsed (chunk_header sample_tid ''file-0'' 0 0 1)
      else if bs = [4] then Parsed (tagged_file ''file_end'')
      else if bs = [5] then Parsed (tagged ''fin'')
      else if bs = [6] then Parsed (offer_json sample_offer)
      else ascii_parser bs)"

definition sample_env :: recv_env where
  "sample_env =
     \<lparr>re_crypto = toy_crypto, re_loads = sample_loads, re_key = sample_key, re_now = 100,
      re_peer_ip = ''10.0.0.2'', re_peer_id = ''mp-00000000'',
      re_commit = (\<lambda>_. \<lparr>ce_links = True, ce_races = [[(''a.txt'', [9])]], ce_temp = ''.tmp-commit-0'',
                        ce_replace = Undisturbed\<rparr>)\<rparr>"

definition frames_of :: "bytes list \<Rightarrow> net" where
  "frames_of ds = map (\<lambda>d. Arrive (sealed toy_crypto sample_key sample_nonce d)) ds"

definition sample_receiver :: receiver where
  "sample_receiver =
     \<lparr>rc_net = frames_of [[6], [1], [2], [3], [7], [4], [5]], rc_sends = [], rc_sent = [],
      rc_fs = \<lparr>fs_root = ''/received'', fs_files = [(''old'', [1])], fs_parts = [], fs_metas = []\<rparr>,
      rc_infos = [], rc_inbox = \<lparr>rm_entries = [], rm_max_pending = 32, rm_calls = []\<rparr>, rc_received = []\<rparr>"

definition sample_polls :: "poll list" where
  "sample_polls = [([], False), ([Accept sample_tid], False)]"

text \<open>A sending worker and an attempt that meets nothing.\<close>

definition sample_send_env :: send_env where
  "sample_send_env =
     \<lparr>se_crypto = toy_crypto, se_loads = sample_loads, se_key = sample_key, se_now = 100, se_source = (\<lambda>_. [7])\<rparr>"

definition idle_attempt :: attempt where
  "idle_attempt =
     \<lparr>at_cancelled = False, at_cancelled_in_delay = False, at_opened = None, at_net = [], at_sends = [],
      at_cancels = [], at_turns = 1\<rparr>"

definition sample_trust :: "string \<Rightarrow> trust_store" where
  "sample_trust h = snd (trust_device toy_crypto True 1 \<lparr>ts_devices = [], ts_disk = Missing\<rparr>
     (device_id_of_raw toy_crypto (replicate 32 0)) h (encode_public_key (replicate 32 0)) None)"

definition sample_pairing :: pairing_identity where
  "sample_pairing =
     \<lparr>pr_device_id = ''mp-00000000'', pr_public_key = encode_public_key (replicate 32 0), pr_fingerprint = ''0000'',
      pr_peer_ip = ''10.0.0.2'', pr_received_at = 1, pr_transfer_port = 5000\<rparr>"

definition sample_pairings :: pairing_inbox where
  "sample_pairings = \<lparr>pi_max_pending = 1, pi_ttl = PAIRING_REQUEST_TTL, pi_items = []\<rparr>"

section \<open>Evaluation\<close>

lemma sample_sizes [simp]: "length sample_key = 32" "length sample_nonce = NONCE_SIZE"
  by (simp_all add: sample_key_def sample_nonce_def NONCE_SIZE_def)

lemma sample_control:
  "length d \<le> HEADER_MAX_SIZE \<Longrightarrow> rc_net s = frames_of (d # ds) \<Longrightarrow>
   recv_control sample_env s =
     (parsed_object ''Invalid transfer control frame'' ''Transfer control frame must be an object'' (sample_loads d),
      s\<lparr>rc_net := frames_of ds\<rparr>)"
  using receive_control_piece [OF toy_crypto_ok(4), of sample_nonce sample_key d sample_loads "frames_of ds"]
  by (simp add: recv_control_def sample_env_def frames_of_def)

lemma sample_data:
  "length d \<le> CHUNK_SIZE \<Longrightarrow> rc_net s = frames_of (d # ds) \<Longrightarrow>
   recv_data sample_env s = (Inr d, s\<lparr>rc_net := frames_of ds\<rparr>)"
  using receive_data_piece [OF toy_crypto_ok(4), of sample_nonce sample_key d "frames_of ds"]
  by (simp add: recv_data_def sample_env_def frames_of_def)

lemma sample_digest_ok: "digest_ok sample_digest" "length sample_digest = 64"
  by (simp_all add: sample_digest_def file_digest_def digest_ok_def hexdigest_lower toy_crypto_def)

lemma sample_name_ok: "sanitize_filename ''a.txt'' = Inr ''a.txt''"
  by (simp add: sanitize_filename_def posix_name_def windows_name_def windows_tail_def last_part_def
      real_parts_def is_reserved_filename_def before_char_def reserved_names_def rstrip_def
      is_printable_def utf8_length_def ascii_upper_def starts_with_def is_lower_ascii_def)

lemma sample_tid_ok [simp]: "transfer_id_ok sample_tid"
  by (simp add: transfer_id_ok_def sample_tid_def list_all_iff char_defs)

lemma sample_offer_ok: "offer_sendable sample_offer"
  by (simp_all add: offer_sendable_def offer_wf_def sample_offer_def sample_file_def
      sample_digest_ok sample_name_ok file_ok_def file_id_ok_def char_defs limits MAX_TRANSFER_MESSAGE_LENGTH_def)

text \<open>
  The exchange, step by step: another process takes the name \<open>a.txt\<close> during the commit, so the received
  file becomes \<open>a (1).txt\<close>.
\<close>

definition sample_request :: incoming_request where
  "sample_request = make_request sample_env None sample_offer"

lemma sample_loads_simps [simp]:
  "sample_loads [1] = Parsed (resume_query sample_offer)"
  "sample_loads [2] = Parsed (tagged_file ''file_start'')"
  "sample_loads [3] = Parsed (chunk_header sample_tid ''file-0'' 0 0 1)"
  "sample_loads [4] = Parsed (tagged_file ''file_end'')"
  "sample_loads [5] = Parsed (tagged ''fin'')"
  "sample_loads [6] = Parsed (offer_json sample_offer)"
  by (simp_all add: sample_loads_def)

lemma sample_offer_object: "parsed_object a b (Parsed (offer_json sample_offer)) = Inr (offer_json sample_offer)"
  by (simp add: parsed_object_def offer_json_def)

definition after_decision :: receiver where
  "after_decision =
     sample_receiver\<lparr>rc_net := frames_of [[1], [2], [3], [7], [4], [5]],
       rc_inbox := \<lparr>rm_entries = [(sample_tid,
                       \<lparr>pd_request = sample_request\<lparr>rq_status := Req_ACCEPTED\<rparr>, pd_event = True\<rparr>)],
                    rm_max_pending = 32,
                    rm_calls = [OnRequest sample_request, OnDecision (sample_request\<lparr>rq_status := Req_ACCEPTED\<rparr>)]\<rparr>,
       rc_sent := [Control (JObj [(''type'', JStr ''transfer_response''), (''transfer_id'', JStr sample_tid),
                                  (''accepted'', JBool True)])]\<rparr>"

lemma sample_decision:
  "serve_offer sample_env None sample_polls sample_receiver = recv_session sample_env sample_offer after_decision"
proof -
  let ?s1 = "sample_receiver\<lparr>rc_net := frames_of [[1], [2], [3], [7], [4], [5]]\<rparr>"
  let ?b = "\<lparr>rm_entries = [(sample_tid, \<lparr>pd_request = sample_request, pd_event = False\<rparr>)],
              rm_max_pending = 32, rm_calls = [OnRequest sample_request]\<rparr>"
  have c: "recv_control sample_env sample_receiver = (Inr (offer_json sample_offer), ?s1)"
    by (subst sample_control [of "[6]"]) (simp_all add: sample_receiver_def HEADER_MAX_SIZE_def sample_offer_object)
  have id: "offer_id sample_offer = sample_tid" "rq_transfer_id sample_request = sample_tid"
    "rq_status sample_request = Req_PENDING_APPROVAL" "rq_reason sample_request = None"
    by (simp_all add: sample_offer_def sample_request_def make_request_def)
  have p: "publish sample_request (rc_inbox ?s1) = (Inr (), ?b)"
    by (simp add: publish_def id pending_count_def sample_receiver_def put_entry_def Let_def)
  have a: "await_decision sample_env sample_tid sample_polls (?s1\<lparr>rc_inbox := ?b\<rparr>) =
      (Inr (sample_request\<lparr>rq_status := Req_ACCEPTED\<rparr>), after_decision\<lparr>rc_sent := []\<rparr>)"
    by (simp add: sample_polls_def decided_request_def get_request_def id accept_request_def decide_def
        is_pending_def put_entry_def after_decision_def sample_receiver_def Let_def)
  show ?thesis
    using c validate_offer_json [OF sample_offer_ok] p a
    by (simp add: serve_offer_def io_bind_def sample_request_def [symmetric] id send_response_def
        build_response_def send_frame_def after_decision_def sample_receiver_def)
qed

lemma digit_one: "digit_char 1 = CHR ''1''"
proof -
  have "code (digit_char 1) = code (CHR ''1'')" by (simp add: code_digit_char)
  then show ?thesis by (simp only: code_eq_iff)
qed

lemma sample_commit:
  "part_of fs sample_tid ''file-0'' = Some bs \<Longrightarrow> fs_files fs = [(''old'', [1])] \<Longrightarrow>
   commit_partial_file (re_commit sample_env ''file-0'') sample_tid ''file-0'' ''a.txt'' fs =
     (Inr ''a (1).txt'', remove_part sample_tid ''file-0'' (write_file ''a (1).txt'' bs (write_file ''a.txt'' [9] fs)))"
proof -
  assume part: "part_of fs sample_tid ''file-0'' = Some bs" and files: "fs_files fs = [(''old'', [1])]"
  have c: "candidate ''a.txt'' 0 = ''a.txt''" "candidate ''a.txt'' (Suc 0) = ''a (1).txt''"
    by (simp_all add: candidate_def path_stem_def path_suffix_def ends_with_def show_nat.simps digit_one [simplified])
  have u: "utf8_length ''a.txt'' \<le> 255" "utf8_length ''a (1).txt'' \<le> 255" by (simp_all add: utf8_length_def)
  have r0: "resolve_destination fs ''a.txt'' = Inr ''a.txt''"
    using c u by (simp add: resolve_destination_def validate_filename_def sample_name_ok files first_free.simps)
  have r1: "resolve_destination (write_file ''a.txt'' [9] fs) ''a.txt'' = Inr ''a (1).txt''"
    using c u by (simp add: resolve_destination_def validate_filename_def sample_name_ok files write_file_def
        first_free.simps [of _ _ 0] first_free.simps [of _ _ "Suc 0"])
  show ?thesis
    using part r0 r1 by (simp add: commit_partial_file_def sample_env_def interfere_def Let_def)
qed

definition sample_record :: json where
  "sample_record = JObj (expected_record sample_file)"

definition sample_meta :: "json \<Rightarrow> json" where
  "sample_meta r = JObj [(''transfer_id'', JStr sample_tid), (''files'', JObj [(''file-0'', r)])]"

lemma sample_ids [simp]:
  "offer_id sample_offer = sample_tid" "offer_files sample_offer = [sample_file]"
  "ifile_id sample_file = ''file-0''" "ifile_name sample_file = ''a.txt''"
  "ifile_size sample_file = 1" "ifile_sha256 sample_file = sample_digest"
  by (simp_all add: sample_offer_def sample_file_def)

lemma sample_prepare:
  "prepare toy_crypto sample_offer (rc_fs after_decision) =
     (Inr [(''file-0'', \<lparr>rs_offset = 0, rs_final = None\<rparr>)],
      (rc_fs after_decision)\<lparr>fs_metas := [(sample_tid, Content (sample_meta sample_record))]\<rparr>)"
  by (simp add: prepare_def read_metadata_def after_decision_def sample_receiver_def meta_files_def
      prepare_file_def record_matches_def remove_part_def write_metadata_def sample_meta_def sample_record_def Let_def)

text \<open>The state of the receiver when the last frame of the file has been read.\<close>

lemma sample_chunk: "chunk_guard sample_offer sample_file 0 0 (chunk_header sample_tid ''file-0'' 0 0 1) = Inr 1"
  by (simp add: chunk_guard_def validate_chunk_header file_id_ok_def char_defs CHUNK_SIZE_def)
     (simp add: chunk_header_def ojget_def)

lemma sample_objects:
  "parsed_object a b (Parsed (tagged k)) = Inr (tagged k)"
  "parsed_object a b (Parsed (tagged_file k)) = Inr (tagged_file k)"
  "parsed_object a b (Parsed (resume_query sample_offer)) = Inr (resume_query sample_offer)"
  "parsed_object a b (Parsed (chunk_header t f i pos n)) = Inr (chunk_header t f i pos n)"
  by (simp_all add: parsed_object_def tagged_def tagged_file_def resume_query_def chunk_header_def)

lemma sample_frames:
  "rc_net s = frames_of ([1] # ds) \<Longrightarrow> recv_control sample_env s = (Inr (resume_query sample_offer), s\<lparr>rc_net := frames_of ds\<rparr>)"
  "rc_net s = frames_of ([2] # ds) \<Longrightarrow> recv_control sample_env s = (Inr (tagged_file ''file_start''), s\<lparr>rc_net := frames_of ds\<rparr>)"
  "rc_net s = frames_of ([3] # ds) \<Longrightarrow>
     recv_control sample_env s = (Inr (chunk_header sample_tid ''file-0'' 0 0 1), s\<lparr>rc_net := frames_of ds\<rparr>)"
  "rc_net s = frames_of ([4] # ds) \<Longrightarrow> recv_control sample_env s = (Inr (tagged_file ''file_end''), s\<lparr>rc_net := frames_of ds\<rparr>)"
  "rc_net s = frames_of ([5] # ds) \<Longrightarrow> recv_control sample_env s = (Inr (tagged ''fin''), s\<lparr>rc_net := frames_of ds\<rparr>)"
  using sample_control [of "[1]" s ds] sample_control [of "[2]" s ds] sample_control [of "[3]" s ds]
    sample_control [of "[4]" s ds] sample_control [of "[5]" s ds]
  by (simp_all add: HEADER_MAX_SIZE_def sample_objects)

lemma sample_chunks:
  assumes "rc_net s = frames_of [[3], [7], [4], [5]]"
  shows "recv_chunks sample_env sample_offer sample_file 0 0 s =
    (Inr (), store_chunk sample_offer sample_file 0 [7] (s\<lparr>rc_net := frames_of [[4], [5]]\<rparr>))"
  using sample_frames(3) [OF assms] sample_chunk
    sample_data [of "[7]" "s\<lparr>rc_net := frames_of [[7], [4], [5]]\<rparr>" "[[4], [5]]"]
  by (simp add: recv_chunks.simps [of _ _ _ 0] recv_chunks.simps [of _ _ _ "Suc 0"] CHUNK_SIZE_def)

lemma sample_end: "json_eq (tagged_file ''file_end'')
    (JObj [(''type'', JStr ''file_end''), (''transfer_id'', JStr sample_tid), (''file_id'', JStr ''file-0'')])"
  "json_eq (tagged ''fin'') (JObj [(''type'', JStr ''fin''), (''transfer_id'', JStr sample_tid)])"
  by (simp_all add: tagged_file_def tagged_def)

definition before_file :: "receiver \<Rightarrow> bool" where
  "before_file s \<longleftrightarrow>
     rc_net s = frames_of [[3], [7], [4], [5]] \<and> rc_sends s = [] \<and> rc_received s = []
     \<and> fs_files (rc_fs s) = [(''old'', [1])] \<and> fs_parts (rc_fs s) = [] \<and> fs_root (rc_fs s) = ''/received''
     \<and> fs_metas (rc_fs s) = [(sample_tid, Content (sample_meta sample_record))]
     \<and> (\<exists>i. rc_infos s = [((sample_tid, ''file-0''), i)] \<and> status i = ACTIVE)"

definition after_file :: "receiver \<Rightarrow> bool" where
  "after_file s \<longleftrightarrow>
     rc_net s = frames_of [[5]] \<and> rc_sends s = [] \<and> files_of s ''a (1).txt'' = Some [7]
     \<and> files_of s ''a.txt'' = Some [9] \<and> files_of s ''old'' = Some [1]
     \<and> map final_path (rc_received s) = [Some ''/received/a (1).txt'']"

lemma sample_recv_file:
  assumes "before_file s"
  shows "\<exists>t. recv_file sample_env sample_offer sample_file \<lparr>rs_offset = 0, rs_final = None\<rparr> s = (Inr (), t) \<and> after_file t"
proof -
  obtain i where i: "rc_infos s = [((sample_tid, ''file-0''), i)]" "status i = ACTIVE"
    using assms by (auto simp: before_file_def)
  let ?s1 = "s\<lparr>rc_fs := open_part sample_tid ''file-0'' (rc_fs s)\<rparr>"
  let ?s2 = "store_chunk sample_offer sample_file 0 [7] (?s1\<lparr>rc_net := frames_of [[4], [5]]\<rparr>)"
  let ?s3 = "?s2\<lparr>rc_net := frames_of [[5]]\<rparr>"
  let ?j = "i\<lparr>bytes_transferred := bytes_transferred i + 1, bytes_this_attempt := bytes_this_attempt i + 1\<rparr>"
  have s2: "rc_infos ?s2 = [((sample_tid, ''file-0''), ?j)]" "fs_parts (rc_fs ?s2) = [((sample_tid, ''file-0''), [7])]"
    "rc_sends ?s2 = []" "rc_received ?s2 = []" "fs_files (rc_fs ?s2) = [(''old'', [1])]"
    "fs_root (rc_fs ?s2) = ''/received''" "fs_metas (rc_fs ?s2) = [(sample_tid, Content (sample_meta sample_record))]"
    "rc_net ?s2 = frames_of [[4], [5]]"
    using assms i
    by (simp_all add: before_file_def store_chunk_def mod_info_def put_info_def open_part_def part_of_def
        write_part_def write_at_def Let_def)
  have data: "recv_file_data sample_env sample_offer sample_file 0 s = (Inr (), ?s3)"
    using assms sample_chunks [of ?s1] sample_frames(4) [of ?s2 "[[5]]"] s2 sample_end
    by (simp add: recv_file_data_def io_bind_def fs_mod_def fs_io_def expect_file_end_def before_file_def)
  have active: "info_status sample_env (sample_tid, ''file-0'') ACTIVE None s = (Inr (), s)"
    using i by (cases s) (simp add: info_status_def set_status_eq put_info_def)
  let ?fs = "remove_part sample_tid ''file-0'' (write_file ''a (1).txt'' [7] (write_file ''a.txt'' [9] (rc_fs ?s3)))"
  obtain fs4 where mark: "mark_completed sample_tid ''file-0'' ''a (1).txt'' ?fs = (Inr (), fs4)"
    and fs4: "fs_files fs4 = fs_files ?fs" "fs_root fs4 = ''/received''"
    using s2 by (simp add: mark_completed_def read_metadata_def sample_meta_def sample_record_def meta_files_def
        expected_record_def remove_part_def write_file_def write_metadata_def)
  have part: "part_of (rc_fs ?s3) sample_tid ''file-0'' = Some [7]" using s2 by (simp add: part_of_def)
  have commit: "verify_and_commit sample_env sample_offer sample_file ?s3 = (Inr ''a (1).txt'', ?s3\<lparr>rc_fs := fs4\<rparr>)"
    using sample_commit [OF part] part s2 mark
    by (simp add: verify_and_commit_def io_bind_def fs_io_def sample_digest_def)
       (simp add: sample_env_def)
  have st: "status ?j = ACTIVE" using i by simp
  let ?k = "(sample_tid, ''file-0'')"
  have stage: "io_bind (info_status sample_env ?k ACTIVE None) (\<lambda>_.
      io_bind (recv_file_data sample_env sample_offer sample_file 0) (\<lambda>_.
      verify_and_commit sample_env sample_offer sample_file)) s = (Inr ''a (1).txt'', ?s3\<lparr>rc_fs := fs4\<rparr>)"
    using data active commit by (simp add: io_bind_def)
  have infos: "rc_infos (?s3\<lparr>rc_fs := fs4\<rparr>) = [(?k, ?j)]" using s2 by simp
  obtain t where t: "io_bind (\<lambda>s. mod_info ?k (\<lambda>i. i\<lparr>bytes_transferred := 1,
        final_path := Some (final_text (rc_fs s) ''a (1).txt'')\<rparr>) s) (\<lambda>_.
      io_bind (info_status sample_env ?k COMPLETE None) (\<lambda>_.
      io_bind (send_frame (Control (file_result sample_tid ''file-0'' (Some ''a (1).txt'')))) (\<lambda>_.
      note_received ?k))) (?s3\<lparr>rc_fs := fs4\<rparr>) = (Inr (), t)" "rc_fs t = fs4" "rc_net t = frames_of [[5]]"
      "rc_sends t = []" "map final_path (rc_received t) = [Some ''/received/a (1).txt'']"
    using infos st s2(3,4) fs4(2)
    by (simp add: io_bind_def mod_info_def info_status_def set_status_eq put_info_def send_frame_def
        note_received_def final_text_def)
  have "recv_file sample_env sample_offer sample_file \<lparr>rs_offset = 0, rs_final = None\<rparr> s = (Inr (), t)"
    using t(1) by (simp add: recv_file_def Let_def io_bind_eqs(2) [where m = "io_bind (info_status _ _ _ _) _"] stage)
  moreover have "after_file t"
    using t(2-5) fs4(1) s2(5)
    by (simp add: after_file_def files_of_def file_at_def write_file_def remove_part_def)
  ultimately show ?thesis by blast
qed

lemma sample_session:
  "\<exists>s. recv_session sample_env sample_offer after_decision = (Inr (), s)
     \<and> files_of s ''a (1).txt'' = Some [7] \<and> files_of s ''a.txt'' = Some [9] \<and> files_of s ''old'' = Some [1]
     \<and> map final_path (rc_received s) = [Some ''/received/a (1).txt'']"
proof -
  let ?sts = "[(''file-0'', \<lparr>rs_offset = 0, rs_final = None\<rparr>)]"
  let ?s1 = "after_decision\<lparr>rc_net := frames_of [[2], [3], [7], [4], [5]]\<rparr>"
  let ?s2 = "?s1\<lparr>rc_fs := (rc_fs after_decision)\<lparr>fs_metas := [(sample_tid, Content (sample_meta sample_record))]\<rparr>,
                 rc_sent := rc_sent after_decision @ [Control (resume_state_json sample_offer ?sts)]\<rparr>"
  let ?s3 = "put_info (sample_tid, ''file-0'') (new_info sample_env sample_offer sample_file 0)
               (?s2\<lparr>rc_net := frames_of [[3], [7], [4], [5]]\<rparr>)"
  have "before_file ?s3"
    by (simp add: before_file_def put_info_def new_info_def after_decision_def sample_receiver_def)
  from sample_recv_file [OF this] obtain t where
    t: "recv_file sample_env sample_offer sample_file \<lparr>rs_offset = 0, rs_final = None\<rparr> ?s3 = (Inr (), t)"
    and after: "after_file t" by blast
  have start: "check_file_start sample_offer sample_file (tagged_file ''file_start'') = Inr ()"
    by (simp add: check_file_start_def tagged_file_def ojget_def)
  have "recv_control sample_env ?s2 = (Inr (tagged_file ''file_start''), ?s2\<lparr>rc_net := frames_of [[3], [7], [4], [5]]\<rparr>)"
    by (rule sample_frames(2)) simp
  moreover have "get_or_create_transfer sample_env sample_offer sample_file 0 (?s2\<lparr>rc_net := frames_of [[3], [7], [4], [5]]\<rparr>)
      = (Inr (), ?s3)"
    by (simp add: get_or_create_transfer_def after_decision_def sample_receiver_def)
  ultimately have files: "recv_files sample_env sample_offer ?sts [sample_file] ?s2 = (Inr True, t)"
    using t start by (simp add: io_bind_def recv_file_guarded_def)
  have first: "recv_control sample_env after_decision = (Inr (resume_query sample_offer), ?s1)"
    by (rule sample_frames(1)) (simp add: after_decision_def)
  have prep: "fs_io (prepare (re_crypto sample_env) sample_offer) ?s1 = (Inr ?sts,
      ?s1\<lparr>rc_fs := (rc_fs after_decision)\<lparr>fs_metas := [(sample_tid, Content (sample_meta sample_record))]\<rparr>\<rparr>)"
    using sample_prepare by (simp add: fs_io_def) (simp add: sample_env_def)
  have last: "recv_control sample_env t = (Inr (tagged ''fin''), t\<lparr>rc_net := frames_of []\<rparr>)"
    using after by (intro sample_frames(5)) (simp add: after_file_def)
  show ?thesis
    using first prep files last after
    by (simp add: recv_session_def io_bind_def resume_query_accepted send_frame_def sample_end fs_mod_def fs_io_def
        after_file_def files_of_def after_decision_def sample_receiver_def)
qed

section \<open>Other samples\<close>

lemma sample_key_bound:
  "key_bound toy_crypto (device_id_of_raw toy_crypto (replicate 32 0)) (encode_public_key (replicate 32 0))"
  using device_id_of_raw_ok [OF toy_crypto_ok(1)] decode_encode_public_key [of "replicate 32 0"]
  by (simp add: key_bound_def)

lemma sample_trust_inv: "trust_inv toy_crypto (sample_trust h)"
  unfolding sample_trust_def
  using trust_step_inv [of toy_crypto "\<lparr>ts_devices = [], ts_disk = Missing\<rparr>"
      "(Trust 1 (device_id_of_raw toy_crypto (replicate 32 0)) h (encode_public_key (replicate 32 0)) None, True)"]
  by (simp add: trust_inv_def)

lemma sample_trust_devices:
  "\<exists>r. ts_devices (sample_trust h) = [(device_id_of_raw toy_crypto (replicate 32 0), r)]
     \<and> td_hostname r = take 255 h \<and> td_first_trusted_at r = 1 \<and> td_last_seen_at r = 1"
proof -
  let ?did = "device_id_of_raw toy_crypto (replicate 32 0)" and ?key = "encode_public_key (replicate 32 0)"
  have v: "trust_validate toy_crypto (JStr ?did) (JStr ?key) = Inr (?did, ?key)"
    using sample_key_bound by (simp add: trust_validate_eq)
  obtain fp where fp: "fingerprint_from_public_key toy_crypto ?key = Inr fp"
    using sample_key_bound by (auto simp: key_bound_def dest: device_id_from_decoded)
  show ?thesis by (simp add: sample_trust_def trust_device_def v fp trust_save_def Let_def)
qed

lemma sample_ipv6: "ip_version ''::1'' = Some 6"
  by (simp add: ip_version_def ipv4_parse_def ipv6_valid_def ipv6_parts_def inner_gaps_def hextets_ok_def
      parse_hextet_def char_defs)

lemma printable_chars: "list_all is_printable (replicate n (CHR ''x''))"
  by (simp add: list_all_iff is_printable_def)

lemma sample_long_name:
  "sanitize_filename (replicate 252 (CHR ''x'')) = Inr (replicate 252 (CHR ''x''))"
  "252 \<le> utf8_length (replicate 252 (CHR ''x''))"
proof -
  let ?v = "replicate 252 (CHR ''x'')"
  have hd: "?v = CHR ''x'' # CHR ''x'' # replicate 250 (CHR ''x'')"
    by (simp add: numeral_eq_Suc)
  have u: "utf8_length ?v = 252" by (simp add: utf8_length_def sum_list_replicate)
  have r: "rstrip cs ?v = ?v" if "CHR ''x'' \<notin> set cs" for cs
    using that by (simp add: rstrip_id)
  have p: "posix_name ?v = ?v" by (simp add: hd posix_name_def last_part_def real_parts_def)
  have w: "windows_name ?v = ?v"
    by (simp add: windows_name_def windows_tail_def last_part_def real_parts_def hd starts_with_def map_replicate_const)
  have "length w < 252" if "w \<in> set reserved_names" for w
    using that by (auto simp: reserved_names_def)
  moreover have "before_char d ?v = ?v" if "d \<noteq> CHR ''x''" for d
    using that by (auto simp: before_char_def takeWhile_eq_all_conv)
  ultimately have "\<not> is_reserved_filename ?v"
    using w r by (fastforce simp: is_reserved_filename_def)
  then show "sanitize_filename ?v = Inr ?v"
    using u r p w printable_chars [of 252] by (auto simp: sanitize_filename_def hd)
  show "252 \<le> utf8_length ?v" by (simp add: u)
qed

definition sample_long :: transfer_offer where
  "sample_long = sample_offer\<lparr>offer_message := Some (replicate 4096 (CHR ''x''))\<rparr>"

lemma length_dump_upper: "length (dump_string s) \<le> 6 * length s + 2"
proof -
  have "length (concat (map escape_char s)) \<le> 6 * length s"
    by (induction s) (auto simp: escape_char_def)
  then show ?thesis by (simp add: dump_string_def)
qed

lemma sample_long_offer:
  "offer_wf sample_long" "length (payload_bytes fr (Control (offer_json sample_long))) < 2 ^ 32 - 28"
proof -
  show "offer_wf sample_long"
    using sample_offer_ok
    by (simp add: sample_long_def offer_sendable_def offer_wf_def MAX_TRANSFER_MESSAGE_LENGTH_def)
  have "length (dump_string (replicate 4096 (CHR ''x''))) \<le> 24578" "length (dump_string sample_tid) \<le> 194"
    "length (dump_string sample_digest) \<le> 386"
    using length_dump_upper [of "replicate 4096 (CHR ''x'')"] length_dump_upper [of sample_tid]
      length_dump_upper [of sample_digest] sample_digest_ok(2) by (simp_all add: sample_tid_def)
  then show "length (payload_bytes fr (Control (offer_json sample_long))) < 2 ^ 32 - 28"
    by (simp add: payload_bytes_def offer_json_def sample_long_def file_json_def show_int_def show_nat.simps
        PROTOCOL_VERSION_def sample_offer_def sample_file_def dump_string_def [of "_ # _"] escape_char_def)
qed

end
