(* ===== verification/Session.thy ===== *)
theory Session
  imports Framing TrustStore
begin

text \<open>
  \<open>core/session.py\<close>: the signed hello frames, their validation, the key derivation and the two sides
  of the handshake. Ephemeral keys and nonces, which the code draws at random, are arguments. The
  connection is the socket of \<open>Framing\<close> with what was sent and the outcome of the sends to come.
\<close>

section \<open>Connection\<close>

record connection =
  cn_net :: net
  cn_sends :: "exn option list"
  cn_sent :: "bytes list"

definition sendall :: "bytes \<Rightarrow> (connection, unit) io" where
  "sendall bs s =
     (case cn_sends s of
        Some e # sends \<Rightarrow> (Inl e, s\<lparr>cn_sends := sends\<rparr>)
      | None # sends \<Rightarrow> (Inr (), s\<lparr>cn_sends := sends, cn_sent := cn_sent s @ [bs]\<rparr>)
      | [] \<Rightarrow> (Inr (), s\<lparr>cn_sent := cn_sent s @ [bs]\<rparr>))"

definition on_net :: "(net, 'a) io \<Rightarrow> (connection, 'a) io" where
  "on_net m s = (case m (cn_net s) of (r, n) \<Rightarrow> (r, s\<lparr>cn_net := n\<rparr>))"

section \<open>Canonical text\<close>

definition MAX_HANDSHAKE_SIZE :: nat where
  "MAX_HANDSHAKE_SIZE = 8192"

definition NONCE_BYTES :: nat where
  "NONCE_BYTES = 32"

definition session_domain :: bytes where
  "session_domain = to_bytes ''direct-transfer-v3-authenticated-handshake'' @ [0]"

definition canonical :: "(pyfloat \<Rightarrow> string) \<Rightarrow> (string, json) dict \<Rightarrow> bytes" where
  "canonical fr d = to_bytes (dumps fr (sort_keys (JObj d)))"

definition unsigned :: "(string, json) dict \<Rightarrow> (string, json) dict" where
  "unsigned d = filter (\<lambda>(k, v). k \<noteq> ''signature'') d"

definition signed_bytes :: "(pyfloat \<Rightarrow> string) \<Rightarrow> (string, json) dict \<Rightarrow> bytes" where
  "signed_bytes fr d = session_domain @ canonical fr (unsigned d)"

text \<open>\<open>_b64decode\<close>: text of at most 256 characters that decodes to exactly the expected length.\<close>

definition decode_field :: "json \<Rightarrow> nat \<Rightarrow> string \<Rightarrow> bytes result" where
  "decode_field v n field =
     bind_result (as_str (ProtocolError (''Invalid '' @ field)) v) (\<lambda>s.
     bind_result (ensure (ProtocolError (''Invalid '' @ field)) (length s \<le> 256)) (\<lambda>_.
     case b64decode s of
       None \<Rightarrow> Inl (ProtocolError (''Invalid '' @ field))
     | Some raw \<Rightarrow> if length raw \<noteq> n then Inl (ProtocolError (''Invalid '' @ field @ '' length'')) else Inr raw))"

text \<open>
  Sorting the keys twice changes nothing, so a document that was written and read back has the same
  canonical text and the same signed bytes.
\<close>

definition sorted_doc :: "(string, json) dict \<Rightarrow> (string, json) dict" where
  "sorted_doc d = sort_key fst (sort_keys_fields d)"

named_theorems doc_simps \<open>a document and its sorted form\<close>

lemma sort_keys_sorted: "sort_keys (JObj d) = JObj (sorted_doc d)"
  by (simp add: sorted_doc_def)

lemma sort_fields_commute: "sort_keys_fields (sort_key fst d) = sort_key fst (sort_keys_fields d)"
  by (simp add: sort_keys_fields_map sort_map_values)

lemma sort_keys_idem:
  "sort_keys (sort_keys v) = sort_keys v"
  "sort_keys_list (sort_keys_list vs) = sort_keys_list vs"
  "sort_keys_fields (sort_keys_fields d) = sort_keys_fields d"
proof (induction v and vs and d rule: sort_keys_sort_keys_list_sort_keys_fields.induct)
  case (2 d)
  then show ?case by (simp add: sort_fields_commute sort_sorted)
qed simp_all

lemma sorted_doc_idem: "sorted_doc (sorted_doc d) = sorted_doc d"
  by (simp add: sorted_doc_def sort_fields_commute sort_sorted sort_keys_idem)

lemma canonical_sorted [doc_simps]: "canonical fr (sorted_doc d) = canonical fr d"
  by (simp only: canonical_def sort_keys_sorted sorted_doc_idem)

lemma unsigned_sorted: "unsigned (sorted_doc d) = sorted_doc (unsigned d)"
proof -
  have "filter (\<lambda>(k, v). k \<noteq> ''signature'') (sort_keys_fields d)
      = sort_keys_fields (filter (\<lambda>(k, v). k \<noteq> ''signature'') d)"
    by (induction d) auto
  then show ?thesis by (simp add: unsigned_def sorted_doc_def filter_sort)
qed

lemma signed_bytes_sorted [doc_simps]: "signed_bytes fr (sorted_doc d) = signed_bytes fr d"
  by (simp add: signed_bytes_def unsigned_sorted canonical_sorted)

lemma dict_ok_sorted: "dict_ok d \<Longrightarrow> dict_ok (sorted_doc d)"
proof -
  have "map fst (sort_keys_fields d) = map fst d" by (induction d) auto
  then show "dict_ok d \<Longrightarrow> dict_ok (sorted_doc d)" by (simp add: sorted_doc_def dict_ok_def [of "sort_keys_fields d"] dict_ok_def [of d])
qed

lemma oget_sorted [doc_simps]:
  assumes "dict_ok d"
  shows "oget (sorted_doc d) k = sort_keys (oget d k)"
proof -
  let ?g = "\<lambda>(k :: string, v). (k, sort_keys v)"
  have "dict_get (sorted_doc d) = dict_get (map ?g d)"
    using dict_ok_sorted [OF assms] assms
    by (intro dict_get_same_set)
       (auto simp: sorted_doc_def sort_keys_fields_map dict_ok_def comp_def case_prod_beta)
  then show ?thesis
    by (simp add: oget_def map_of_map split: option.split)
qed

text \<open>Flat documents: string values and integers of ordinary size, the shape of every handshake frame.\<close>

fun flat_value :: "json \<Rightarrow> bool" where
  "flat_value (JStr _) = True"
| "flat_value (JInt i) = (\<bar>i\<bar> < 10 ^ 20)"
| "flat_value _ = False"

definition flat :: "(string, json) dict \<Rightarrow> bool" where
  "flat d \<longleftrightarrow> dict_ok d \<and> (\<forall>(k, v) \<in> set d. flat_value v)"

lemma flat_fields:
  "\<forall>(k, v) \<in> set d. flat_value v \<Longrightarrow>
   sort_keys_fields d = d \<and> writable_fields d \<and> fields_depth d = 0"
proof (induction d)
  case (Cons kv d)
  obtain k v where kv: "kv = (k, v)" by force
  then have "sort_keys v = v \<and> writable v \<and> json_depth v = 0"
    using Cons.prems writable_int by (cases v) auto
  then show ?case using Cons kv by simp
qed simp

lemma flat_sorted: "flat d \<Longrightarrow> flat (sorted_doc d) \<and> sorted_doc d = sort_key fst d"
  using flat_fields [of d] dict_ok_sorted [of d] by (simp add: flat_def sorted_doc_def)

lemma flat_reads:
  assumes "reads_ascii ld" "flat d"
  shows "ld (canonical fr d) = Parsed (JObj (sorted_doc d))"
proof -
  have "flat (sorted_doc d)" by (rule conjunct1 [OF flat_sorted [OF assms(2)]])
  then have "writable (JObj (sorted_doc d))" "json_depth (JObj (sorted_doc d)) \<le> MAX_DEPTH"
    using flat_fields [of "sorted_doc d"] by (simp_all add: flat_def MAX_DEPTH_def)
  then show ?thesis
    unfolding canonical_def sort_keys_sorted by (rule reads_dumps [OF assms(1)])
qed

text \<open>The length of a flat document: every character is written with at most six.\<close>

definition field_cost :: "string \<times> json \<Rightarrow> nat" where
  "field_cost = (\<lambda>(k, v). 6 * length k + 26 + (case v of JStr s \<Rightarrow> 6 * length s | _ \<Rightarrow> 0))"

lemma length_dump_string_le: "length (dump_string s) \<le> 6 * length s + 2"
proof -
  have "length (escape_char c) \<le> 6" for c by (simp add: escape_char_def)
  then have "length (concat (map escape_char s)) \<le> 6 * length s"
    by (induction s) (auto intro: add_mono)
  then show ?thesis by (simp add: dump_string_def)
qed

lemma length_show_int: "\<bar>i\<bar> < 10 ^ 20 \<Longrightarrow> length (show_int i) \<le> 21"
  using length_show_nat [of "nat i" 20] length_show_nat [of "nat (- i)" 20]
  by (auto simp: show_int_def nat_less_iff)

lemma length_dumps_fields:
  "\<forall>(k, v) \<in> set d. flat_value v \<Longrightarrow> length (dumps_fields fr d) \<le> sum_list (map field_cost d)"
proof (induction d)
  case (Cons kv d)
  obtain k v where kv: "kv = (k, v)" by force
  have "length (dump_string k @ CHR '':'' # dumps fr v) < field_cost (k, v)"
  proof (cases v)
    case (JInt i)
    then show ?thesis
      using Cons.prems kv length_dump_string_le [of k] length_show_int [of i] by (simp add: field_cost_def)
  next
    case (JStr s)
    then show ?thesis
      using length_dump_string_le [of k] length_dump_string_le [of s] by (simp add: field_cost_def)
  qed (use Cons.prems kv in simp_all)
  then show ?case using Cons kv by (cases d) auto
qed simp

lemma flat_length:
  assumes "flat d"
  shows "length (canonical fr d) \<le> sum_list (map field_cost d) + 2"
proof -
  have "mset (map field_cost (sort_key fst d)) = mset (map field_cost d)" by simp
  then have "sum_list (map field_cost (sort_key fst d)) = sum_list (map field_cost d)"
    by (metis sum_mset_sum_list)
  then have "length (dumps_fields fr (sorted_doc d)) \<le> sum_list (map field_cost d)"
    using flat_sorted [OF assms] length_dumps_fields [of "sorted_doc d" fr] by (simp add: flat_def)
  then show ?thesis
    unfolding canonical_def sort_keys_sorted by simp
qed

section \<open>Hello frames\<close>

definition hello_fields ::
  "string \<Rightarrow> device_identity \<Rightarrow> bytes \<Rightarrow> bytes \<Rightarrow> string option \<Rightarrow> (string, json) dict" where
  "hello_fields role i eph nonce peer_hash =
     [(''type'', JStr ''hello''), (''protocol'', JInt PROTOCOL_VERSION), (''role'', JStr role),
      (''device_id'', JStr (di_device_id i)), (''identity_key'', JStr (di_public_key i)),
      (''ephemeral_key'', JStr (b64encode eph)), (''nonce'', JStr (b64encode nonce))]
     @ (case peer_hash of None \<Rightarrow> [] | Some h \<Rightarrow> [(''peer_hello_hash'', JStr h)])"

definition create_hello ::
  "crypto \<Rightarrow> (pyfloat \<Rightarrow> string) \<Rightarrow> string \<Rightarrow> device_identity \<Rightarrow> bytes \<Rightarrow> bytes \<Rightarrow> string option
   \<Rightarrow> (string, json) dict" where
  "create_hello c fr role i eph nonce peer_hash =
     (let d = hello_fields role i eph nonce peer_hash
      in d @ [(''signature'', JStr (b64encode (ed_sign c (di_private i) (signed_bytes fr d))))])"

text \<open>A failed check of the key text is re-raised as a protocol error.\<close>

definition as_protocol :: "string \<Rightarrow> 'a result \<Rightarrow> 'a result" where
  "as_protocol m r =
     (case r of Inl e \<Rightarrow> Inl (if is_ValueError e then ProtocolError m else e) | Inr x \<Rightarrow> Inr x)"

definition validate_hello ::
  "crypto \<Rightarrow> (pyfloat \<Rightarrow> string) \<Rightarrow> json \<Rightarrow> string \<Rightarrow> ((string, json) dict \<times> bytes \<times> bytes) result" where
  "validate_hello c fr payload role =
     bind_result (as_dict (ProtocolError ''Handshake must be a JSON object'') payload) (\<lambda>d.
     bind_result (ensure (ProtocolError ''Invalid handshake type'')
                    (json_eq (oget d ''type'') (JStr ''hello''))) (\<lambda>_.
     bind_result (ensure (ProtocolError ''Protocol version mismatch'')
                    (json_eq (oget d ''protocol'') (JInt PROTOCOL_VERSION))) (\<lambda>_.
     bind_result (ensure (ProtocolError ''Invalid handshake role'')
                    (json_eq (oget d ''role'') (JStr role))) (\<lambda>_.
     bind_result (as_str (ProtocolError ''Missing peer identity'') (oget d ''device_id'')) (\<lambda>did.
     bind_result (ensure (ProtocolError ''Missing peer identity'') (device_id_ok did)) (\<lambda>_.
     bind_result (as_str (ProtocolError ''Missing peer identity'') (oget d ''identity_key'')) (\<lambda>key.
     bind_result (as_protocol ''Invalid peer identity key'' (decode_public_key (JStr key))) (\<lambda>pk.
     bind_result (decode_field (oget d ''ephemeral_key'') 32 ''ephemeral key'') (\<lambda>eph.
     bind_result (decode_field (oget d ''nonce'') NONCE_BYTES ''nonce'') (\<lambda>nonce.
     bind_result (decode_field (oget d ''signature'') 64 ''signature'') (\<lambda>sig.
     bind_result (ensure (AuthenticationError ''Signature verification failed'')
                    (ed_verify c pk sig (signed_bytes fr d))) (\<lambda>_.
     Inr (d, eph, nonce)))))))))))))"

section \<open>Sending and receiving\<close>

definition send_json :: "(pyfloat \<Rightarrow> string) \<Rightarrow> (string, json) dict \<Rightarrow> (connection, unit) io" where
  "send_json fr d =
     io_bind (io_lift (ensure (ProtocolError ''Handshake frame is too large'')
                         (length (canonical fr d) \<le> MAX_HANDSHAKE_SIZE))) (\<lambda>_.
     io_bind (io_lift (pack_frame (canonical fr d))) sendall)"

definition receive_json :: "(bytes \<Rightarrow> parsed) \<Rightarrow> (connection, json) io" where
  "receive_json ld =
     io_bind (on_net (unpack_frame MAX_HANDSHAKE_SIZE)) (\<lambda>raw.
     io_lift (parsed_object ''Invalid pairing response'' ''Invalid pairing response'' (ld raw)))"

section \<open>Key derivation and the two sides\<close>

record authenticated_session =
  au_key :: bytes
  au_peer_device_id :: string

definition transcript ::
  "crypto \<Rightarrow> (pyfloat \<Rightarrow> string) \<Rightarrow> (string, json) dict \<Rightarrow> (string, json) dict \<Rightarrow> bytes" where
  "transcript c fr client server =
     sha256_digest c (canonical fr client @ [0] @ canonical fr server)"

definition derive_key ::
  "crypto \<Rightarrow> (pyfloat \<Rightarrow> string) \<Rightarrow> bytes \<Rightarrow> bytes \<Rightarrow> (string, json) dict \<Rightarrow> (string, json) dict
   \<Rightarrow> bytes \<Rightarrow> bytes \<Rightarrow> bytes result" where
  "derive_key c fr priv remote client server client_nonce server_nonce =
     (case x_exchange c priv remote of
        None \<Rightarrow> Inl (ProtocolError ''Invalid ephemeral key'')
      | Some secret \<Rightarrow>
          Inr (hkdf c (sha256_digest c (client_nonce @ server_nonce))
                 (session_domain @ transcript c fr client server) secret))"

definition hello_hash :: "crypto \<Rightarrow> (pyfloat \<Rightarrow> string) \<Rightarrow> (string, json) dict \<Rightarrow> string" where
  "hello_hash c fr d = hexdigest (sha256_digest c (canonical fr d))"

definition client_handshake ::
  "crypto \<Rightarrow> (pyfloat \<Rightarrow> string) \<Rightarrow> (bytes \<Rightarrow> parsed) \<Rightarrow> bytes \<Rightarrow> bytes \<Rightarrow> device_identity
   \<Rightarrow> trusted_device \<Rightarrow> (connection, authenticated_session) io" where
  "client_handshake c fr ld priv nonce i peer =
     io_bind (io_lift (ensure (AuthenticationError ''Peer is not trusted'')
                         (td_status peer = trust_value TRUSTED))) (\<lambda>_.
     let hello = create_hello c fr ''client'' i (x_public c priv) nonce None in
     io_bind (send_json fr hello) (\<lambda>_.
     io_bind (receive_json ld) (\<lambda>answer.
     io_bind (io_lift (validate_hello c fr answer ''server'')) (\<lambda>(server, eph, server_nonce).
     io_bind (io_lift (ensure (AuthenticationError ''Wrong peer identity'')
                         (oget server ''device_id'' = JStr (td_device_id peer)
                          \<and> oget server ''identity_key'' = JStr (td_public_key peer)))) (\<lambda>_.
     io_bind (io_lift (ensure (AuthenticationError ''Handshake transcript mismatch'')
                         (json_eq (oget server ''peer_hello_hash'') (JStr (hello_hash c fr hello))))) (\<lambda>_.
     io_bind (io_lift (derive_key c fr priv eph hello server nonce server_nonce)) (\<lambda>key.
     io_ret \<lparr>au_key = key, au_peer_device_id = td_device_id peer\<rparr>)))))))"

text \<open>The values of validated fields, for the code's indexing \<open>hello["device_id"]\<close>.\<close>

definition str_field :: "(string, json) dict \<Rightarrow> string \<Rightarrow> string" where
  "str_field d k = (case oget d k of JStr s \<Rightarrow> s | _ \<Rightarrow> [])"

definition server_handshake ::
  "crypto \<Rightarrow> (pyfloat \<Rightarrow> string) \<Rightarrow> (bytes \<Rightarrow> parsed) \<Rightarrow> bytes \<Rightarrow> bytes \<Rightarrow> device_identity
   \<Rightarrow> trust_store \<Rightarrow> json option \<Rightarrow> (connection, authenticated_session) io" where
  "server_handshake c fr ld priv nonce i store initial =
     io_bind (case initial of Some v \<Rightarrow> io_ret v | None \<Rightarrow> receive_json ld) (\<lambda>v.
     io_bind (io_lift (validate_hello c fr v ''client'')) (\<lambda>(client, eph, client_nonce).
     io_bind (io_lift (assess store (Some (str_field client ''device_id''))
                         (Some (str_field client ''identity_key'')))) (\<lambda>st.
     io_bind (io_lift (ensure (AuthenticationError ''Untrusted peer'') (st = TRUSTED))) (\<lambda>_.
     let hello = create_hello c fr ''server'' i (x_public c priv) nonce (Some (hello_hash c fr client)) in
     io_bind (send_json fr hello) (\<lambda>_.
     io_bind (io_lift (derive_key c fr priv eph client hello client_nonce nonce)) (\<lambda>key.
     io_ret \<lparr>au_key = key, au_peer_device_id = str_field client ''device_id''\<rparr>))))))"

section \<open>What a validated hello says\<close>

lemma decode_field_eq:
  "decode_field v n f = Inr raw \<longleftrightarrow>
     (\<exists>s. v = JStr s \<and> length s \<le> 256 \<and> b64decode s = Some raw \<and> length raw = n)"
  by (auto simp: decode_field_def split: option.splits)

lemma as_protocol_eq: "as_protocol m r = Inr x \<longleftrightarrow> r = Inr x"
  by (auto simp: as_protocol_def split: sum.splits)

lemma decode_encoded_field:
  "length raw = n \<Longrightarrow> n \<le> 64 \<Longrightarrow> decode_field (JStr (b64encode raw)) n f = Inr raw"
  by (auto simp: decode_field_eq length_b64encode b64decode_encode)

text \<open>The signature of a hello: made by the key it names over everything else it says.\<close>

definition hello_signed :: "crypto \<Rightarrow> (pyfloat \<Rightarrow> string) \<Rightarrow> string \<Rightarrow> (string, json) dict \<Rightarrow> bool" where
  "hello_signed c fr key d \<longleftrightarrow>
     (\<exists>pk sig. decode_public_key (JStr key) = Inr pk
        \<and> decode_field (oget d ''signature'') 64 ''signature'' = Inr sig
        \<and> ed_verify c pk sig (signed_bytes fr d))"

lemma validate_hello_eq:
  "validate_hello c fr v role = Inr (d, eph, nonce) \<longleftrightarrow>
     v = JObj d \<and> oget d ''type'' = JStr ''hello'' \<and> json_eq (oget d ''protocol'') (JInt PROTOCOL_VERSION)
     \<and> oget d ''role'' = JStr role
     \<and> decode_field (oget d ''ephemeral_key'') 32 ''ephemeral key'' = Inr eph
     \<and> decode_field (oget d ''nonce'') NONCE_BYTES ''nonce'' = Inr nonce
     \<and> (\<exists>did key. oget d ''device_id'' = JStr did \<and> device_id_ok did
          \<and> oget d ''identity_key'' = JStr key \<and> hello_signed c fr key d)"
  unfolding validate_hello_def hello_signed_def by (auto simp: as_protocol_eq)

lemma hello_signed_sorted:
  assumes "dict_ok d" "\<exists>s. oget d ''signature'' = JStr s"
  shows "hello_signed c fr key (sorted_doc d) \<longleftrightarrow> hello_signed c fr key d"
  using assms by (auto simp: hello_signed_def doc_simps)

lemma validate_sorted:
  assumes ok: "dict_ok d" and v: "validate_hello c fr (JObj d) role = Inr (d, eph, nonce)"
    and int: "oget d ''protocol'' = JInt PROTOCOL_VERSION"
  shows "validate_hello c fr (JObj (sorted_doc d)) role = Inr (sorted_doc d, eph, nonce)"
proof -
  have "\<exists>s. oget d ''signature'' = JStr s" "\<exists>s. oget d ''ephemeral_key'' = JStr s" "\<exists>s. oget d ''nonce'' = JStr s"
    using v by (auto simp: validate_hello_eq hello_signed_def decode_field_eq)
  then show ?thesis
    using v int ok hello_signed_sorted [OF ok]
    unfolding validate_hello_eq by (auto simp: doc_simps)
qed

section \<open>The hello of an honest device\<close>

lemma hello_dict_ok: "dict_ok (create_hello c fr role i eph nonce h)"
  by (auto simp: create_hello_def hello_fields_def Let_def dict_ok_def split: option.split)

lemma unsigned_create_hello:
  "unsigned (create_hello c fr role i eph nonce h) = hello_fields role i eph nonce h"
  by (simp add: create_hello_def hello_fields_def Let_def unsigned_def split: option.split)

lemma hello_gets:
  assumes "d = create_hello c fr role i eph nonce h"
  shows "oget d ''type'' = JStr ''hello''" "oget d ''protocol'' = JInt PROTOCOL_VERSION"
    "oget d ''role'' = JStr role" "oget d ''device_id'' = JStr (di_device_id i)"
    "oget d ''identity_key'' = JStr (di_public_key i)" "oget d ''ephemeral_key'' = JStr (b64encode eph)"
    "oget d ''nonce'' = JStr (b64encode nonce)"
    "oget d ''peer_hello_hash'' = (case h of None \<Rightarrow> JNull | Some x \<Rightarrow> JStr x)"
    "oget d ''signature'' =
       JStr (b64encode (ed_sign c (di_private i) (session_domain @ canonical fr (hello_fields role i eph nonce h))))"
  unfolding assms create_hello_def hello_fields_def Let_def
  by (simp_all add: signed_bytes_def unsigned_def split: option.split)

lemma hello_valid:
  assumes "identity_ok c i" "hash_ok c" "signatures_ok c" "length eph = 32" "length nonce = NONCE_BYTES"
  shows "validate_hello c fr (JObj (create_hello c fr role i eph nonce h)) role =
    Inr (create_hello c fr role i eph nonce h, eph, nonce)"
proof -
  let ?d = "create_hello c fr role i eph nonce h"
  note gets = hello_gets [OF refl, of c fr role i eph nonce h]
  have key: "decode_public_key (JStr (di_public_key i)) = Inr (ed_public c (di_private i))"
    using assms(1,3) decode_encode_public_key by (simp add: identity_ok_def signatures_ok_def)
  have "hello_signed c fr (di_public_key i) ?d"
    using assms(3) key gets(9)
    by (auto simp: hello_signed_def signed_bytes_def unsigned_create_hello decode_encoded_field signatures_ok_def)
  moreover have "device_id_ok (di_device_id i)"
    using assms(1,2) device_id_of_raw_ok by (simp add: identity_ok_def)
  ultimately show ?thesis
    using assms(4,5) gets unfolding validate_hello_eq
    by (simp add: decode_encoded_field NONCE_BYTES_def)
qed

lemma hello_flat: "flat (create_hello c fr role i eph nonce h)"
  using hello_dict_ok [of c fr role i eph nonce h]
  by (auto simp: flat_def create_hello_def hello_fields_def Let_def PROTOCOL_VERSION_def split: option.splits)

lemma hello_fits:
  assumes "identity_ok c i" "hash_ok c" "signatures_ok c" "length eph = 32" "length nonce = NONCE_BYTES"
    and "length role \<le> 6" "case h of None \<Rightarrow> True | Some x \<Rightarrow> length x = 64"
  shows "length (canonical fr (create_hello c fr role i eph nonce h)) \<le> MAX_HANDSHAKE_SIZE"
proof -
  have "length (di_device_id i) = 11" "length (di_public_key i) = 44"
    using assms(1-3) device_id_of_raw_ok [of c]
    by (auto simp: identity_ok_def signatures_ok_def device_id_ok_def encode_public_key_def length_b64encode)
  then have "sum_list (map field_cost (create_hello c fr role i eph nonce h)) + 2 \<le> MAX_HANDSHAKE_SIZE"
    using assms(3-7)
    by (simp add: create_hello_def hello_fields_def Let_def field_cost_def length_b64encode
        signatures_ok_def NONCE_BYTES_def MAX_HANDSHAKE_SIZE_def split: option.splits)
  then show ?thesis
    using flat_length [OF hello_flat, of fr c fr role i eph nonce h] by linarith
qed

section \<open>Two honest sides agree\<close>

lemma send_json_ok:
  assumes "length (canonical fr d) \<le> MAX_HANDSHAKE_SIZE" "cn_sends s = []"
  shows "send_json fr d s = (Inr (), s\<lparr>cn_sent := cn_sent s @ [framed (canonical fr d)]\<rparr>)"
proof -
  have "pack_frame (canonical fr d) = Inr (framed (canonical fr d))"
    using assms(1) by (intro pack_frame_framed) (simp add: MAX_HANDSHAKE_SIZE_def)
  then show ?thesis
    using assms by (simp add: send_json_def io_bind_def sendall_def)
qed

lemma receive_json_doc:
  assumes "reads_ascii ld" "flat d" "length (canonical fr d) \<le> MAX_HANDSHAKE_SIZE"
    and "arrivals (cn_net s)" "stream_of (cn_net s) = framed (canonical fr d) @ rest"
  obtains n where "receive_json ld s = (Inr (JObj (sorted_doc d)), s\<lparr>cn_net := n\<rparr>)"
    "arrivals n" "stream_of n = rest"
proof -
  have parse: "parse_frame MAX_HANDSHAKE_SIZE (stream_of (cn_net s)) = Inr (canonical fr d, rest)"
    using assms(3) unfolding assms(5) by (intro parse_framed) (auto simp: MAX_HANDSHAKE_SIZE_def)
  obtain r n where r: "unpack_frame MAX_HANDSHAKE_SIZE (cn_net s) = (r, n)" by force
  then have "r = Inr (canonical fr d)" "arrivals n" "stream_of n = rest"
    using unpack_frame_stream [OF assms(4), of MAX_HANDSHAKE_SIZE] parse by auto
  moreover have "ld (canonical fr d) = Parsed (JObj (sorted_doc d))"
    by (rule flat_reads [OF assms(1,2)])
  ultimately show thesis
    using that [of n] r by (simp add: receive_json_def io_bind_def on_net_def parsed_object_def)
qed

lemma hello_hash_sorted [doc_simps]: "hello_hash c fr (sorted_doc d) = hello_hash c fr d"
  by (simp add: hello_hash_def canonical_sorted)

lemma length_hello_hash: "hash_ok c \<Longrightarrow> length (hello_hash c fr d) = 64"
  by (simp add: hello_hash_def hash_ok_def)

lemma derive_key_sorted [doc_simps]:
  "derive_key c fr priv remote (sorted_doc a) b cn sn = derive_key c fr priv remote a b cn sn"
  "derive_key c fr priv remote a (sorted_doc b) cn sn = derive_key c fr priv remote a b cn sn"
  by (simp_all add: derive_key_def transcript_def canonical_sorted split: option.split)

lemma derive_key_shared:
  assumes "exchange_ok c"
  obtains key where "derive_key c fr a (x_public c b) ch sh cn sn = Inr key"
    "derive_key c fr b (x_public c a) ch sh cn sn = Inr key" "length key = 32"
proof -
  obtain z where "x_exchange c a (x_public c b) = Some z" "x_exchange c b (x_public c a) = Some z"
    using assms unfolding exchange_ok_def by (metis not_None_eq)
  with that assms show thesis by (simp add: derive_key_def exchange_ok_def)
qed

definition client_hello where
  "client_hello c fr priv nonce i = create_hello c fr ''client'' i (x_public c priv) nonce None"

definition server_hello where
  "server_hello c fr priv nonce i client =
     create_hello c fr ''server'' i (x_public c priv) nonce (Some (hello_hash c fr client))"

text \<open>What a pair of devices that trust each other brings into a handshake.\<close>

definition primitives_ok :: "crypto \<Rightarrow> (bytes \<Rightarrow> parsed) \<Rightarrow> bool" where
  "primitives_ok c ld \<longleftrightarrow> hash_ok c \<and> signatures_ok c \<and> exchange_ok c \<and> reads_ascii ld"

lemma hello_ready:
  assumes "primitives_ok c ld" "identity_ok c i" "length nonce = NONCE_BYTES" "length role \<le> 6"
    "case h of None \<Rightarrow> True | Some x \<Rightarrow> length x = 64"
    and d_def: "d = create_hello c fr role i (x_public c priv) nonce h"
  shows "length (canonical fr d) \<le> MAX_HANDSHAKE_SIZE" "flat d"
    "validate_hello c fr (JObj (sorted_doc d)) role = Inr (sorted_doc d, x_public c priv, nonce)"
proof -
  have c: "hash_ok c" "signatures_ok c" "length (x_public c priv) = 32"
    using assms(1) by (auto simp: primitives_ok_def exchange_ok_def)
  show "length (canonical fr d) \<le> MAX_HANDSHAKE_SIZE" "flat d"
    unfolding d_def using assms c hello_fits hello_flat by blast+
  show "validate_hello c fr (JObj (sorted_doc d)) role = Inr (sorted_doc d, x_public c priv, nonce)"
    unfolding d_def
    using hello_valid [OF assms(2) c(1,2,3) assms(3), of fr role h] hello_dict_ok hello_gets(2) [OF refl]
    by (intro validate_sorted)
qed

lemma server_accepts:
  assumes "primitives_ok c ld" "identity_ok c ci" "identity_ok c si"
    and nonces: "length cn = NONCE_BYTES" "length sn = NONCE_BYTES"
    and trust: "trusted store (di_device_id ci) (di_public_key ci)"
    and hello: "ch = client_hello c fr cp cn ci" and sh: "sh = server_hello c fr sp sn si ch"
    and key: "derive_key c fr sp (x_public c cp) ch sh cn sn = Inr key"
    and "cn_sends s = []"
  shows "server_handshake c fr ld sp sn si store (Some (JObj (sorted_doc ch))) s =
    (Inr \<lparr>au_key = key, au_peer_device_id = di_device_id ci\<rparr>, s\<lparr>cn_sent := cn_sent s @ [framed (canonical fr sh)]\<rparr>)"
proof -
  note gets = hello_gets [OF hello [unfolded client_hello_def]]
  have ok: "dict_ok ch" unfolding hello client_hello_def by (rule hello_dict_ok)
  have fields: "str_field (sorted_doc ch) ''device_id'' = di_device_id ci"
    "str_field (sorted_doc ch) ''identity_key'' = di_public_key ci"
    using gets ok by (simp_all add: str_field_def doc_simps)
  have valid: "validate_hello c fr (JObj (sorted_doc ch)) ''client'' = Inr (sorted_doc ch, x_public c cp, cn)"
    unfolding hello client_hello_def using assms by (intro hello_ready) auto
  have "length (canonical fr sh) \<le> MAX_HANDSHAKE_SIZE"
    unfolding sh server_hello_def
    using assms length_hello_hash by (intro hello_ready(1)) (auto simp: primitives_ok_def)
  then have "send_json fr sh s = (Inr (), s\<lparr>cn_sent := cn_sent s @ [framed (canonical fr sh)]\<rparr>)"
    using assms by (intro send_json_ok)
  then show ?thesis
    using valid fields trust key sh
    by (simp add: server_handshake_def io_bind_def trusted_def server_hello_def doc_simps)
qed

lemma client_accepts:
  assumes "primitives_ok c ld" "identity_ok c ci" "identity_ok c si"
    and nonces: "length cn = NONCE_BYTES" "length sn = NONCE_BYTES"
    and peer: "td_status peer = trust_value TRUSTED" "td_device_id peer = di_device_id si"
      "td_public_key peer = di_public_key si"
    and hello: "ch = client_hello c fr cp cn ci" and sh: "sh = server_hello c fr sp sn si ch"
    and key: "derive_key c fr cp (x_public c sp) ch sh cn sn = Inr key"
    and net: "cn_sends s = []" "arrivals (cn_net s)" "stream_of (cn_net s) = framed (canonical fr sh) @ rest"
  shows "\<exists>n. client_handshake c fr ld cp cn ci peer s =
    (Inr \<lparr>au_key = key, au_peer_device_id = di_device_id si\<rparr>,
     s\<lparr>cn_sent := cn_sent s @ [framed (canonical fr ch)], cn_net := n\<rparr>) \<and> arrivals n \<and> stream_of n = rest"
proof -
  note gets = hello_gets [OF sh [unfolded server_hello_def]]
  have ok: "dict_ok sh" unfolding sh server_hello_def by (rule hello_dict_ok)
  have hash: "length (hello_hash c fr ch) = 64" "length (canonical fr ch) \<le> MAX_HANDSHAKE_SIZE"
    using assms(1,2,4) length_hello_hash hello_ready(1) unfolding hello client_hello_def
    by (auto simp: primitives_ok_def)
  have ready: "length (canonical fr sh) \<le> MAX_HANDSHAKE_SIZE" "flat sh"
    "validate_hello c fr (JObj (sorted_doc sh)) ''server'' = Inr (sorted_doc sh, x_public c sp, sn)"
    unfolding sh server_hello_def using assms(1,3,5) hash by (auto intro!: hello_ready)
  let ?s = "s\<lparr>cn_sent := cn_sent s @ [framed (canonical fr ch)]\<rparr>"
  obtain n where n: "receive_json ld ?s = (Inr (JObj (sorted_doc sh)), ?s\<lparr>cn_net := n\<rparr>)"
    "arrivals n" "stream_of n = rest"
    by (rule receive_json_doc [of ld sh fr ?s rest])
       (use assms(1) ready net in \<open>simp_all add: primitives_ok_def\<close>)
  have create: "create_hello c fr ''client'' ci (x_public c cp) cn None = ch"
    by (simp add: hello client_hello_def)
  have fields: "oget (sorted_doc sh) ''device_id'' = JStr (td_device_id peer)"
    "oget (sorted_doc sh) ''identity_key'' = JStr (td_public_key peer)"
    "oget (sorted_doc sh) ''peer_hello_hash'' = JStr (hello_hash c fr ch)"
    using gets(4,5,8) ok peer(2,3) by (simp_all add: oget_sorted)
  have derived: "derive_key c fr cp (x_public c sp) ch (sorted_doc sh) cn sn = Inr key"
    using key by (simp only: derive_key_sorted)
  have "client_handshake c fr ld cp cn ci peer s =
      (Inr \<lparr>au_key = key, au_peer_device_id = di_device_id si\<rparr>, ?s\<lparr>cn_net := n\<rparr>)"
    unfolding client_handshake_def create Let_def
    using send_json_ok [OF hash(2) net(1)] n(1) ready(3) fields derived peer
    by (simp add: io_bind_eqs)
  then show ?thesis using n by auto
qed

section \<open>Only trusted peers get a session\<close>

text \<open>
  What a returned session vouches for on the server: a hello in the client role, naming a device and a
  key that the store trusts, signed with that key over everything it says, whose ephemeral key went
  into the session key.
\<close>

definition vouched_by ::
  "crypto \<Rightarrow> (pyfloat \<Rightarrow> string) \<Rightarrow> string \<Rightarrow> string \<Rightarrow> string \<Rightarrow> (string, json) dict \<Rightarrow> bool" where
  "vouched_by c fr role did key d \<longleftrightarrow>
     oget d ''role'' = JStr role \<and> oget d ''device_id'' = JStr did \<and> oget d ''identity_key'' = JStr key
     \<and> hello_signed c fr key d"

lemma server_session_sound:
  assumes "server_handshake c fr ld priv nonce i store initial s = (Inr sess, s')"
  obtains d key eph cn where "trusted store (au_peer_device_id sess) key"
    "vouched_by c fr ''client'' (au_peer_device_id sess) key d"
    "decode_field (oget d ''ephemeral_key'') 32 ''ephemeral key'' = Inr eph"
    "derive_key c fr priv eph d (server_hello c fr priv nonce i d) cn nonce = Inr (au_key sess)"
    "initial = Some v \<longrightarrow> v = JObj d"
proof -
  from assms obtain v d eph cn where
    "validate_hello c fr v ''client'' = Inr (d, eph, cn)" "\<forall>w. initial = Some w \<longrightarrow> w = v"
    "assess store (Some (str_field d ''device_id'')) (Some (str_field d ''identity_key'')) = Inr TRUSTED"
    "derive_key c fr priv eph d (server_hello c fr priv nonce i d) cn nonce = Inr (au_key sess)"
    "au_peer_device_id sess = str_field d ''device_id''"
    unfolding server_handshake_def server_hello_def
    by (auto simp: io_bind_Inr Let_def split: option.splits)
  with that [of "str_field d ''identity_key''" d eph cn] show thesis
    unfolding validate_hello_eq by (auto simp: vouched_by_def str_field_def trusted_def)
qed

lemma client_session_sound:
  assumes "client_handshake c fr ld priv nonce i peer s = (Inr sess, s')"
  obtains d eph sn where "td_status peer = trust_value TRUSTED" "au_peer_device_id sess = td_device_id peer"
    "vouched_by c fr ''server'' (td_device_id peer) (td_public_key peer) d"
    "oget d ''peer_hello_hash'' = JStr (hello_hash c fr (client_hello c fr priv nonce i))"
    "decode_field (oget d ''ephemeral_key'') 32 ''ephemeral key'' = Inr eph"
    "derive_key c fr priv eph (client_hello c fr priv nonce i) d nonce sn = Inr (au_key sess)"
proof -
  from assms obtain v d eph sn where
    "td_status peer = trust_value TRUSTED" "au_peer_device_id sess = td_device_id peer"
    "validate_hello c fr v ''server'' = Inr (d, eph, sn)"
    "oget d ''device_id'' = JStr (td_device_id peer)" "oget d ''identity_key'' = JStr (td_public_key peer)"
    "oget d ''peer_hello_hash'' = JStr (hello_hash c fr (client_hello c fr priv nonce i))"
    "derive_key c fr priv eph (client_hello c fr priv nonce i) d nonce sn = Inr (au_key sess)"
    unfolding client_handshake_def client_hello_def
    by (auto simp: io_bind_Inr Let_def split: prod.splits)
  with that [of d eph sn] show thesis
    unfolding validate_hello_eq by (auto simp: vouched_by_def)
qed

text \<open>Reading the hello inside the handshake is the same as handing it in.\<close>

lemma server_reads_hello:
  assumes "receive_json ld s = (Inr v, s1)"
  shows "server_handshake c fr ld priv nonce i store None s = server_handshake c fr ld priv nonce i store (Some v) s1"
  using assms by (simp add: server_handshake_def io_bind_def)

lemma handshake_agreement:
  assumes ready: "primitives_ok c ld" "identity_ok c ci" "identity_ok c si"
    "length cn = NONCE_BYTES" "length sn = NONCE_BYTES"
    and trust: "trusted store (di_device_id ci) (di_public_key ci)"
    and peer: "td_status peer = trust_value TRUSTED" "td_device_id peer = di_device_id si"
      "td_public_key peer = di_public_key si"
    and hellos: "ch = client_hello c fr cp cn ci" "sh = server_hello c fr sp sn si ch"
    and server: "cn_sends s = []" "arrivals (cn_net s)" "stream_of (cn_net s) = framed (canonical fr ch) @ rest"
    and client: "cn_sends k = []" "arrivals (cn_net k)" "stream_of (cn_net k) = framed (canonical fr sh) @ rest'"
  shows "\<exists>key s' k'.
    server_handshake c fr ld sp sn si store None s = (Inr \<lparr>au_key = key, au_peer_device_id = di_device_id ci\<rparr>, s')
    \<and> cn_sent s' = cn_sent s @ [framed (canonical fr sh)] \<and> stream_of (cn_net s') = rest
    \<and> client_handshake c fr ld cp cn ci peer k = (Inr \<lparr>au_key = key, au_peer_device_id = di_device_id si\<rparr>, k')
    \<and> cn_sent k' = cn_sent k @ [framed (canonical fr ch)] \<and> stream_of (cn_net k') = rest'
    \<and> length key = 32"
proof -
  have c: "exchange_ok c" "reads_ascii ld" using ready(1) by (simp_all add: primitives_ok_def)
  obtain key where key: "derive_key c fr cp (x_public c sp) ch sh cn sn = Inr key"
    "derive_key c fr sp (x_public c cp) ch sh cn sn = Inr key" "length key = 32"
    by (rule derive_key_shared [OF c(1)])
  have fits: "length (canonical fr ch) \<le> MAX_HANDSHAKE_SIZE" "flat ch"
    using hello_ready(1,2) [OF ready(1,2,4)] unfolding hellos(1) client_hello_def by auto
  obtain n where n: "receive_json ld s = (Inr (JObj (sorted_doc ch)), s\<lparr>cn_net := n\<rparr>)" "stream_of n = rest"
    by (rule receive_json_doc [OF c(2) fits(2,1) server(2,3)])
  have "server_handshake c fr ld sp sn si store None s =
      (Inr \<lparr>au_key = key, au_peer_device_id = di_device_id ci\<rparr>,
       s\<lparr>cn_net := n, cn_sent := cn_sent s @ [framed (canonical fr sh)]\<rparr>)"
    unfolding server_reads_hello [OF n(1)]
    using server_accepts [OF ready trust hellos key(2), of "s\<lparr>cn_net := n\<rparr>"] server(1) by simp
  moreover obtain m where "client_handshake c fr ld cp cn ci peer k =
      (Inr \<lparr>au_key = key, au_peer_device_id = di_device_id si\<rparr>,
       k\<lparr>cn_sent := cn_sent k @ [framed (canonical fr ch)], cn_net := m\<rparr>)" "stream_of m = rest'"
    using client_accepts [OF ready peer hellos key(1) client] by blast
  ultimately show ?thesis using key(3) n(2) by fastforce
qed

text \<open>A session key has the size the cipher demands, and a session names a device identifier.\<close>

lemma derive_key_length: "exchange_ok c \<Longrightarrow> derive_key c fr priv remote ch sh cn sn = Inr key \<Longrightarrow> length key = 32"
  by (auto simp: derive_key_def exchange_ok_def split: option.splits)

lemma server_session_typed:
  assumes "exchange_ok c" "server_handshake c fr ld priv nonce i store initial s = (Inr sess, s')"
  shows "length (au_key sess) = 32 \<and> device_id_ok (au_peer_device_id sess)"
proof -
  from assms(2) obtain v d eph cn where
    "validate_hello c fr v ''client'' = Inr (d, eph, cn)"
    "derive_key c fr priv eph d (server_hello c fr priv nonce i d) cn nonce = Inr (au_key sess)"
    "au_peer_device_id sess = str_field d ''device_id''"
    unfolding server_handshake_def server_hello_def by (auto simp: io_bind_Inr Let_def split: option.splits)
  with derive_key_length [OF assms(1)] show ?thesis
    by (auto simp: validate_hello_eq str_field_def)
qed

lemma client_session_typed:
  assumes "exchange_ok c" "client_handshake c fr ld priv nonce i peer s = (Inr sess, s')"
  shows "length (au_key sess) = 32 \<and> device_id_ok (au_peer_device_id sess)"
proof -
  from assms(2) obtain v d eph sn where
    "validate_hello c fr v ''server'' = Inr (d, eph, sn)" "oget d ''device_id'' = JStr (td_device_id peer)"
    "au_peer_device_id sess = td_device_id peer"
    "derive_key c fr priv eph (client_hello c fr priv nonce i) d nonce sn = Inr (au_key sess)"
    unfolding client_handshake_def client_hello_def
    by (auto simp: io_bind_Inr Let_def split: prod.splits)
  with derive_key_length [OF assms(1)] show ?thesis
    by (auto simp: validate_hello_eq)
qed

end
