(* ===== verification/Pairing.thy ===== *)
theory Pairing
  imports Session PairingInbox
begin

text \<open>
  The signed identity exchange of \<open>core/pairing.py\<close>: \<open>_hello\<close>, \<open>_validate\<close>, \<open>client_pair\<close> and
  \<open>server_pair\<close>. Nonces and the clock are arguments. Nothing here consults or changes the trust store.
\<close>

section \<open>Frames\<close>

definition PAIRING_VERSION :: int where
  "PAIRING_VERSION = 1"

definition pairing_domain :: bytes where
  "pairing_domain = to_bytes ''direct-transfer-pairing-v1'' @ [0]"

definition pairing_signed :: "(pyfloat \<Rightarrow> string) \<Rightarrow> (string, json) dict \<Rightarrow> bytes" where
  "pairing_signed fr d = pairing_domain @ canonical fr (unsigned d)"

definition pairing_fields ::
  "device_identity \<Rightarrow> string \<Rightarrow> bytes \<Rightarrow> int \<Rightarrow> string option \<Rightarrow> (string, json) dict" where
  "pairing_fields i role nonce port peer_hash =
     [(''type'', JStr ''pair_hello''), (''version'', JInt PAIRING_VERSION), (''role'', JStr role),
      (''device_id'', JStr (di_device_id i)), (''identity_key'', JStr (di_public_key i)),
      (''nonce'', JStr (b64encode nonce)), (''transfer_port'', JInt port)]
     @ (case peer_hash of None \<Rightarrow> [] | Some h \<Rightarrow> [(''peer_hello_hash'', JStr h)])"

definition pairing_hello ::
  "crypto \<Rightarrow> (pyfloat \<Rightarrow> string) \<Rightarrow> device_identity \<Rightarrow> string \<Rightarrow> bytes \<Rightarrow> int \<Rightarrow> string option
   \<Rightarrow> (string, json) dict" where
  "pairing_hello c fr i role nonce port peer_hash =
     (let d = pairing_fields i role nonce port peer_hash
      in d @ [(''signature'', JStr (b64encode (ed_sign c (di_private i) (pairing_signed fr d))))])"

text \<open>
  \<open>b64decode(value.get(key, ""), validate=True)\<close>: whatever is not decodable text of the expected length
  ends in the same error, a missing field because it decodes to nothing.
\<close>

definition pairing_proof :: "json \<Rightarrow> nat \<Rightarrow> bytes result" where
  "pairing_proof v n =
     (case v of
        JStr s \<Rightarrow> (case b64decode s of
                     None \<Rightarrow> Inl (ProtocolError ''Invalid pairing proof'')
                   | Some raw \<Rightarrow> if length raw \<noteq> n then Inl (ProtocolError ''Invalid pairing proof'') else Inr raw)
      | _ \<Rightarrow> Inl (ProtocolError ''Invalid pairing proof''))"

definition pairing_validate ::
  "crypto \<Rightarrow> (pyfloat \<Rightarrow> string) \<Rightarrow> json \<Rightarrow> string \<Rightarrow> (string, json) dict result" where
  "pairing_validate c fr v role =
     (let incompatible = ProtocolError ''Peer uses incompatible pairing protocol'';
          bad_identity = ProtocolError ''Invalid pairing identity''
      in bind_result (as_dict incompatible v) (\<lambda>d.
         bind_result (ensure incompatible
                        (json_eq (oget d ''type'') (JStr ''pair_hello'')
                         \<and> json_eq (oget d ''version'') (JInt PAIRING_VERSION)
                         \<and> json_eq (oget d ''role'') (JStr role))) (\<lambda>_.
         bind_result (as_str bad_identity (oget d ''device_id'')) (\<lambda>did.
         bind_result (ensure bad_identity (device_id_ok did)) (\<lambda>_.
         bind_result (as_str bad_identity (oget d ''identity_key'')) (\<lambda>key.
         bind_result (as_protocol ''Invalid pairing identity key'' (decode_public_key (JStr key))) (\<lambda>pk.
         bind_result (as_protocol ''Invalid pairing identity key'' (device_id_from_public_key c key)) (\<lambda>derived.
         bind_result (ensure (ProtocolError ''Pairing identity does not match public key'')
                        (derived = did)) (\<lambda>_.
         bind_result (pairing_proof (oget d ''nonce'') 32) (\<lambda>nonce.
         bind_result (pairing_proof (oget d ''signature'') 64) (\<lambda>sig.
         bind_result (as_int (ProtocolError ''Invalid pairing port'') (oget d ''transfer_port'')) (\<lambda>port.
         bind_result (ensure (ProtocolError ''Invalid pairing port'') (1 \<le> port \<and> port \<le> 65535)) (\<lambda>_.
         bind_result (ensure (ProtocolError ''Pairing signature verification failed'')
                        (ed_verify c pk sig (pairing_signed fr d))) (\<lambda>_.
         Inr d))))))))))))))"

definition int_field :: "(string, json) dict \<Rightarrow> string \<Rightarrow> int" where
  "int_field d k = (case oget d k of JInt i \<Rightarrow> i | _ \<Rightarrow> 0)"

definition pairing_result ::
  "crypto \<Rightarrow> time \<Rightarrow> (string, json) dict \<Rightarrow> string \<Rightarrow> pairing_identity result" where
  "pairing_result c now d peer_ip =
     bind_result (fingerprint_from_public_key c (str_field d ''identity_key'')) (\<lambda>fp.
     Inr \<lparr>pr_device_id = str_field d ''device_id'', pr_public_key = str_field d ''identity_key'',
          pr_fingerprint = fp, pr_peer_ip = peer_ip, pr_received_at = now,
          pr_transfer_port = int_field d ''transfer_port''\<rparr>)"

section \<open>The two sides\<close>

definition client_pair ::
  "crypto \<Rightarrow> (pyfloat \<Rightarrow> string) \<Rightarrow> (bytes \<Rightarrow> parsed) \<Rightarrow> bytes \<Rightarrow> time \<Rightarrow> device_identity \<Rightarrow> string \<Rightarrow> int
   \<Rightarrow> (connection, pairing_identity) io" where
  "client_pair c fr ld nonce now i peer_ip local_port =
     (let hello = pairing_hello c fr i ''client'' nonce local_port None in
      io_bind (send_json fr hello) (\<lambda>_.
      io_bind (receive_json ld) (\<lambda>v.
      io_bind (io_lift (pairing_validate c fr v ''server'')) (\<lambda>response.
      io_bind (io_lift (ensure (ProtocolError ''Pairing transcript mismatch'')
                          (json_eq (oget response ''peer_hello_hash'') (JStr (hello_hash c fr hello))))) (\<lambda>_.
      io_lift (pairing_result c now response peer_ip))))))"

definition server_pair ::
  "crypto \<Rightarrow> (pyfloat \<Rightarrow> string) \<Rightarrow> bytes \<Rightarrow> time \<Rightarrow> device_identity \<Rightarrow> string \<Rightarrow> json \<Rightarrow> int
   \<Rightarrow> (connection, pairing_identity) io" where
  "server_pair c fr nonce now i peer_ip hello local_port =
     io_bind (io_lift (pairing_validate c fr hello ''client'')) (\<lambda>request.
     io_bind (send_json fr (pairing_hello c fr i ''server'' nonce local_port
                              (Some (hello_hash c fr request)))) (\<lambda>_.
     io_lift (pairing_result c now request peer_ip)))"

section \<open>What a validated frame says\<close>

definition pairing_vouched ::
  "crypto \<Rightarrow> (pyfloat \<Rightarrow> string) \<Rightarrow> string \<Rightarrow> (string, json) dict \<Rightarrow> bool" where
  "pairing_vouched c fr key d \<longleftrightarrow>
     (\<exists>pk sig. decode_public_key (JStr key) = Inr pk \<and> pairing_proof (oget d ''signature'') 64 = Inr sig
        \<and> ed_verify c pk sig (pairing_signed fr d))"

lemma pairing_proof_eq:
  "pairing_proof v n = Inr raw \<longleftrightarrow> (\<exists>s. v = JStr s \<and> b64decode s = Some raw \<and> length raw = n)"
  by (cases v) (auto simp: pairing_proof_def split: option.splits)

lemma pairing_validate_eq:
  "pairing_validate c fr v role = Inr d \<longleftrightarrow>
     v = JObj d \<and> oget d ''type'' = JStr ''pair_hello'' \<and> json_eq (oget d ''version'') (JInt PAIRING_VERSION)
     \<and> oget d ''role'' = JStr role \<and> (\<exists>nonce. pairing_proof (oget d ''nonce'') 32 = Inr nonce)
     \<and> (\<exists>port. oget d ''transfer_port'' = JInt port \<and> 1 \<le> port \<and> port \<le> 65535)
     \<and> (\<exists>did key. oget d ''device_id'' = JStr did \<and> oget d ''identity_key'' = JStr key
          \<and> key_bound c did key \<and> pairing_vouched c fr key d)"
proof -
  have derived: "device_id_from_public_key c key = Inr did \<longleftrightarrow> did = device_id_of_raw c raw"
    if "decode_public_key (JStr key) = Inr raw" for key raw did
    using device_id_from_decoded [OF that, of c] by auto
  show ?thesis
    unfolding pairing_validate_def pairing_vouched_def key_bound_def Let_def
    by (auto simp: as_protocol_eq derived)
qed

text \<open>A validated frame always yields a result, and the result is bound to the key that signed.\<close>

lemma pairing_result_of:
  assumes "pairing_validate c fr v role = Inr d"
  obtains p where "pairing_result c now d ip = Inr p" "key_bound c (pr_device_id p) (pr_public_key p)"
    "fingerprint_from_public_key c (pr_public_key p) = Inr (pr_fingerprint p)"
    "1 \<le> pr_transfer_port p" "pr_transfer_port p \<le> 65535" "pr_peer_ip p = ip" "pr_received_at p = now"
    "oget d ''identity_key'' = JStr (pr_public_key p)" "oget d ''device_id'' = JStr (pr_device_id p)"
    "oget d ''transfer_port'' = JInt (pr_transfer_port p)" "pairing_vouched c fr (pr_public_key p) d"
proof -
  obtain did key port where d: "oget d ''device_id'' = JStr did" "oget d ''identity_key'' = JStr key"
    "key_bound c did key" "oget d ''transfer_port'' = JInt port" "1 \<le> port" "port \<le> 65535"
    "pairing_vouched c fr key d"
    using assms by (auto simp: pairing_validate_eq)
  then obtain fp where "fingerprint_from_public_key c key = Inr fp"
    using device_id_from_decoded by (auto simp: key_bound_def)
  with that [of "\<lparr>pr_device_id = did, pr_public_key = key, pr_fingerprint = fp, pr_peer_ip = ip,
      pr_received_at = now, pr_transfer_port = port\<rparr>"] d
  show thesis by (simp add: pairing_result_def str_field_def int_field_def)
qed

text \<open>A signature made for one of the two protocols signs no frame of the other.\<close>

lemma domains_differ: "pairing_signed fr d \<noteq> signed_bytes fr' d'"
proof
  assume "pairing_signed fr d = signed_bytes fr' d'"
  then have "take 17 (pairing_signed fr d) = take 17 (signed_bytes fr' d')" by simp
  then show False
    by (simp add: pairing_signed_def signed_bytes_def pairing_domain_def session_domain_def to_bytes_def)
qed

section \<open>Honest devices pair\<close>

lemma pairing_signed_sorted [doc_simps]: "pairing_signed fr (sorted_doc d) = pairing_signed fr d"
  by (simp add: pairing_signed_def unsigned_sorted canonical_sorted)

lemma pairing_dict_ok: "dict_ok (pairing_hello c fr i role nonce port h)"
  by (auto simp: pairing_hello_def pairing_fields_def Let_def dict_ok_def split: option.split)

lemma pairing_flat: "1 \<le> port \<Longrightarrow> port \<le> 65535 \<Longrightarrow> flat (pairing_hello c fr i role nonce port h)"
  using pairing_dict_ok [of c fr i role nonce port h]
  by (auto simp: flat_def pairing_hello_def pairing_fields_def Let_def PAIRING_VERSION_def split: option.splits)

lemma pairing_gets:
  assumes "d = pairing_hello c fr i role nonce port h"
  shows "oget d ''type'' = JStr ''pair_hello''" "oget d ''version'' = JInt PAIRING_VERSION"
    "oget d ''role'' = JStr role" "oget d ''device_id'' = JStr (di_device_id i)"
    "oget d ''identity_key'' = JStr (di_public_key i)" "oget d ''nonce'' = JStr (b64encode nonce)"
    "oget d ''transfer_port'' = JInt port"
    "oget d ''peer_hello_hash'' = (case h of None \<Rightarrow> JNull | Some x \<Rightarrow> JStr x)"
    "oget d ''signature'' =
       JStr (b64encode (ed_sign c (di_private i) (pairing_domain @ canonical fr (pairing_fields i role nonce port h))))"
  unfolding assms pairing_hello_def pairing_fields_def Let_def
  by (simp_all add: pairing_signed_def unsigned_def split: option.split)

lemma pairing_unsigned:
  "unsigned (pairing_hello c fr i role nonce port h) = pairing_fields i role nonce port h"
  by (simp add: pairing_hello_def pairing_fields_def Let_def unsigned_def split: option.split)

lemma pairing_valid:
  assumes "identity_ok c i" "hash_ok c" "signatures_ok c" "length nonce = 32" "1 \<le> port" "port \<le> 65535"
    and d: "d = pairing_hello c fr i role nonce port h"
  shows "pairing_validate c fr (JObj (sorted_doc d)) role = Inr (sorted_doc d)"
proof -
  note gets = pairing_gets [OF d]
  have ok: "dict_ok d" unfolding d by (rule pairing_dict_ok)
  have key: "decode_public_key (JStr (di_public_key i)) = Inr (ed_public c (di_private i))"
    using assms(1,3) decode_encode_public_key by (simp add: identity_ok_def signatures_ok_def)
  have "pairing_signed fr (sorted_doc d) = pairing_domain @ canonical fr (pairing_fields i role nonce port h)"
    unfolding pairing_signed_sorted by (simp add: pairing_signed_def d pairing_unsigned)
  then have "pairing_vouched c fr (di_public_key i) (sorted_doc d)"
    using assms(3) key gets(9) ok
    by (auto simp: pairing_vouched_def oget_sorted pairing_proof_eq b64decode_encode signatures_ok_def)
  moreover have "key_bound c (di_device_id i) (di_public_key i)"
    using assms(1-3) by (rule identity_key_bound)
  ultimately show ?thesis
    using assms(4-6) gets ok unfolding pairing_validate_eq
    by (auto simp: oget_sorted pairing_proof_eq b64decode_encode)
qed

lemma pairing_fits:
  assumes "identity_ok c i" "hash_ok c" "signatures_ok c" "length nonce = 32" "length role \<le> 6"
    and "1 \<le> port" "port \<le> 65535" "case h of None \<Rightarrow> True | Some x \<Rightarrow> length x = 64"
  shows "length (canonical fr (pairing_hello c fr i role nonce port h)) \<le> MAX_HANDSHAKE_SIZE"
proof -
  have "length (di_device_id i) = 11" "length (di_public_key i) = 44"
    using assms(1-3) device_id_of_raw_ok [of c]
    by (auto simp: identity_ok_def signatures_ok_def device_id_ok_def encode_public_key_def length_b64encode)
  then have "sum_list (map field_cost (pairing_hello c fr i role nonce port h)) + 2 \<le> MAX_HANDSHAKE_SIZE"
    using assms(3-5,8)
    by (simp add: pairing_hello_def pairing_fields_def Let_def field_cost_def length_b64encode
        signatures_ok_def MAX_HANDSHAKE_SIZE_def split: option.splits)
  then show ?thesis
    using flat_length [OF pairing_flat [OF assms(6,7)], of fr c fr i role nonce h] by linarith
qed

text \<open>What the other side learns of an honest device.\<close>

definition identity_of :: "crypto \<Rightarrow> device_identity \<Rightarrow> string \<Rightarrow> time \<Rightarrow> int \<Rightarrow> pairing_identity" where
  "identity_of c i ip now port =
     \<lparr>pr_device_id = di_device_id i, pr_public_key = di_public_key i, pr_fingerprint = di_fingerprint i,
      pr_peer_ip = ip, pr_received_at = now, pr_transfer_port = port\<rparr>"

lemma pairing_result_honest:
  assumes "identity_ok c i" "hash_ok c" "signatures_ok c" and d: "d = pairing_hello c fr i role nonce port h"
  shows "pairing_result c now (sorted_doc d) ip = Inr (identity_of c i ip now port)"
proof -
  have "dict_ok d" unfolding d by (rule pairing_dict_ok)
  moreover have "fingerprint_from_public_key c (di_public_key i) = Inr (di_fingerprint i)"
    using assms(1,3) decode_encode_public_key device_id_from_decoded
    by (simp add: identity_ok_def signatures_ok_def)
  ultimately show ?thesis
    using pairing_gets [OF d]
    by (simp add: pairing_result_def str_field_def int_field_def oget_sorted identity_of_def)
qed

lemma server_pairs:
  assumes "primitives_ok c ld" "identity_ok c ci" "identity_ok c si" "length cn = 32" "length sn = 32"
    and ports: "1 \<le> cport" "cport \<le> 65535" "1 \<le> sport" "sport \<le> 65535"
    and ch: "ch = pairing_hello c fr ci ''client'' cn cport None"
    and sh: "sh = pairing_hello c fr si ''server'' sn sport (Some (hello_hash c fr ch))"
    and "cn_sends s = []"
  shows "server_pair c fr sn now si ip (JObj (sorted_doc ch)) sport s =
    (Inr (identity_of c ci ip now cport), s\<lparr>cn_sent := cn_sent s @ [framed (canonical fr sh)]\<rparr>)"
proof -
  have c: "hash_ok c" "signatures_ok c" using assms(1) by (simp_all add: primitives_ok_def)
  have "length (canonical fr sh) \<le> MAX_HANDSHAKE_SIZE"
    unfolding sh using assms(3,5) c ports length_hello_hash [OF c(1)] by (intro pairing_fits) auto
  then have send: "send_json fr sh s = (Inr (), s\<lparr>cn_sent := cn_sent s @ [framed (canonical fr sh)]\<rparr>)"
    using assms(12) by (rule send_json_ok)
  have create: "pairing_hello c fr si ''server'' sn sport (Some (hello_hash c fr (sorted_doc ch))) = sh"
    by (simp add: sh hello_hash_sorted)
  show ?thesis
    unfolding server_pair_def
    using pairing_valid [OF assms(2) c assms(4) ports(1,2) ch] pairing_result_honest [OF assms(2) c ch] send create
    by (simp add: io_bind_eqs)
qed

lemma client_pairs:
  assumes "primitives_ok c ld" "identity_ok c ci" "identity_ok c si" "length cn = 32" "length sn = 32"
    and ports: "1 \<le> cport" "cport \<le> 65535" "1 \<le> sport" "sport \<le> 65535"
    and ch: "ch = pairing_hello c fr ci ''client'' cn cport None"
    and sh: "sh = pairing_hello c fr si ''server'' sn sport (Some (hello_hash c fr ch))"
    and net: "cn_sends s = []" "arrivals (cn_net s)" "stream_of (cn_net s) = framed (canonical fr sh) @ rest"
  shows "\<exists>n. client_pair c fr ld cn now ci ip cport s =
    (Inr (identity_of c si ip now sport), s\<lparr>cn_sent := cn_sent s @ [framed (canonical fr ch)], cn_net := n\<rparr>)
    \<and> arrivals n \<and> stream_of n = rest"
proof -
  have c: "hash_ok c" "signatures_ok c" "reads_ascii ld" using assms(1) by (simp_all add: primitives_ok_def)
  have fits: "length (canonical fr ch) \<le> MAX_HANDSHAKE_SIZE" "length (canonical fr sh) \<le> MAX_HANDSHAKE_SIZE"
    unfolding ch sh using assms(2-5) c(1,2) ports length_hello_hash [OF c(1)] by (auto intro!: pairing_fits)
  let ?s = "s\<lparr>cn_sent := cn_sent s @ [framed (canonical fr ch)]\<rparr>"
  have flat: "flat sh" unfolding sh using ports by (intro pairing_flat)
  obtain n where n: "receive_json ld ?s = (Inr (JObj (sorted_doc sh)), ?s\<lparr>cn_net := n\<rparr>)"
    "arrivals n" "stream_of n = rest"
    by (rule receive_json_doc [of ld sh fr ?s rest]) (use c flat fits net in simp_all)
  have "dict_ok sh" using flat by (simp add: flat_def)
  then have hash: "oget (sorted_doc sh) ''peer_hello_hash'' = JStr (hello_hash c fr ch)"
    using pairing_gets(8) [OF sh] by (simp add: oget_sorted)
  have "client_pair c fr ld cn now ci ip cport s = (Inr (identity_of c si ip now sport), ?s\<lparr>cn_net := n\<rparr>)"
    unfolding client_pair_def Let_def ch [symmetric]
    using send_json_ok [OF fits(1) net(1)] n(1) pairing_valid [OF assms(3) c(1,2) assms(5) ports(3,4) sh] hash
      pairing_result_honest [OF assms(3) c(1,2) sh]
    by (simp add: io_bind_eqs)
  then show ?thesis using n by auto
qed

lemma pairing_arrives:
  assumes "primitives_ok c ld" "identity_ok c i" "length nonce = 32" "1 \<le> port" "port \<le> 65535"
    and d: "d = pairing_hello c fr i ''client'' nonce port None"
    and "cn_sends s = []" "arrivals (cn_net s)" "stream_of (cn_net s) = framed (canonical fr d) @ rest"
  shows "\<exists>s1. receive_json ld s = (Inr (JObj (sorted_doc d)), s1) \<and> cn_sends s1 = [] \<and> cn_sent s1 = cn_sent s"
proof -
  have c: "hash_ok c" "signatures_ok c" "reads_ascii ld" using assms(1) by (simp_all add: primitives_ok_def)
  have "length (canonical fr d) \<le> MAX_HANDSHAKE_SIZE" "flat d"
    unfolding d using assms(2-5) c by (auto intro!: pairing_fits pairing_flat)
  then obtain n where "receive_json ld s = (Inr (JObj (sorted_doc d)), s\<lparr>cn_net := n\<rparr>)"
    using receive_json_doc [OF c(3), of d fr s rest] assms(8,9) by metis
  then show ?thesis using assms(7) by simp
qed

text \<open>What the server reports of a request was signed with the key it names.\<close>

lemma server_pair_sound:
  assumes "server_pair c fr nonce now i ip hello port s = (Inr p, s')"
  obtains d where "hello = JObj d" "key_bound c (pr_device_id p) (pr_public_key p)"
    "fingerprint_from_public_key c (pr_public_key p) = Inr (pr_fingerprint p)"
    "pairing_vouched c fr (pr_public_key p) d"
    "oget d ''device_id'' = JStr (pr_device_id p)" "oget d ''transfer_port'' = JInt (pr_transfer_port p)"
    "1 \<le> pr_transfer_port p" "pr_transfer_port p \<le> 65535" "pr_peer_ip p = ip" "pr_received_at p = now"
proof -
  from assms obtain d where d: "pairing_validate c fr hello ''client'' = Inr d" "pairing_result c now d ip = Inr p"
    unfolding server_pair_def by (auto simp: io_bind_Inr)
  then have "hello = JObj d" by (simp add: pairing_validate_eq)
  with d that show thesis
    by (elim pairing_result_of [where now = now and ip = ip]) simp
qed

lemma client_pair_sound:
  assumes "client_pair c fr ld nonce now i ip local_port s = (Inr p, s')"
  shows "key_bound c (pr_device_id p) (pr_public_key p) \<and> pr_peer_ip p = ip
    \<and> fingerprint_from_public_key c (pr_public_key p) = Inr (pr_fingerprint p)"
proof -
  from assms obtain v d where d: "pairing_validate c fr v ''server'' = Inr d" "pairing_result c now d ip = Inr p"
    unfolding client_pair_def by (auto simp: io_bind_Inr Let_def)
  then show ?thesis by (elim pairing_result_of [where now = now and ip = ip]) simp
qed

end
