(* ===== verification/Listener.thy ===== *)
theory Listener
  imports Pairing ReceiverSafety
begin

text \<open>
  \<open>FileServer._receive_session\<close> from the first frame on: the dispatch between pairing and an authenticated
  session, the hand-over of the connection to the receiving session of \<open>Receiver\<close>, and the exceptions
  the handler swallows. The pairing callback is \<open>DirectPeerService._publish_pairing\<close>.
\<close>

section \<open>Model\<close>

record listen_env =
  le_crypto :: crypto
  le_fr :: "pyfloat \<Rightarrow> string"
  le_loads :: "bytes \<Rightarrow> parsed"
  le_identity :: device_identity
  le_trust :: trust_store
  le_port :: int
  le_priv :: bytes
  le_nonce :: bytes
  le_now :: time
  le_monotonic :: "time \<times> time"
  le_peer_ip :: string
  le_peer_name :: "string \<Rightarrow> string option"
  le_commit :: "string \<Rightarrow> commit_env"

record listener =
  ls_conn :: connection
  ls_recv :: receiver
  ls_pairings :: pairing_inbox

text \<open>\<open>_normalize_peer_ip\<close>: an IPv4 client of the dual-stack socket loses its IPv6 prefix.\<close>

definition normalize_peer_ip :: "string \<Rightarrow> string" where
  "normalize_peer_ip v = (if starts_with ''::ffff:'' (map ascii_lower v) then drop 7 v else v)"

definition session_env :: "listen_env \<Rightarrow> authenticated_session \<Rightarrow> recv_env" where
  "session_env e a =
     \<lparr>re_crypto = le_crypto e, re_loads = le_loads e, re_key = au_key a, re_now = le_now e,
      re_peer_ip = le_peer_ip e, re_peer_id = au_peer_device_id a, re_commit = le_commit e\<rparr>"

text \<open>The receiving session takes over the rest of the connection's bytes and of its sends.\<close>

definition hand_over :: "connection \<Rightarrow> receiver \<Rightarrow> receiver" where
  "hand_over cn rv = rv\<lparr>rc_net := cn_net cn, rc_sends := cn_sends cn\<rparr>"

definition serve_pairing :: "listen_env \<Rightarrow> json \<Rightarrow> (listener, unit) io" where
  "serve_pairing e hello s =
     (case server_pair (le_crypto e) (le_fr e) (le_nonce e) (le_now e) (le_identity e) (le_peer_ip e) hello
             (le_port e) (ls_conn s) of
        (Inl x, cn) \<Rightarrow> (Inl x, s\<lparr>ls_conn := cn\<rparr>)
      | (Inr p, cn) \<Rightarrow>
          (case pairing_publish (fst (le_monotonic e)) (snd (le_monotonic e)) p (ls_pairings s) of
             (r, b) \<Rightarrow> (r, s\<lparr>ls_conn := cn, ls_pairings := b\<rparr>)))"

definition serve_transfer :: "listen_env \<Rightarrow> poll list \<Rightarrow> json \<Rightarrow> (listener, unit) io" where
  "serve_transfer e polls hello s =
     (case server_handshake (le_crypto e) (le_fr e) (le_loads e) (le_priv e) (le_nonce e) (le_identity e)
             (le_trust e) (Some hello) (ls_conn s) of
        (Inl x, cn) \<Rightarrow> (Inl x, s\<lparr>ls_conn := cn\<rparr>)
      | (Inr a, cn) \<Rightarrow>
          (case serve_offer (session_env e a) (le_peer_name e (au_peer_device_id a)) polls
                  (hand_over cn (ls_recv s)) of
             (r, rv) \<Rightarrow> (r, s\<lparr>ls_conn := cn, ls_recv := rv\<rparr>)))"

definition receive_session :: "listen_env \<Rightarrow> poll list \<Rightarrow> (listener, unit) io" where
  "receive_session e polls s =
     (case receive_json (le_loads e) (ls_conn s) of
        (Inl x, cn) \<Rightarrow> (Inl x, s\<lparr>ls_conn := cn\<rparr>)
      | (Inr hello, cn) \<Rightarrow>
          (if json_eq (ojget hello ''type'') (JStr ''pair_hello'')
           then serve_pairing e hello (s\<lparr>ls_conn := cn\<rparr>)
           else serve_transfer e polls hello (s\<lparr>ls_conn := cn\<rparr>)))"

text \<open>The \<open>except\<close> clauses of \<open>_receive_session\<close>; what they do not name ends the handler thread.\<close>

definition session_caught :: "exn \<Rightarrow> bool" where
  "session_caught x \<longleftrightarrow> is_OSError x \<or> x = InvalidTag \<or> is_ValueError x"

definition handle_connection :: "listen_env \<Rightarrow> poll list \<Rightarrow> (listener, unit) io" where
  "handle_connection e polls s =
     (case receive_session e polls s of
        (Inl x, s') \<Rightarrow> (if session_caught x then Inr () else Inl x, s')
      | (Inr u, s') \<Rightarrow> (Inr u, s'))"

section \<open>Who can reach what\<close>

definition received_files :: "listener \<Rightarrow> string \<Rightarrow> bytes option" where
  "received_files s = files_of (ls_recv s)"

lemma received_frame [simp]:
  "received_files (s\<lparr>ls_conn := cn\<rparr>) = received_files s"
  "received_files (s\<lparr>ls_conn := cn, ls_pairings := b\<rparr>) = received_files s"
  "received_files (s\<lparr>ls_conn := cn, ls_recv := rv\<rparr>) = files_of rv"
  by (simp_all add: received_files_def)

lemma hand_over_simps [simp]:
  "files_of (hand_over cn rv) = files_of rv" "rc_inbox (hand_over cn rv) = rc_inbox rv"
  by (simp_all add: hand_over_def files_of_def)

lemma serve_pairing_frame: "serve_pairing e hello s = (r, s') \<Longrightarrow> ls_recv s' = ls_recv s"
  by (auto simp: serve_pairing_def split: prod.splits sum.splits)

text \<open>A session that touches the receive directory got there through the handshake.\<close>

lemma changed_session:
  assumes "handle_connection e polls s = (r, s')" "received_files s' \<noteq> received_files s"
  obtains hello cn a cn' r' where "receive_json (le_loads e) (ls_conn s) = (Inr hello, cn)"
    "ojget hello ''type'' \<noteq> JStr ''pair_hello''"
    "server_handshake (le_crypto e) (le_fr e) (le_loads e) (le_priv e) (le_nonce e) (le_identity e)
       (le_trust e) (Some hello) cn = (Inr a, cn')"
    "serve_offer (session_env e a) (le_peer_name e (au_peer_device_id a)) polls
       (hand_over cn' (ls_recv s)) = (r', ls_recv s')"
proof -
  obtain r' where sess: "receive_session e polls s = (r', s')"
    using assms(1) by (auto simp: handle_connection_def split: prod.splits sum.splits)
  obtain hello cn where hello: "receive_json (le_loads e) (ls_conn s) = (Inr hello, cn)"
    using sess assms(2) by (auto simp: receive_session_def split: prod.splits sum.splits)
  have no_pair: "\<not> json_eq (ojget hello ''type'') (JStr ''pair_hello'')"
    using sess assms(2) hello serve_pairing_frame [of e hello "s\<lparr>ls_conn := cn\<rparr>" r' s']
    by (auto simp: receive_session_def received_files_def split: if_splits)
  then have tr: "serve_transfer e polls hello (s\<lparr>ls_conn := cn\<rparr>) = (r', s')"
    using sess hello by (simp add: receive_session_def)
  obtain a cn' where a: "server_handshake (le_crypto e) (le_fr e) (le_loads e) (le_priv e) (le_nonce e)
      (le_identity e) (le_trust e) (Some hello) cn = (Inr a, cn')"
    using tr assms(2) by (auto simp: serve_transfer_def split: prod.splits sum.splits)
  obtain rv where "serve_offer (session_env e a) (le_peer_name e (au_peer_device_id a)) polls
      (hand_over cn' (ls_recv s)) = (r', rv)" "s' = s\<lparr>ls_conn := cn', ls_recv := rv\<rparr>"
    using tr a by (auto simp: serve_transfer_def split: prod.splits)
  with that hello no_pair a show thesis by auto
qed

text \<open>
  What a change of the receive directory proves about the peer and about the user: the offer is the one the
  connection carried, and what was accepted is exactly this offer.
\<close>

lemma changed_only_by_trusted:
  assumes "handle_connection e polls s = (r, s')" "received_files s' \<noteq> received_files s"
    and "inbox_inv (rc_inbox (ls_recv s))"
    and "list_all (\<lambda>c. fresh_cmd c \<and> not_prune c) (concat (map fst polls))"
  shows "\<exists>d cn a cn' key offer.
    receive_json (le_loads e) (ls_conn s) = (Inr (JObj d), cn)
    \<and> server_handshake (le_crypto e) (le_fr e) (le_loads e) (le_priv e) (le_nonce e) (le_identity e)
        (le_trust e) (Some (JObj d)) cn = (Inr a, cn')
    \<and> trusted (le_trust e) (au_peer_device_id a) key
    \<and> vouched_by (le_crypto e) (le_fr e) ''client'' (au_peer_device_id a) key d
    \<and> offer_of (session_env e a) (hand_over cn' (ls_recv s)) = Some offer
    \<and> (let tid = offer_id offer;
           content = (au_peer_device_id a, offer_files offer, offer_total offer, offer_message offer);
           request = make_request (session_env e a) (le_peer_name e (au_peer_device_id a)) offer
       in accepted_as (rc_inbox (ls_recv s)) tid content
          \<or> (\<exists>pre post. concat (map fst polls) = pre @ Accept tid # post
              \<and> pending_as (fold inbox_step (Publish request # pre) (rc_inbox (ls_recv s))) tid content))"
proof -
  from changed_session [OF assms(1,2)] obtain hello cn a cn' r' where
    first: "receive_json (le_loads e) (ls_conn s) = (Inr hello, cn)" and
    hs: "server_handshake (le_crypto e) (le_fr e) (le_loads e) (le_priv e) (le_nonce e) (le_identity e)
       (le_trust e) (Some hello) cn = (Inr a, cn')"
    and so: "serve_offer (session_env e a) (le_peer_name e (au_peer_device_id a)) polls
       (hand_over cn' (ls_recv s)) = (r', ls_recv s')" .
  obtain d key where key: "trusted (le_trust e) (au_peer_device_id a) key"
    "vouched_by (le_crypto e) (le_fr e) ''client'' (au_peer_device_id a) key d" "hello = JObj d"
    by (rule server_session_sound [OF hs, where v = hello]) simp
  obtain offer where offer: "offer_of (session_env e a) (hand_over cn' (ls_recv s)) = Some offer"
    "accepted_as (rc_inbox (ls_recv s)) (offer_id offer) (request_key (session_env e a) offer)
     \<or> (\<exists>pre post. concat (map fst polls) = pre @ Accept (offer_id offer) # post
         \<and> pending_as (fold inbox_step (Publish (make_request (session_env e a) (le_peer_name e (au_peer_device_id a)) offer) # pre)
             (rc_inbox (ls_recv s))) (offer_id offer) (request_key (session_env e a) offer))"
    using serve_needs_offer [OF so] assms(2-4) by (auto simp: received_files_def)
  have "request_key (session_env e a) offer = (au_peer_device_id a, offer_files offer, offer_total offer, offer_message offer)"
    by (simp add: request_key_def session_env_def)
  with offer(2) have accepted: "let tid = offer_id offer;
           content = (au_peer_device_id a, offer_files offer, offer_total offer, offer_message offer);
           request = make_request (session_env e a) (le_peer_name e (au_peer_device_id a)) offer
       in accepted_as (rc_inbox (ls_recv s)) tid content
          \<or> (\<exists>pre post. concat (map fst polls) = pre @ Accept tid # post
              \<and> pending_as (fold inbox_step (Publish request # pre) (rc_inbox (ls_recv s))) tid content)"
    by (simp only: Let_def)
  show ?thesis
    using first hs key offer(1) accepted by blast
qed

end
