(* ===== verification/EndToEnd.thy ===== *)
theory EndToEnd
  imports Listener Sender
begin

text \<open>
  The two sides together: what the sender's chunk loop puts on the wire, and that the receiver's loop,
  reading exactly those bytes however the network cuts them, rebuilds the file.
\<close>

section \<open>The frames of a file\<close>

function chunk_frames :: "string \<Rightarrow> string \<Rightarrow> bytes \<Rightarrow> nat \<Rightarrow> nat \<Rightarrow> payload list" where
  "chunk_frames tid fid content pos index =
     (if pos < length content
      then (let raw = next_chunk content pos
            in Control (chunk_header tid fid index pos (length raw)) # Data raw
               # chunk_frames tid fid content (pos + length raw) (Suc index))
      else [])"
  by pat_completeness auto
termination
  by (relation "measure (\<lambda>(tid, fid, content, pos, index). length content - pos)")
     (auto simp: next_chunk_def min_def intro: diff_less_mono2)

declare chunk_frames.simps [simp del]

lemma next_chunk_bounds:
  "pos < length content \<Longrightarrow> next_chunk content pos \<noteq> [] \<and> length (next_chunk content pos) \<le> CHUNK_SIZE
     \<and> pos + length (next_chunk content pos) \<le> length content"
  by (auto simp: next_chunk_def min_def)

lemma take_next_chunk:
  "take (pos + length (next_chunk content pos)) content = take pos content @ next_chunk content pos"
  by (simp add: next_chunk_def take_add min_def)

text \<open>An undisturbed chunk loop sends exactly these frames.\<close>

lemma send_chunks_frames:
  assumes "sn_cancels s = []" "sn_sends s = []"
  shows "\<exists>infos. send_chunks tid fid i content (length content) pos index s =
    (Inr (), s\<lparr>sn_sent := sn_sent s @ chunk_frames tid fid content pos index, sn_infos := infos\<rparr>)"
  using assms
proof (induction tid fid content pos index arbitrary: s rule: chunk_frames.induct)
  case (1 tid fid content pos index)
  show ?case
  proof (cases "pos < length content")
    case False
    then show ?thesis
      by (intro exI [of _ "sn_infos s"]) (simp add: send_chunks.simps [of tid] chunk_frames.simps [of tid])
  next
    case True
    let ?raw = "next_chunk content pos"
    let ?head = "Control (chunk_header tid fid index pos (length ?raw))"
    let ?f = "\<lambda>inf. inf\<lparr>bytes_transferred := bytes_transferred inf + length ?raw,
                bytes_this_attempt := bytes_this_attempt inf + length ?raw\<rparr>"
    let ?s = "s\<lparr>sn_sent := (sn_sent s @ [?head]) @ [Data ?raw], sn_infos := (sn_infos s)[i := ?f (sn_infos s ! i)]\<rparr>"
    have "io_bind (put_frame ?head) (\<lambda>_. io_bind (put_frame (Data ?raw)) (\<lambda>_. upd_info i ?f)) s = (Inr (), ?s)"
      using "1.prems" by (simp add: io_bind_def put_frame_def upd_info_def)
    moreover obtain infos where "send_chunks tid fid i content (length content) (pos + length ?raw) (Suc index) ?s =
        (Inr (), ?s\<lparr>sn_sent := sn_sent ?s @ chunk_frames tid fid content (pos + length ?raw) (Suc index), sn_infos := infos\<rparr>)"
      using "1.IH" [OF True refl, of ?s] "1.prems" by auto
    ultimately show ?thesis
      using True next_chunk_bounds [OF True] "1.prems"
      by (intro exI [of _ infos])
         (simp add: send_chunks.simps [of tid _ _ _ _ pos] chunk_frames.simps [of tid _ _ pos] cancel_set_def Let_def)
  qed
qed

section \<open>The wire\<close>

text \<open>What a list of frames looks like on the wire, each under its own nonce.\<close>

definition wired :: "crypto \<Rightarrow> (pyfloat \<Rightarrow> string) \<Rightarrow> bytes \<Rightarrow> bytes list \<Rightarrow> payload list \<Rightarrow> bytes" where
  "wired c fr key nonces ps = concat (map2 (\<lambda>n p. sealed c key n (payload_bytes fr p)) nonces ps)"

lemma wire_Cons [simp]:
  "wired c fr key (n # ns) (p # ps) = sealed c key n (payload_bytes fr p) @ wired c fr key ns ps"
  and wire_Nil [simp]: "wired c fr key ns [] = []"
  by (simp_all add: wired_def)

definition link_ok :: "recv_env \<Rightarrow> bool" where
  "link_ok e \<longleftrightarrow> aead_ok (re_crypto e) \<and> reads_ascii (re_loads e) \<and> length (re_key e) = 32"

lemma recv_control_sealed:
  assumes "link_ok e" "length nonce = NONCE_SIZE" "flat d" "sum_list (map field_cost d) + 2 \<le> HEADER_MAX_SIZE"
    and "arrivals (rc_net s)"
    and "stream_of (rc_net s) = sealed (re_crypto e) (re_key e) nonce (payload_bytes fr (Control (JObj d))) @ rest"
  obtains n where "recv_control e s = (Inr (JObj d), s\<lparr>rc_net := n\<rparr>)" "arrivals n" "stream_of n = rest"
proof -
  let ?d = "payload_bytes fr (Control (JObj d))"
  have vals: "\<forall>(k, v) \<in> set d. flat_value v" and dict: "dict_ok d" using assms(3) by (auto simp: flat_def)
  have len: "length ?d + 28 \<le> HEADER_MAX_SIZE + 64"
    using assms(4) length_dumps_fields [OF vals, of fr] by (simp add: payload_bytes_def)
  have "writable (JObj d)" "json_depth (JObj d) \<le> MAX_DEPTH"
    using flat_fields [OF vals] dict by (simp_all add: MAX_DEPTH_def)
  then have ld: "re_loads e ?d = Parsed (JObj d)"
    using assms(1) reads_dumps [of "re_loads e" "JObj d" fr] by (simp add: link_ok_def payload_bytes_def)
  obtain n where "receive_control_frame (re_crypto e) (re_loads e) (re_key e) (rc_net s) = (Inr (JObj d), n)"
    "arrivals n" "stream_of n = rest"
    by (rule receive_sealed_control [where c = "re_crypto e" and nonce = nonce and key = "re_key e" and fr = fr
          and v = d and ld = "re_loads e" and s = "rc_net s" and rest = rest])
       (use assms(1,2,5,6) len ld in \<open>simp_all add: link_ok_def\<close>)
  with that [of n] show thesis by (simp add: recv_control_def)
qed

lemma recv_data_sealed:
  assumes "link_ok e" "length nonce = NONCE_SIZE" "length bs \<le> CHUNK_SIZE" "arrivals (rc_net s)"
    and "stream_of (rc_net s) = sealed (re_crypto e) (re_key e) nonce bs @ rest"
  obtains n where "recv_data e s = (Inr bs, s\<lparr>rc_net := n\<rparr>)" "arrivals n" "stream_of n = rest"
proof -
  obtain n where "receive_data_frame (re_crypto e) (re_key e) (rc_net s) = (Inr bs, n)" "arrivals n" "stream_of n = rest"
    by (rule receive_sealed_data [where c = "re_crypto e" and nonce = nonce and key = "re_key e" and d = bs
          and s = "rc_net s" and rest = rest]) (use assms in \<open>simp_all add: link_ok_def\<close>)
  with that [of n] show thesis by (simp add: recv_data_def)
qed

section \<open>The receiving loop rebuilds the file\<close>

lemma chunk_header_flat:
  assumes "transfer_id_ok tid" "file_id_ok fid" "index < 10 ^ 20" "pos < 10 ^ 20" "n < 10 ^ 20"
  shows "\<exists>d. chunk_header tid fid index pos n = JObj d \<and> flat d \<and> sum_list (map field_cost d) + 2 \<le> HEADER_MAX_SIZE"
proof -
  let ?d = "[(''type'', JStr ''chunk''), (''transfer_id'', JStr tid), (''file_id'', JStr fid),
    (''index'', JInt (int index)), (''offset'', JInt (int pos)), (''size'', JInt (int n))]"
  have "flat ?d" using assms(3-5) by (simp add: flat_def dict_ok_def)
  moreover have "sum_list (map field_cost ?d) + 2 \<le> HEADER_MAX_SIZE"
    using assms(1,2) by (simp add: field_cost_def transfer_id_ok_def file_id_ok_def HEADER_MAX_SIZE_def)
  ultimately show ?thesis by (simp add: chunk_header_def)
qed

lemma write_at_end: "length p = pos \<Longrightarrow> write_at pos bs p = p @ bs"
  by (simp add: write_at_def)

lemma store_chunk_simps [simp]:
  "rc_net (store_chunk offer f pos bs s) = rc_net s"
  "rc_sends (store_chunk offer f pos bs s) = rc_sends s"
  "rc_sent (store_chunk offer f pos bs s) = rc_sent s"
  "rc_inbox (store_chunk offer f pos bs s) = rc_inbox s"
  by (simp_all add: store_chunk_def mod_info_def put_info_def Let_def split: option.split)

lemma part_store_chunk:
  "part_of (rc_fs s) (offer_id offer) (ifile_id f) = Some p \<Longrightarrow> length p = pos \<Longrightarrow>
   part_of (rc_fs (store_chunk offer f pos bs s)) (offer_id offer) (ifile_id f) = Some (p @ bs)"
  by (simp add: store_chunk_def mod_info_def put_info_def Let_def write_at_end part_of_def write_part_def
      split: option.split)

text \<open>The part of a receiver the loop does not touch.\<close>

definition undisturbed :: "receiver \<Rightarrow> receiver \<Rightarrow> bool" where
  "undisturbed s s' \<longleftrightarrow>
     rc_sends s' = rc_sends s \<and> rc_sent s' = rc_sent s \<and> rc_inbox s' = rc_inbox s \<and> files_of s' = files_of s"

lemma recv_chunks_wire:
  assumes "link_ok e" "transfer_id_ok (offer_id offer)" "file_id_ok (ifile_id f)"
    and "ifile_size f = length content" "length content < 10 ^ 20" "index \<le> pos" "pos \<le> length content"
    and "part_of (rc_fs s) (offer_id offer) (ifile_id f) = Some (take pos content)"
    and "list_all (\<lambda>n. length n = NONCE_SIZE) nonces"
    and "length nonces = length (chunk_frames (offer_id offer) (ifile_id f) content pos index)"
    and "arrivals (rc_net s)"
    and "stream_of (rc_net s) =
      wired (re_crypto e) fr (re_key e) nonces (chunk_frames (offer_id offer) (ifile_id f) content pos index) @ rest"
  shows "\<exists>s'. recv_chunks e offer f pos index s = (Inr (), s')
    \<and> part_of (rc_fs s') (offer_id offer) (ifile_id f) = Some content
    \<and> arrivals (rc_net s') \<and> stream_of (rc_net s') = rest \<and> undisturbed s s'"
  using assms(6-)
proof (induction "length content - pos" arbitrary: pos index s nonces rule: less_induct)
  case less
  let ?tid = "offer_id offer" and ?fid = "ifile_id f"
  show ?case
  proof (cases "pos < length content")
    case False
    then show ?thesis
      using less.prems assms(4)
      by (intro exI [of _ s])
         (simp add: recv_chunks.simps [of e] chunk_frames.simps [of ?tid] undisturbed_def)
  next
    case True
    let ?raw = "next_chunk content pos"
    let ?frames = "chunk_frames ?tid ?fid content (pos + length ?raw) (Suc index)"
    note raw = next_chunk_bounds [OF True]
    have frames: "chunk_frames ?tid ?fid content pos index
        = Control (chunk_header ?tid ?fid index pos (length ?raw)) # Data ?raw # ?frames"
      using True by (simp add: chunk_frames.simps [of ?tid ?fid content pos] Let_def)
    obtain n1 n2 ns where nonces: "nonces = n1 # n2 # ns"
      using less.prems(5) frames by (cases nonces; cases "tl nonces") auto
    obtain d where d: "chunk_header ?tid ?fid index pos (length ?raw) = JObj d" "flat d"
      "sum_list (map field_cost d) + 2 \<le> HEADER_MAX_SIZE"
      using chunk_header_flat [OF assms(2,3), of index pos "length ?raw"] raw less.prems(1,2) assms(5) by auto
    let ?wire = "wired (re_crypto e) fr (re_key e) ns ?frames @ rest"
    let ?rest = "sealed (re_crypto e) (re_key e) n2 ?raw @ ?wire"
    have n12: "length n1 = NONCE_SIZE" "length n2 = NONCE_SIZE" using less.prems(4) nonces by simp_all
    have st: "stream_of (rc_net s) = sealed (re_crypto e) (re_key e) n1 (payload_bytes fr (Control (JObj d))) @ ?rest"
      using less.prems(7) frames nonces d(1) by (simp add: payload_bytes_def [of _ "Data _"])
    obtain m1 where m1: "recv_control e s = (Inr (JObj d), s\<lparr>rc_net := m1\<rparr>)" "arrivals m1" "stream_of m1 = ?rest"
      by (rule recv_control_sealed [OF assms(1) n12(1) d(2,3) less.prems(6) st])
    let ?s1 = "s\<lparr>rc_net := m1\<rparr>"
    have "length ?raw \<le> ifile_size f - pos" unfolding assms(4) using raw by linarith
    then have "validate_chunk_control (JObj d) ?tid ?fid index pos (ifile_size f - pos) = Inr (length ?raw)"
      unfolding d(1) [symmetric] using raw by (intro validate_chunk_header [OF assms(2,3)]) auto
    moreover have "ojget (JObj d) ''type'' = JStr ''chunk''"
      unfolding d(1) [symmetric] by (simp add: chunk_header_def ojget_def)
    ultimately have guard: "chunk_guard offer f pos index (JObj d) = Inr (length ?raw)"
      by (simp add: chunk_guard_def)
    have st1: "arrivals (rc_net ?s1)" "stream_of (rc_net ?s1) = ?rest" using m1 by simp_all
    obtain m2 where m2: "recv_data e ?s1 = (Inr ?raw, ?s1\<lparr>rc_net := m2\<rparr>)" "arrivals m2" "stream_of m2 = ?wire"
      using recv_data_sealed [OF assms(1) n12(2) _ st1] raw by metis
    let ?s2 = "store_chunk offer f pos ?raw (s\<lparr>rc_net := m2\<rparr>)"
    have part: "part_of (rc_fs ?s2) ?tid ?fid = Some (take (pos + length ?raw) content)"
      using part_store_chunk [of "s\<lparr>rc_net := m2\<rparr>" offer f "take pos content" pos ?raw] less.prems(3) True
      by (simp add: take_next_chunk)
    have pos: "0 < length ?raw" "length content - (pos + length ?raw) < length content - pos"
      using raw True by (auto intro: diff_less_mono2)
    have "\<exists>s'. recv_chunks e offer f (pos + length ?raw) (Suc index) ?s2 = (Inr (), s')
        \<and> part_of (rc_fs s') ?tid ?fid = Some content \<and> arrivals (rc_net s') \<and> stream_of (rc_net s') = rest
        \<and> undisturbed ?s2 s'"
    proof (rule less.hyps [OF pos(2) _ _ part, where nonces = ns])
      show "Suc index \<le> pos + length ?raw" using pos(1) less.prems(1) by linarith
      show "pos + length ?raw \<le> length content" using raw by simp
      show "list_all (\<lambda>n. length n = NONCE_SIZE) ns" using less.prems(4) nonces by simp
      show "length ns = length ?frames" using less.prems(5) nonces frames by simp
    qed (use m2 in simp_all)
    then obtain s' where s': "recv_chunks e offer f (pos + length ?raw) (Suc index) ?s2 = (Inr (), s')"
      "part_of (rc_fs s') ?tid ?fid = Some content" "arrivals (rc_net s')" "stream_of (rc_net s') = rest"
      "undisturbed ?s2 s'" by blast
    have "recv_chunks e offer f pos index s = (Inr (), s')"
      using True assms(4) m1(1) guard m2(1) s'(1) by (simp add: recv_chunks.simps [of e offer f pos])
    moreover have "undisturbed s s'"
      using s'(5) by (auto simp: undisturbed_def) (simp add: files_of_def)
    ultimately show ?thesis using s' by blast
  qed
qed

end
