(* ===== verification/History.thy ===== *)
theory History
  imports Lifecycle
begin

text \<open>
  \<open>core/history.py\<close>: the table of transfers and the table of their files, with the rules of the SQL
  statements written out (the upserts, the guarded update, the cascade, the migration). A statement
  that fails in the database rolls its transaction back; whether it does is an argument of every
  operation, and the order in which a query visits rows is another.
\<close>

section \<open>Tables\<close>

record transfer_row =
  tr_transfer_id :: string
  tr_peer_device_id :: "string option"
  tr_peer_ip :: string
  tr_peer_hostname :: "string option"
  tr_direction :: string
  tr_status :: string
  tr_message :: "string option"
  tr_file_count :: int
  tr_total_size :: int
  tr_bytes_transferred :: int
  tr_started_at :: time
  tr_completed_at :: "time option"
  tr_error :: "string option"
  tr_resumed :: bool
  tr_resume_offset :: int

record file_row =
  fr_id :: nat
  fr_transfer_id :: string
  fr_file_id :: string
  fr_filename :: string
  fr_final_path :: "string option"
  fr_filesize :: int
  fr_sha256 :: "string option"
  fr_bytes_transferred :: int
  fr_status :: string

text \<open>The primary key makes the first table a dictionary; \<open>hs_next\<close> is the counter of AUTOINCREMENT.\<close>

record history =
  hs_available :: bool
  hs_transfers :: "(string, transfer_row) dict"
  hs_files :: "file_row list"
  hs_next :: nat

definition INTERRUPTIBLE :: "string list" where
  "INTERRUPTIBLE =
     [''pending'', ''pending_approval'', ''accepted'', ''active'', ''interrupted'', ''resuming'']"

text \<open>The statuses named in the upserts, which do not replace \<open>complete\<close>.\<close>

definition LATE :: "string list" where
  "LATE = [''interrupted'', ''resuming'', ''active'', ''pending'', ''pending_approval'']"

section \<open>Writing\<close>

definition coalesce :: "'a option \<Rightarrow> 'a option \<Rightarrow> 'a option" where
  "coalesce a b = (case a of None \<Rightarrow> b | Some _ \<Rightarrow> a)"

definition keeps_complete :: "string \<Rightarrow> string \<Rightarrow> bool" where
  "keeps_complete old new \<longleftrightarrow> old = ''complete'' \<and> new \<in> set LATE"

definition merge_transfer :: "transfer_row \<Rightarrow> transfer_row \<Rightarrow> transfer_row" where
  "merge_transfer old new =
     \<lparr>tr_transfer_id = tr_transfer_id old, tr_peer_device_id = tr_peer_device_id new,
      tr_peer_ip = tr_peer_ip new,
      tr_peer_hostname = coalesce (tr_peer_hostname new) (tr_peer_hostname old),
      tr_direction = tr_direction new,
      tr_status = (if keeps_complete (tr_status old) (tr_status new) then tr_status old else tr_status new),
      tr_message = coalesce (tr_message new) (tr_message old),
      tr_file_count = max (tr_file_count new) (tr_file_count old),
      tr_total_size = max (tr_total_size new) (tr_total_size old),
      tr_bytes_transferred =
        (if tr_status old = ''complete'' then max (tr_bytes_transferred old) (tr_bytes_transferred new)
         else tr_bytes_transferred new),
      tr_started_at = tr_started_at old,
      tr_completed_at = coalesce (tr_completed_at old) (tr_completed_at new),
      tr_error = (if keeps_complete (tr_status old) (tr_status new) then tr_error old else tr_error new),
      tr_resumed = max (tr_resumed old) (tr_resumed new),
      tr_resume_offset = max (tr_resume_offset old) (tr_resume_offset new)\<rparr>"

definition upsert_transfer :: "transfer_row \<Rightarrow> history \<Rightarrow> history" where
  "upsert_transfer r h =
     (let row = (case dict_get (hs_transfers h) (tr_transfer_id r) of
                   None \<Rightarrow> r | Some old \<Rightarrow> merge_transfer old r)
      in h\<lparr>hs_transfers := dict_set (tr_transfer_id r) row (hs_transfers h)\<rparr>)"

definition merge_file :: "file_row \<Rightarrow> file_row \<Rightarrow> file_row" where
  "merge_file old new =
     old\<lparr>fr_final_path := coalesce (fr_final_path new) (fr_final_path old),
         fr_sha256 := coalesce (fr_sha256 new) (fr_sha256 old),
         fr_bytes_transferred :=
           (if fr_status old = ''complete'' then max (fr_bytes_transferred old) (fr_bytes_transferred new)
            else fr_bytes_transferred new),
         fr_status := (if keeps_complete (fr_status old) (fr_status new) then fr_status old else fr_status new)\<rparr>"

definition same_file :: "file_row \<Rightarrow> file_row \<Rightarrow> bool" where
  "same_file r q \<longleftrightarrow> fr_transfer_id q = fr_transfer_id r \<and> fr_file_id q = fr_file_id r"

text \<open>\<open>_upsert_file\<close>: a file of an unknown transfer violates the foreign key.\<close>

definition upsert_file :: "file_row \<Rightarrow> history \<Rightarrow> history option" where
  "upsert_file r h =
     (if dict_get (hs_transfers h) (fr_transfer_id r) = None then None
      else if \<exists>q \<in> set (hs_files h). same_file r q
      then Some (h\<lparr>hs_files := map (\<lambda>q. if same_file r q then merge_file q r else q) (hs_files h)\<rparr>)
      else Some (h\<lparr>hs_files := hs_files h @ [r\<lparr>fr_id := hs_next h\<rparr>], hs_next := Suc (hs_next h)\<rparr>))"

fun upsert_files :: "file_row list \<Rightarrow> history \<Rightarrow> history option" where
  "upsert_files [] h = Some h"
| "upsert_files (r # rs) h =
     (case upsert_file r h of None \<Rightarrow> None | Some h' \<Rightarrow> upsert_files rs h')"

definition create_transfer :: "bool \<Rightarrow> transfer_row \<Rightarrow> file_row list \<Rightarrow> history \<Rightarrow> bool \<times> history" where
  "create_transfer db r files h =
     (if \<not> hs_available h \<or> \<not> db then (False, h)
      else (case upsert_files files (upsert_transfer r h) of None \<Rightarrow> (False, h) | Some h' \<Rightarrow> (True, h')))"

text \<open>The keyword arguments of \<open>update_transfer\<close>; a name that is not allowed is dropped.\<close>

datatype change =
    Set_hostname "string option"
  | Set_status string
  | Set_bytes int
  | Set_completed_at "time option"
  | Set_error "string option"
  | Set_file_count int
  | Set_total_size int
  | Set_resumed bool
  | Set_resume_offset int
  | Not_allowed string

fun change_allowed :: "change \<Rightarrow> bool" where
  "change_allowed (Not_allowed _) = False"
| "change_allowed _ = True"

fun apply_change :: "change \<Rightarrow> transfer_row \<Rightarrow> transfer_row" where
  "apply_change (Set_hostname x) r = r\<lparr>tr_peer_hostname := x\<rparr>"
| "apply_change (Set_status x) r = r\<lparr>tr_status := x\<rparr>"
| "apply_change (Set_bytes x) r = r\<lparr>tr_bytes_transferred := x\<rparr>"
| "apply_change (Set_completed_at x) r = r\<lparr>tr_completed_at := x\<rparr>"
| "apply_change (Set_error x) r = r\<lparr>tr_error := x\<rparr>"
| "apply_change (Set_file_count x) r = r\<lparr>tr_file_count := x\<rparr>"
| "apply_change (Set_total_size x) r = r\<lparr>tr_total_size := x\<rparr>"
| "apply_change (Set_resumed x) r = r\<lparr>tr_resumed := x\<rparr>"
| "apply_change (Set_resume_offset x) r = r\<lparr>tr_resume_offset := x\<rparr>"
| "apply_change (Not_allowed _) r = r"

definition set_file_status :: "string \<Rightarrow> string \<Rightarrow> history \<Rightarrow> history" where
  "set_file_status tid st h =
     h\<lparr>hs_files := map (\<lambda>q. if fr_transfer_id q = tid then q\<lparr>fr_status := st\<rparr> else q) (hs_files h)\<rparr>"

text \<open>The row an update reaches: an interruptible status does not touch a complete transfer.\<close>

definition reached :: "change list \<Rightarrow> string \<Rightarrow> history \<Rightarrow> transfer_row option" where
  "reached values tid h =
     (case dict_get (hs_transfers h) tid of
        None \<Rightarrow> None
      | Some r \<Rightarrow> if (\<exists>st \<in> set INTERRUPTIBLE. Set_status st \<in> set values) \<and> tr_status r = ''complete''
                  then None else Some r)"

definition update_transfer ::
  "bool \<Rightarrow> string \<Rightarrow> string option \<Rightarrow> change list \<Rightarrow> history \<Rightarrow> bool \<times> history" where
  "update_transfer db tid file_status changes h =
     (let values = filter change_allowed changes in
      if \<not> hs_available h \<or> values = [] \<and> file_status = None \<or> \<not> db then (False, h)
      else
        (let row = (if values = [] then None else reached values tid h);
             h1 = (case row of
                     None \<Rightarrow> h
                   | Some r \<Rightarrow> h\<lparr>hs_transfers := dict_set tid (fold apply_change values r) (hs_transfers h)\<rparr>);
             h2 = (case file_status of None \<Rightarrow> h1 | Some st \<Rightarrow> set_file_status tid st h1)
         in (row \<noteq> None \<or> file_status \<noteq> None, h2)))"

definition update_transfer_files_status :: "bool \<Rightarrow> string \<Rightarrow> string \<Rightarrow> history \<Rightarrow> bool \<times> history" where
  "update_transfer_files_status db tid st h =
     (if \<not> hs_available h \<or> \<not> db then (False, h)
      else (\<exists>q \<in> set (hs_files h). fr_transfer_id q = tid, set_file_status tid st h))"

definition add_file :: "bool \<Rightarrow> file_row \<Rightarrow> history \<Rightarrow> bool \<times> history" where
  "add_file db r h =
     (if \<not> hs_available h \<or> \<not> db then (False, h)
      else (case upsert_file r h of None \<Rightarrow> (False, h) | Some h' \<Rightarrow> (True, h')))"

datatype file_change =
    File_final_path "string option"
  | File_bytes int
  | File_status string
  | File_sha256 "string option"
  | File_other string

fun file_allowed :: "file_change \<Rightarrow> bool" where
  "file_allowed (File_other _) = False"
| "file_allowed _ = True"

fun apply_file_change :: "file_change \<Rightarrow> file_row \<Rightarrow> file_row" where
  "apply_file_change (File_final_path x) r = r\<lparr>fr_final_path := x\<rparr>"
| "apply_file_change (File_bytes x) r = r\<lparr>fr_bytes_transferred := x\<rparr>"
| "apply_file_change (File_status x) r = r\<lparr>fr_status := x\<rparr>"
| "apply_file_change (File_sha256 x) r = r\<lparr>fr_sha256 := x\<rparr>"
| "apply_file_change (File_other _) r = r"

definition update_file :: "bool \<Rightarrow> string \<Rightarrow> string \<Rightarrow> file_change list \<Rightarrow> history \<Rightarrow> bool \<times> history" where
  "update_file db tid fid changes h =
     (let values = filter file_allowed changes;
          hit = (\<lambda>q. fr_transfer_id q = tid \<and> fr_file_id q = fid)
      in if \<not> hs_available h \<or> values = [] \<or> \<not> db then (False, h)
         else (\<exists>q \<in> set (hs_files h). hit q,
               h\<lparr>hs_files := map (\<lambda>q. if hit q then fold apply_file_change values q else q) (hs_files h)\<rparr>))"

text \<open>Deleting a transfer deletes its files.\<close>

definition delete_transfer :: "bool \<Rightarrow> string \<Rightarrow> history \<Rightarrow> bool \<times> history" where
  "delete_transfer db tid h =
     (if \<not> hs_available h \<or> \<not> db then (False, h)
      else (dict_get (hs_transfers h) tid \<noteq> None,
            h\<lparr>hs_transfers := dict_pop tid (hs_transfers h),
              hs_files := filter (\<lambda>q. fr_transfer_id q \<noteq> tid) (hs_files h)\<rparr>))"

definition clear_history :: "bool \<Rightarrow> history \<Rightarrow> bool \<times> history" where
  "clear_history db h =
     (if \<not> hs_available h \<or> \<not> db then (False, h) else (True, h\<lparr>hs_transfers := [], hs_files := []\<rparr>))"

section \<open>Reading\<close>

text \<open>SQLite's \<open>LIKE\<close>: \<open>%\<close> and \<open>_\<close> are wildcards, ASCII letters match in either case.\<close>

fun like :: "string \<Rightarrow> string \<Rightarrow> bool" where
  "like [] s = (s = [])"
| "like (p # ps) s =
     (if p = CHR ''%'' then (\<exists>n \<in> set [0..<Suc (length s)]. like ps (drop n s))
      else (case s of
              [] \<Rightarrow> False
            | c # cs \<Rightarrow> (p = CHR ''_'' \<or> ascii_lower p = ascii_lower c) \<and> like ps cs))"

definition search_pattern :: "string \<Rightarrow> string" where
  "search_pattern q = CHR ''%'' # take 128 q @ [CHR ''%'']"

definition matches :: "string \<Rightarrow> transfer_row \<Rightarrow> bool" where
  "matches q r \<longleftrightarrow>
     (case tr_peer_hostname r of None \<Rightarrow> False | Some h \<Rightarrow> like (search_pattern q) h)
     \<or> like (search_pattern q) (tr_peer_ip r) \<or> like (search_pattern q) (tr_transfer_id r)"

text \<open>
  \<open>_query_transfers\<close>: newest first, at most the bounded limit; rows of equal age come in the order
  \<open>scan\<close> in which the database visits them.
\<close>

definition query_transfers ::
  "bool \<Rightarrow> (transfer_row list \<Rightarrow> transfer_row list) \<Rightarrow> (transfer_row \<Rightarrow> bool) \<Rightarrow> int \<Rightarrow> history \<Rightarrow> transfer_row list" where
  "query_transfers db scan P limit h =
     (if \<not> hs_available h \<or> \<not> db then []
      else take (nat (max 1 (min limit 5000)))
             (sort_key (\<lambda>r. - tr_started_at r) (filter P (scan (map snd (hs_transfers h))))))"

definition get_transfer :: "bool \<Rightarrow> string \<Rightarrow> history \<Rightarrow> transfer_row option" where
  "get_transfer db tid h =
     (case query_transfers db id (\<lambda>r. tr_transfer_id r = tid) 1 h of [] \<Rightarrow> None | r # _ \<Rightarrow> Some r)"

definition get_files :: "bool \<Rightarrow> string \<Rightarrow> history \<Rightarrow> file_row list" where
  "get_files db tid h =
     (if \<not> hs_available h \<or> \<not> db then []
      else sort_key fr_id (filter (\<lambda>q. fr_transfer_id q = tid) (hs_files h)))"

text \<open>An empty filter counts as none (\<open>if direction:\<close>).\<close>

definition optional :: "(string \<Rightarrow> transfer_row \<Rightarrow> bool) \<Rightarrow> string option \<Rightarrow> transfer_row \<Rightarrow> bool" where
  "optional P x r = (case x of None \<Rightarrow> True | Some s \<Rightarrow> s = [] \<or> P s r)"

definition list_transfers ::
  "bool \<Rightarrow> (transfer_row list \<Rightarrow> transfer_row list) \<Rightarrow> string option \<Rightarrow> string option \<Rightarrow> string option
   \<Rightarrow> int \<Rightarrow> history \<Rightarrow> transfer_row list" where
  "list_transfers db scan dir st search limit h =
     query_transfers db scan
       (\<lambda>r. optional (\<lambda>s r. tr_direction r = s) dir r \<and> optional (\<lambda>s r. tr_status r = s) st r
            \<and> optional matches search r) limit h"

definition list_for_peer ::
  "bool \<Rightarrow> (transfer_row list \<Rightarrow> transfer_row list) \<Rightarrow> string option \<Rightarrow> string \<Rightarrow> int \<Rightarrow> history
   \<Rightarrow> transfer_row list" where
  "list_for_peer db scan peer ip limit h =
     query_transfers db scan
       (\<lambda>r. (case peer of None \<Rightarrow> False | Some d \<Rightarrow> d \<noteq> [] \<and> tr_peer_device_id r = Some d) \<or> tr_peer_ip r = ip)
       limit h"

section \<open>Opening\<close>

text \<open>
  What the database file holds: its schema version and rows. At version 1 the two resume columns do
  not exist; the migration adds them with their defaults.
\<close>

record db_file =
  db_version :: nat
  db_transfers :: "(string, transfer_row) dict"
  db_files :: "file_row list"
  db_next :: nat

definition SCHEMA_VERSION :: nat where
  "SCHEMA_VERSION = 2"

definition interrupt_row :: "transfer_row \<Rightarrow> transfer_row" where
  "interrupt_row r = (if tr_status r \<in> set INTERRUPTIBLE then r\<lparr>tr_status := ''interrupted''\<rparr> else r)"

definition add_resume_columns :: "transfer_row \<Rightarrow> transfer_row" where
  "add_resume_columns r = r\<lparr>tr_resumed := False, tr_resume_offset := 0\<rparr>"

definition migrate :: "db_file \<Rightarrow> history option" where
  "migrate f =
     (if SCHEMA_VERSION < db_version f then None
      else
        (let rows = (if db_version f < 1 then [] else db_transfers f);
             files = (if db_version f < 1 then [] else db_files f);
             nxt = (if db_version f < 1 then 1 else db_next f);
             rows2 = (if db_version f < 2 then map (\<lambda>(k, r). (k, add_resume_columns r)) rows else rows)
         in Some \<lparr>hs_available = True, hs_transfers = map (\<lambda>(k, r). (k, interrupt_row r)) rows2,
                  hs_files = files, hs_next = nxt\<rparr>))"

text \<open>\<open>TransferHistoryStore(path)\<close>: a store that cannot be opened or is too new is unavailable.\<close>

definition open_history :: "bool \<Rightarrow> db_file \<Rightarrow> history" where
  "open_history ok f =
     (let unavailable = \<lparr>hs_available = False, hs_transfers = [], hs_files = [], hs_next = 1\<rparr>
      in if ok then (case migrate f of None \<Rightarrow> unavailable | Some h \<Rightarrow> h) else unavailable)"

section \<open>Commands\<close>

datatype history_cmd =
    Create transfer_row "file_row list"
  | Update string "string option" "change list"
  | Update_files_status string string
  | Add_file file_row
  | Update_file string string "file_change list"
  | Delete string
  | Clear

text \<open>Each command with whether its transaction succeeds.\<close>

fun history_step :: "history_cmd \<times> bool \<Rightarrow> history \<Rightarrow> history" where
  "history_step (Create r fs, db) h = snd (create_transfer db r fs h)"
| "history_step (Update tid fst' cs, db) h = snd (update_transfer db tid fst' cs h)"
| "history_step (Update_files_status tid st, db) h = snd (update_transfer_files_status db tid st h)"
| "history_step (Add_file r, db) h = snd (add_file db r h)"
| "history_step (Update_file tid fid cs, db) h = snd (update_file db tid fid cs h)"
| "history_step (Delete tid, db) h = snd (delete_transfer db tid h)"
| "history_step (Clear, db) h = snd (clear_history db h)"

section \<open>Integrity of the tables\<close>

definition file_key :: "file_row \<Rightarrow> string \<times> string" where
  "file_key q = (fr_transfer_id q, fr_file_id q)"

definition rows_ok :: "(string, transfer_row) dict \<Rightarrow> bool" where
  "rows_ok d \<longleftrightarrow> dict_ok d \<and> (\<forall>tid r. dict_get d tid = Some r \<longrightarrow> tr_transfer_id r = tid)"

definition history_inv :: "history \<Rightarrow> bool" where
  "history_inv h \<longleftrightarrow>
     rows_ok (hs_transfers h)
     \<and> distinct (map file_key (hs_files h)) \<and> distinct (map fr_id (hs_files h))
     \<and> (\<forall>q \<in> set (hs_files h). dict_get (hs_transfers h) (fr_transfer_id q) \<noteq> None \<and> fr_id q < hs_next h)"

lemma rows_ok_set: "rows_ok d \<Longrightarrow> tr_transfer_id r = tid \<Longrightarrow> rows_ok (dict_set tid r d)"
  by (auto simp: rows_ok_def)

lemma apply_change_id [simp]: "tr_transfer_id (apply_change c r) = tr_transfer_id r"
  by (cases c) auto

lemma fold_apply_change_id [simp]: "tr_transfer_id (fold apply_change cs r) = tr_transfer_id r"
  by (induction cs arbitrary: r) auto

lemma apply_file_change_key [simp]:
  "file_key (apply_file_change c q) = file_key q" "fr_id (apply_file_change c q) = fr_id q"
  by (cases c; simp add: file_key_def)+

lemma fold_file_change_key [simp]:
  "file_key (fold apply_file_change cs q) = file_key q" "fr_id (fold apply_file_change cs q) = fr_id q"
  by (induction cs arbitrary: q) auto

lemma merge_file_key [simp]: "file_key (merge_file q r) = file_key q" "fr_id (merge_file q r) = fr_id q"
  by (simp_all add: merge_file_def file_key_def)

lemma merge_transfer_id [simp]: "tr_transfer_id (merge_transfer old new) = tr_transfer_id old"
  by (simp add: merge_transfer_def)

text \<open>Rewriting the rows of the second table in place keeps the invariant when keys stay.\<close>

lemma inv_map_files:
  assumes "history_inv h" "\<And>q. file_key (g q) = file_key q" "\<And>q. fr_id (g q) = fr_id q"
  shows "history_inv (h\<lparr>hs_files := map g (hs_files h)\<rparr>)"
proof -
  have "fr_transfer_id (g q) = fr_transfer_id q" for q using assms(2) [of q] by (simp add: file_key_def)
  then show ?thesis using assms by (simp add: history_inv_def comp_def)
qed

lemma inv_set_transfer:
  "history_inv h \<Longrightarrow> tr_transfer_id r = tid \<Longrightarrow> history_inv (h\<lparr>hs_transfers := dict_set tid r (hs_transfers h)\<rparr>)"
  by (auto simp: history_inv_def rows_ok_set)

lemma upsert_transfer_inv: "history_inv h \<Longrightarrow> history_inv (upsert_transfer r h)"
  unfolding upsert_transfer_def Let_def
  by (rule inv_set_transfer) (auto simp: history_inv_def rows_ok_def split: option.split)

lemma upsert_file_inv:
  assumes "history_inv h" "upsert_file r h = Some h'"
  shows "history_inv h'"
proof (cases "\<exists>q \<in> set (hs_files h). same_file r q")
  case True
  then have "h' = h\<lparr>hs_files := map (\<lambda>q. if same_file r q then merge_file q r else q) (hs_files h)\<rparr>"
    using assms(2) by (auto simp: upsert_file_def split: if_splits)
  then show ?thesis using inv_map_files [OF assms(1), of "\<lambda>q. if same_file r q then merge_file q r else q"] by simp
next
  case False
  then have "h' = h\<lparr>hs_files := hs_files h @ [r\<lparr>fr_id := hs_next h\<rparr>], hs_next := Suc (hs_next h)\<rparr>"
    "dict_get (hs_transfers h) (fr_transfer_id r) \<noteq> None"
    using assms(2) by (auto simp: upsert_file_def split: if_splits)
  with False assms(1) show ?thesis
    by (fastforce simp: history_inv_def same_file_def file_key_def less_Suc_eq)
qed

lemma upsert_files_inv: "history_inv h \<Longrightarrow> upsert_files rs h = Some h' \<Longrightarrow> history_inv h'"
  by (induction rs arbitrary: h) (auto intro: upsert_file_inv split: option.splits)

lemma set_file_status_inv: "history_inv h \<Longrightarrow> history_inv (set_file_status tid st h)"
  unfolding set_file_status_def by (rule inv_map_files) (auto simp: file_key_def)

lemma reached_id: "history_inv h \<Longrightarrow> reached values tid h = Some r \<Longrightarrow> tr_transfer_id r = tid"
  by (auto simp: reached_def history_inv_def rows_ok_def split: option.splits if_splits)

lemma update_transfer_inv: "history_inv h \<Longrightarrow> history_inv (snd (update_transfer db tid st cs h))"
  by (auto simp: update_transfer_def Let_def reached_id split: option.split
      intro!: inv_set_transfer set_file_status_inv)

lemma history_step_inv: "history_inv h \<Longrightarrow> history_inv (history_step c h)"
proof (induction c h rule: history_step.induct)
  case (1 r fs db h)
  then show ?case
    using upsert_files_inv [OF upsert_transfer_inv]
    by (auto simp: create_transfer_def split: option.split)
next
  case (2 tid fst' cs db h)
  then show ?case using update_transfer_inv by simp
next
  case (3 tid st db h)
  then show ?case by (simp add: update_transfer_files_status_def set_file_status_inv)
next
  case (4 r db h)
  then show ?case using upsert_file_inv by (auto simp: add_file_def split: option.split)
next
  case (5 tid fid cs db h)
  then show ?case by (auto simp: update_file_def Let_def intro!: inv_map_files)
next
  case (6 tid db h)
  then show ?case
    by (auto simp: delete_transfer_def history_inv_def rows_ok_def distinct_map_filter)
next
  case (7 db h)
  then show ?case by (simp add: clear_history_def history_inv_def rows_ok_def)
qed

section \<open>A complete transfer stays complete\<close>

definition transfer_state :: "history \<Rightarrow> string \<Rightarrow> string option" where
  "transfer_state h tid = map_option tr_status (dict_get (hs_transfers h) tid)"

text \<open>
  The commands that leave a complete transfer complete: no deletion, no upsert with a status outside
  those the statement guards, no update to another status than an interruptible one.
\<close>

fun keeps_state :: "history_cmd \<times> bool \<Rightarrow> bool" where
  "keeps_state (Create r fs, db) = (tr_status r \<in> set LATE \<or> tr_status r = ''complete'')"
| "keeps_state (Update tid st cs, db) =
     (\<forall>c \<in> set cs. case c of Set_status x \<Rightarrow> x \<in> set INTERRUPTIBLE \<or> x = ''complete'' | _ \<Rightarrow> True)"
| "keeps_state (Delete tid, db) = False"
| "keeps_state (Clear, db) = False"
| "keeps_state _ = True"

lemma upsert_files_transfers: "upsert_files rs h = Some h' \<Longrightarrow> hs_transfers h' = hs_transfers h"
proof (induction rs arbitrary: h)
  case (Cons r rs)
  then obtain g where "upsert_file r h = Some g" "upsert_files rs g = Some h'" by (auto split: option.splits)
  moreover from this(1) have "hs_transfers g = hs_transfers h" by (auto simp: upsert_file_def split: if_splits)
  ultimately show ?case using Cons.IH by simp
qed simp

lemma fold_change_complete:
  "tr_status r = ''complete'' \<Longrightarrow> (\<forall>c \<in> set cs. \<forall>x. c = Set_status x \<longrightarrow> x = ''complete'') \<Longrightarrow>
   tr_status (fold apply_change cs r) = ''complete''"
proof (induction cs arbitrary: r)
  case (Cons c cs)
  then have "tr_status (apply_change c r) = ''complete''" by (cases c) auto
  with Cons show ?case by simp
qed simp

lemma upsert_state:
  "transfer_state h tid = Some ''complete'' \<Longrightarrow> tr_status r \<in> set LATE \<or> tr_status r = ''complete'' \<Longrightarrow>
   transfer_state (upsert_transfer r h) tid = Some ''complete''"
  by (auto simp: transfer_state_def upsert_transfer_def Let_def merge_transfer_def keeps_complete_def
      split: option.splits)

lemma update_state:
  assumes "transfer_state h tid = Some ''complete''" "keeps_state (Update tid' st cs, db)"
  shows "transfer_state (snd (update_transfer db tid' st cs h)) tid = Some ''complete''"
proof -
  have same: "transfer_state (set_file_status t x g) tid = transfer_state g tid" for t x g
    by (simp add: transfer_state_def set_file_status_def)
  let ?vs = "filter change_allowed cs"
  have "transfer_state (h\<lparr>hs_transfers := dict_set tid' (fold apply_change ?vs r) (hs_transfers h)\<rparr>) tid
      = Some ''complete''" if r: "reached ?vs tid' h = Some r" for r
  proof (cases "tid' = tid")
    case True
    then have fin: "tr_status r = ''complete''"
      using r assms(1) by (auto simp: reached_def transfer_state_def split: option.splits if_splits)
    then have none: "\<forall>x \<in> set INTERRUPTIBLE. Set_status x \<notin> set ?vs"
      using r by (auto simp: reached_def split: option.splits if_splits)
    have "\<forall>c \<in> set ?vs. \<forall>x. c = Set_status x \<longrightarrow> x = ''complete''"
    proof (intro ballI allI impI)
      fix c x assume c: "c \<in> set ?vs" "c = Set_status x"
      then have "x \<in> set INTERRUPTIBLE \<or> x = ''complete''" using assms(2) by fastforce
      with c none show "x = ''complete''" by blast
    qed
    with fin have "tr_status (fold apply_change ?vs r) = ''complete''" by (rule fold_change_complete)
    then show ?thesis using True by (simp add: transfer_state_def)
  next
    case False
    then show ?thesis using assms(1) by (simp add: transfer_state_def)
  qed
  then show ?thesis
    using assms(1) by (auto simp: update_transfer_def Let_def same split: option.split)
qed

lemma step_state:
  assumes "keeps_state c" "transfer_state h tid = Some ''complete''"
  shows "transfer_state (history_step c h) tid = Some ''complete''"
  using assms
proof (induction c h rule: history_step.induct)
  case (1 r fs db h)
  then have "transfer_state (upsert_transfer r h) tid = Some ''complete''" by (intro upsert_state) auto
  then show ?case
    using 1(2) upsert_files_transfers [of fs "upsert_transfer r h"]
    by (auto simp: create_transfer_def transfer_state_def split: option.split)
next
  case (2 tid' st cs db h)
  then show ?case using update_state by simp
next
  case (4 r db h)
  then show ?case
    by (auto simp: add_file_def transfer_state_def upsert_file_def split: option.split)
qed (auto simp: update_transfer_files_status_def set_file_status_def update_file_def Let_def transfer_state_def)

interpretation history_machine: decided_machine history_step history_inv transfer_state
    "\<lambda>v. v = ''complete''" keeps_state
  by unfold_locales (auto simp: history_step_inv step_state)

section \<open>The statuses as a map\<close>

text \<open>
  What the rest of the program relies on in this store: the status of each transfer. A failed command
  changes nothing, a file of an unknown transfer makes the whole statement fail.
\<close>

definition next_status :: "string option \<Rightarrow> string \<Rightarrow> string" where
  "next_status old st = (case old of None \<Rightarrow> st | Some x \<Rightarrow> if keeps_complete x st then x else st)"

definition last_status :: "change list \<Rightarrow> string \<Rightarrow> string" where
  "last_status cs st = fold (\<lambda>c x. case c of Set_status y \<Rightarrow> y | _ \<Rightarrow> x) cs st"

definition updated_status :: "change list \<Rightarrow> string \<Rightarrow> string" where
  "updated_status cs st =
     (if st = ''complete'' \<and> (\<exists>x \<in> set INTERRUPTIBLE. Set_status x \<in> set cs) then st else last_status cs st)"

fun status_spec :: "history_cmd \<times> bool \<Rightarrow> (string \<Rightarrow> string option) \<Rightarrow> string \<Rightarrow> string option" where
  "status_spec (Create r fs, db) m =
     (if db \<and> (\<forall>q \<in> set fs. fr_transfer_id q = tr_transfer_id r \<or> m (fr_transfer_id q) \<noteq> None)
      then m(tr_transfer_id r \<mapsto> next_status (m (tr_transfer_id r)) (tr_status r)) else m)"
| "status_spec (Update tid st cs, db) m =
     (if db then m(tid := map_option (updated_status cs) (m tid)) else m)"
| "status_spec (Delete tid, db) m = (if db then m(tid := None) else m)"
| "status_spec (Clear, db) m = (if db then Map.empty else m)"
| "status_spec _ m = m"

lemma upsert_files_defined:
  "upsert_files rs h = None \<longleftrightarrow> (\<exists>q \<in> set rs. dict_get (hs_transfers h) (fr_transfer_id q) = None)"
proof (induction rs arbitrary: h)
  case (Cons r rs)
  show ?case
  proof (cases "upsert_file r h")
    case None
    then show ?thesis by (auto simp: upsert_file_def split: if_splits)
  next
    case (Some g)
    then have g: "hs_transfers g = hs_transfers h" "(dict_get (hs_transfers h) (fr_transfer_id r) = None) = False"
      by (auto simp: upsert_file_def split: if_splits)
    with Some Cons.IH [of g] show ?thesis by (simp only: upsert_files.simps list.set bex_simps g) simp
  qed
qed simp

lemma upsert_transfer_state:
  "transfer_state (upsert_transfer r h) =
     (transfer_state h)(tr_transfer_id r \<mapsto> next_status (transfer_state h (tr_transfer_id r)) (tr_status r))"
  by (auto simp: transfer_state_def upsert_transfer_def Let_def merge_transfer_def next_status_def fun_eq_iff
      split: option.split)

lemma create_state:
  assumes "hs_available h"
  shows "transfer_state (snd (create_transfer db r fs h)) = status_spec (Create r fs, db) (transfer_state h)"
proof -
  let ?h = "upsert_transfer r h"
  have "upsert_files fs ?h = None \<longleftrightarrow>
      \<not> (\<forall>q \<in> set fs. fr_transfer_id q = tr_transfer_id r \<or> transfer_state h (fr_transfer_id q) \<noteq> None)"
    unfolding upsert_files_defined by (auto simp: upsert_transfer_def transfer_state_def Let_def)
  moreover have "transfer_state h' = transfer_state ?h" if "upsert_files fs ?h = Some h'" for h'
    using upsert_files_transfers [OF that] by (simp add: transfer_state_def fun_eq_iff)
  ultimately show ?thesis
    using assms by (auto simp: create_transfer_def upsert_transfer_state split: option.split)
qed

lemma fold_change_status: "tr_status (fold apply_change cs r) = last_status (filter change_allowed cs) (tr_status r)"
proof (induction cs arbitrary: r)
  case (Cons c cs)
  have "tr_status (apply_change c r) = (case c of Set_status y \<Rightarrow> y | _ \<Rightarrow> tr_status r)" by (cases c) simp_all
  with Cons show ?case by (cases c) (simp_all add: last_status_def)
qed (simp add: last_status_def)

lemma last_status_allowed [simp]: "last_status (filter change_allowed cs) st = last_status cs st"
proof (induction cs arbitrary: st)
  case (Cons c cs)
  then show ?case by (cases c) (simp_all add: last_status_def)
qed (simp add: last_status_def)

lemma update_state_eq:
  assumes "hs_available h"
  shows "transfer_state (snd (update_transfer db tid st cs h)) = status_spec (Update tid st cs, db) (transfer_state h)"
proof -
  let ?vs = "filter change_allowed cs"
  have set_vs: "Set_status x \<in> set ?vs \<longleftrightarrow> Set_status x \<in> set cs" for x by auto
  have none: "last_status cs x = x" if "?vs = []" for x
    using last_status_allowed [of cs x] that by (simp add: last_status_def)
  have same: "transfer_state (set_file_status t x g) = transfer_state g" for t x g
    by (simp add: transfer_state_def set_file_status_def fun_eq_iff)
  have row: "transfer_state (case reached ?vs tid h of None \<Rightarrow> h
        | Some r \<Rightarrow> h\<lparr>hs_transfers := dict_set tid (fold apply_change ?vs r) (hs_transfers h)\<rparr>)
      = (transfer_state h)(tid := map_option (updated_status cs) (transfer_state h tid))"
    by (auto simp: reached_def transfer_state_def updated_status_def fold_change_status set_vs fun_eq_iff
        split: option.split)
  have "(transfer_state h)(tid := map_option (updated_status cs) (transfer_state h tid)) = transfer_state h"
    if "?vs = []"
    using none [OF that] that by (auto simp: fun_eq_iff updated_status_def option.map_ident_strong)
  with row show ?thesis
    using assms by (auto simp: update_transfer_def Let_def same split: option.split)
qed

lemma history_step_state:
  "hs_available h \<Longrightarrow> transfer_state (history_step c h) = status_spec c (transfer_state h)"
proof (induction c h rule: history_step.induct)
  case (3 tid st db h)
  then show ?case
    by (simp add: update_transfer_files_status_def transfer_state_def set_file_status_def fun_eq_iff)
next
  case (4 r db h)
  then show ?case
    by (auto simp: add_file_def transfer_state_def upsert_file_def fun_eq_iff split: option.split)
next
  case (5 tid fid cs db h)
  then show ?case by (simp add: update_file_def Let_def transfer_state_def fun_eq_iff)
next
  case (6 tid db h)
  then show ?case by (auto simp: delete_transfer_def transfer_state_def fun_eq_iff)
next
  case (7 db h)
  then show ?case by (auto simp: clear_history_def transfer_state_def fun_eq_iff)
qed (simp_all add: create_state update_state_eq del: status_spec.simps)

lemma upsert_files_available: "upsert_files rs h = Some h' \<Longrightarrow> hs_available h' = hs_available h"
proof (induction rs arbitrary: h)
  case (Cons r rs)
  then obtain g where "upsert_file r h = Some g" "upsert_files rs g = Some h'" by (auto split: option.splits)
  moreover from this(1) have "hs_available g = hs_available h" by (auto simp: upsert_file_def split: if_splits)
  ultimately show ?case using Cons.IH by simp
qed simp

lemma update_available: "hs_available (snd (update_transfer db tid st cs h)) = hs_available h"
proof -
  have row: "hs_available (case x of None \<Rightarrow> h | Some r \<Rightarrow> h\<lparr>hs_transfers := f r\<rparr>) = hs_available h"
    for x :: "transfer_row option" and f by (cases x) simp_all
  have files: "hs_available (case st of None \<Rightarrow> g | Some x \<Rightarrow> set_file_status tid x g) = hs_available g" for g
    by (cases st) (simp_all add: set_file_status_def)
  show ?thesis unfolding update_transfer_def Let_def by (simp only: row files snd_conv if_distrib [of snd] if_distrib [of hs_available] if_cancel)
qed

lemma step_available: "hs_available (history_step c h) = hs_available h"
proof (induction c h rule: history_step.induct)
  case (1 r fs db h)
  have up: "hs_available (upsert_transfer r h) = hs_available h" by (simp add: upsert_transfer_def Let_def)
  show ?case
  proof (cases "upsert_files fs (upsert_transfer r h)")
    case (Some g)
    then have "hs_available g = hs_available h" using upsert_files_available up by metis
    with Some show ?thesis by (simp add: create_transfer_def)
  qed (simp add: create_transfer_def)
next
  case (4 r db h)
  show ?case
  proof (cases "upsert_file r h")
    case (Some g)
    then have "hs_available g = hs_available h" by (auto simp: upsert_file_def split: if_splits)
    with Some show ?thesis by (simp add: add_file_def)
  qed (simp add: add_file_def)
qed (simp_all add: update_available update_transfer_files_status_def set_file_status_def update_file_def Let_def
    delete_transfer_def clear_history_def)

interpretation status_refined: refined_machine history_step "\<lambda>h. hs_available h" transfer_state status_spec
  by unfold_locales (simp_all add: history_step_state step_available)

text \<open>
  \<open>accepted\<close> is interruptible but missing from the statuses of the upsert: an upsert with it turns a
  complete transfer back.
\<close>

lemma accepted_regresses:
  assumes "dict_get (hs_transfers h) (tr_transfer_id r) = Some old" "tr_status r = ''accepted''"
  shows "transfer_state (upsert_transfer r h) (tr_transfer_id r) = Some ''accepted''"
  using assms by (simp add: transfer_state_def upsert_transfer_def merge_transfer_def keeps_complete_def LATE_def)

section \<open>After a restart\<close>

definition db_ok :: "db_file \<Rightarrow> bool" where
  "db_ok f \<longleftrightarrow> history_inv \<lparr>hs_available = True, hs_transfers = db_transfers f, hs_files = db_files f, hs_next = db_next f\<rparr>"

lemma map_values_get: "dict_get (map (\<lambda>(k, r). (k, g r)) d) tid = map_option g (dict_get d tid)"
  by (induction d) auto

lemma interrupt_row_state: "tr_status (interrupt_row r) \<in> set INTERRUPTIBLE \<longrightarrow> tr_status (interrupt_row r) = ''interrupted''"
  by (simp add: interrupt_row_def)

lemma rows_ok_map: "rows_ok d \<Longrightarrow> (\<And>r. tr_transfer_id (g r) = tr_transfer_id r) \<Longrightarrow> rows_ok (map (\<lambda>(k, r). (k, g r)) d)"
  by (auto simp: rows_ok_def map_values_get dict_ok_def comp_def case_prod_beta)

lemma migrate_inv:
  assumes "db_ok f" "migrate f = Some h"
  shows "history_inv h"
proof -
  have rows: "rows_ok (db_transfers f)" using assms(1) by (simp add: db_ok_def history_inv_def)
  let ?g = "\<lambda>r. if db_version f < 2 then interrupt_row (add_resume_columns r) else interrupt_row r"
  show ?thesis
  proof (cases "db_version f < 1")
    case True
    then show ?thesis using assms(2) by (auto simp: migrate_def history_inv_def rows_ok_def split: if_splits)
  next
    case False
    have "hs_transfers h = map (\<lambda>(k, r). (k, ?g r)) (db_transfers f)" "hs_files h = db_files f" "hs_next h = db_next f"
      using assms(2) False by (auto simp: migrate_def Let_def comp_def case_prod_beta split: if_splits)
    moreover from rows have "rows_ok (map (\<lambda>(k, r). (k, ?g r)) (db_transfers f))"
      by (rule rows_ok_map) (simp add: interrupt_row_def add_resume_columns_def)
    ultimately show ?thesis
      using assms(1) by (simp add: db_ok_def history_inv_def map_values_get)
  qed
qed

lemma migrate_state:
  assumes "migrate f = Some h" "transfer_state h tid = Some st"
  shows "st \<in> set INTERRUPTIBLE \<longrightarrow> st = ''interrupted''"
proof -
  obtain rows where "hs_transfers h = map (\<lambda>(k, r). (k, interrupt_row r)) rows"
    using assms(1) by (auto simp: migrate_def Let_def simp del: map_map split: if_splits)
  then show ?thesis
    using assms(2) interrupt_row_state by (auto simp: transfer_state_def map_values_get)
qed

lemma migrate_keeps_complete:
  assumes "migrate f = Some h" "1 \<le> db_version f" "dict_get (db_transfers f) tid = Some r"
    "tr_status r \<notin> set INTERRUPTIBLE"
  shows "transfer_state h tid = Some (tr_status r)"
  using assms
  by (auto simp: migrate_def Let_def transfer_state_def map_values_get interrupt_row_def add_resume_columns_def
      simp del: map_map split: if_splits)

lemma open_history_inv: "db_ok f \<Longrightarrow> history_inv (open_history ok f)"
proof -
  assume ok: "db_ok f"
  have "history_inv \<lparr>hs_available = False, hs_transfers = [], hs_files = [], hs_next = 1\<rparr>"
    by (simp add: history_inv_def rows_ok_def)
  then show ?thesis
    using migrate_inv [OF ok] by (simp add: open_history_def Let_def split: option.split)
qed

text \<open>The status of every transfer after the migration.\<close>

lemma migrate_states:
  assumes "migrate f = Some h" "1 \<le> db_version f"
  shows "transfer_state h tid =
    map_option (\<lambda>r. if tr_status r \<in> set INTERRUPTIBLE then ''interrupted'' else tr_status r)
      (dict_get (db_transfers f) tid)"
proof -
  have "tr_status (interrupt_row r) = (if tr_status r \<in> set INTERRUPTIBLE then ''interrupted'' else tr_status r)"
    "tr_status (interrupt_row (add_resume_columns r))
      = (if tr_status r \<in> set INTERRUPTIBLE then ''interrupted'' else tr_status r)" for r
    by (simp_all add: interrupt_row_def add_resume_columns_def)
  then show ?thesis
    using assms
    by (cases "dict_get (db_transfers f) tid")
       (auto simp: migrate_def Let_def transfer_state_def map_values_get simp del: map_map split: if_splits)
qed

end
