(* ===== verification/Events.thy ===== *)
theory Events
  imports Inbox PairingInbox Lifecycle
begin

text \<open>
  \<open>core/events.py\<close>: the events of the core and the publisher. A callback acts on a state of the
  application and may raise; the publisher calls every subscriber of the moment in order.
\<close>

datatype core_event =
    Incoming_transfer_offered incoming_request
  | Transfer_updated "transfer_info list"
  | Transfer_completed transfer_info
  | Transfer_failed transfer_info
  | Pairing_offered pairing_identity
  | Peer_state_changed string

definition subscribe :: "'cb \<Rightarrow> 'cb list \<Rightarrow> 'cb list" where
  "subscribe cb subs = (if cb \<in> set subs then subs else subs @ [cb])"

definition unsubscribe :: "'cb \<Rightarrow> 'cb list \<Rightarrow> 'cb list" where
  "unsubscribe cb subs = remove1 cb subs"

text \<open>What calling a callback with an event does to the application's state, and whether it raises.\<close>

type_synonym ('cb, 's) handler = "'cb \<Rightarrow> core_event \<Rightarrow> 's \<Rightarrow> unit result \<times> 's"

fun publish_event :: "('cb, 's) handler \<Rightarrow> 'cb list \<Rightarrow> core_event \<Rightarrow> 's \<Rightarrow> 's" where
  "publish_event act [] e s = s"
| "publish_event act (cb # subs) e s = publish_event act subs e (snd (act cb e s))"

lemma subscribe_distinct: "distinct subs \<Longrightarrow> distinct (subscribe cb subs)"
  by (simp add: subscribe_def)

lemma unsubscribe_gone: "distinct subs \<Longrightarrow> cb \<notin> set (unsubscribe cb subs)"
  by (simp add: unsubscribe_def)

text \<open>A recording handler sees every subscriber called once, in order, whoever raises.\<close>

lemma publish_reaches_all:
  assumes "\<And>cb s. snd (act cb e s) = s @ [cb]"
  shows "publish_event act subs e s = s @ subs"
  by (induction subs arbitrary: s) (simp_all add: assms)

end
