(* ===== verification/Aggregate.thy ===== *)
theory Aggregate
  imports History Events "HOL-Library.Product_Lexorder"
begin

text \<open>
  The part of \<open>SecureTransfer\<close> (\<open>core/transfer.py\<close>) that turns the runtime records of the files into one
  history record per transfer and into events: duplicates of one file are merged, the statuses of
  the files are aggregated, and the result is written when it has changed enough. The clocks, the
  outcome of the database statements and the resolver of peer names are arguments.
\<close>

section \<open>The order of statuses\<close>

definition file_status_rank :: "transfer_status \<Rightarrow> nat" where
  "file_status_rank s =
     (case s of
        COMPLETE \<Rightarrow> 100 | CANCELLED \<Rightarrow> 90 | FAILED \<Rightarrow> 80 | REJECTED \<Rightarrow> 70 | ACTIVE \<Rightarrow> 60 | RESUMING \<Rightarrow> 50
      | INTERRUPTED \<Rightarrow> 40 | ACCEPTED \<Rightarrow> 30 | PENDING_APPROVAL \<Rightarrow> 20 | PENDING \<Rightarrow> 10)"

lemma file_status_rank_inj: "file_status_rank s = file_status_rank t \<longleftrightarrow> s = t"
  by (cases s; cases t) (simp_all add: file_status_rank_def)

text \<open>The rank is injective, so it makes the statuses a linear order.\<close>

instantiation transfer_status :: linorder
begin

definition less_eq_transfer_status :: "transfer_status \<Rightarrow> transfer_status \<Rightarrow> bool" where
  "s \<le> t \<longleftrightarrow> file_status_rank s \<le> file_status_rank t"

definition less_transfer_status :: "transfer_status \<Rightarrow> transfer_status \<Rightarrow> bool" where
  "s < t \<longleftrightarrow> file_status_rank s < file_status_rank t"

instance
  by standard
     (auto simp: less_eq_transfer_status_def less_transfer_status_def file_status_rank_inj
        intro: antisym)

end

lemma complete_greatest: "s \<le> COMPLETE"
  by (cases s) (simp_all add: less_eq_transfer_status_def file_status_rank_def)

section \<open>One file seen twice\<close>

type_synonym priority = "transfer_status \<times> nat \<times> time"

definition priority_of :: "transfer_info \<Rightarrow> priority" where
  "priority_of i = (status i, bytes_transferred i, started_at i)"

text \<open>Python's \<open>max\<close> with a key: the first of the greatest items.\<close>

fun first_max :: "('a \<Rightarrow> 'b::linorder) \<Rightarrow> 'a \<Rightarrow> 'a list \<Rightarrow> 'a" where
  "first_max k b [] = b"
| "first_max k b (x # xs) = first_max k (if k b < k x then x else b) xs"

definition max_of :: "('a \<Rightarrow> nat) \<Rightarrow> 'a list \<Rightarrow> nat" where
  "max_of f xs = foldr (\<lambda>x m. max (f x) m) xs 0"

definition or_zero :: "time option \<Rightarrow> time" where
  "or_zero t = (case t of None \<Rightarrow> 0 | Some x \<Rightarrow> x)"

definition nonzero :: "time \<Rightarrow> time option" where
  "nonzero t = (if t = 0 then None else Some t)"

definition latest_completion :: "transfer_info list \<Rightarrow> time" where
  "latest_completion items = Max (set (map (or_zero \<circ> completed_at) items))"

definition earliest_start :: "transfer_info list \<Rightarrow> time" where
  "earliest_start items = Min (set (map started_at items))"

definition first_text :: "(transfer_info \<Rightarrow> string option) \<Rightarrow> transfer_info list \<Rightarrow> string option" where
  "first_text f items =
     (case filter (\<lambda>i. f i \<notin> {None, Some []}) items of [] \<Rightarrow> None | i # _ \<Rightarrow> f i)"

definition resolve_authoritative :: "transfer_info list \<Rightarrow> transfer_info" where
  "resolve_authoritative items =
     (if length items = 1 then hd items
      else
        (let best = first_max priority_of (hd items) (tl items)
         in \<lparr>filename = filename best, filesize = filesize best, direction = direction best,
             peer_ip = peer_ip best, status = status best,
             bytes_transferred =
               (if status best = COMPLETE then filesize best else max_of bytes_transferred items),
             started_at = earliest_start items,
             error = (if status best \<noteq> COMPLETE then error best else None),
             retry_count = max_of retry_count items, peer_device_id = peer_device_id best,
             transfer_id = transfer_id best, file_id = file_id best,
             resume_offset = max_of resume_offset items,
             bytes_this_attempt = bytes_this_attempt best,
             completed_at = (if is_terminal (status best) then nonzero (latest_completion items) else None),
             message = message best, sha256 = sha256 best,
             final_path = (case first_text final_path items of None \<Rightarrow> final_path best | p \<Rightarrow> p)\<rparr>))"

section \<open>One transfer\<close>

definition status_priorities :: "transfer_status list" where
  "status_priorities =
     [FAILED, CANCELLED, REJECTED, INTERRUPTED, RESUMING, ACTIVE, ACCEPTED, PENDING_APPROVAL, PENDING]"

definition aggregate_status :: "transfer_info list \<Rightarrow> transfer_status" where
  "aggregate_status infos =
     (case filter (\<lambda>s. \<exists>i \<in> set infos. status i = s) status_priorities of
        [] \<Rightarrow> COMPLETE | s # _ \<Rightarrow> s)"

text \<open>\<open>setdefault(key, []).append(item)\<close> over a list.\<close>

definition group_by :: "('a \<Rightarrow> 'k) \<Rightarrow> 'a list \<Rightarrow> ('k, 'a list) dict" where
  "group_by k xs =
     foldl (\<lambda>d x. dict_set (k x) ((case dict_get d (k x) of None \<Rightarrow> [] | Some ys \<Rightarrow> ys) @ [x]) d) [] xs"

text \<open>\<open>item.file_id or item.filename\<close>.\<close>

definition file_name_key :: "transfer_info \<Rightarrow> string" where
  "file_name_key i = (case file_id i of None \<Rightarrow> filename i | Some f \<Rightarrow> if f = [] then filename i else f)"

definition file_group_key :: "transfer_info \<Rightarrow> string \<times> transfer_direction" where
  "file_group_key i = (file_name_key i, direction i)"

definition merged_files :: "transfer_info list \<Rightarrow> transfer_info list" where
  "merged_files raw = map (resolve_authoritative \<circ> snd) (group_by file_group_key raw)"

text \<open>The status that is written, given what the history has.\<close>

definition persisted_status :: "transfer_row option \<Rightarrow> transfer_info list \<Rightarrow> transfer_status" where
  "persisted_status existing infos =
     (let st = aggregate_status infos in
      case existing of
        None \<Rightarrow> st
      | Some r \<Rightarrow>
          if tr_status r = status_value COMPLETE then COMPLETE
          else if st = COMPLETE \<and> int (length infos) < tr_file_count r then ACTIVE
          else st)"

definition persisted_bytes :: "transfer_row option \<Rightarrow> transfer_status \<Rightarrow> transfer_info list \<Rightarrow> int" where
  "persisted_bytes existing st infos =
     (let n = int (sum_list (map bytes_transferred infos)) in
      case existing of
        None \<Rightarrow> n | Some r \<Rightarrow> if st = COMPLETE then max n (tr_bytes_transferred r) else n)"

type_synonym progress_mark = "time \<times> int \<times> string"

definition should_flush :: "progress_mark option \<Rightarrow> time \<Rightarrow> transfer_status \<Rightarrow> int \<Rightarrow> bool" where
  "should_flush previous now st bytes =
     (case previous of
        None \<Rightarrow> True
      | Some (t, n, v) \<Rightarrow>
          v \<noteq> status_value st \<or> is_terminal st \<or> 4 * 1024 * 1024 \<le> bytes - n \<or> 2 \<le> now - t)"

definition history_record ::
  "(string \<Rightarrow> string option) \<Rightarrow> string \<Rightarrow> transfer_row option \<Rightarrow> transfer_status \<Rightarrow> transfer_info list
   \<Rightarrow> transfer_row" where
  "history_record hostname tid existing st infos =
     (let first = hd infos
      in \<lparr>tr_transfer_id = tid, tr_peer_device_id = peer_device_id first, tr_peer_ip = peer_ip first,
          tr_peer_hostname = hostname (peer_ip first), tr_direction = direction_value (direction first),
          tr_status = status_value st, tr_message = message first,
          tr_file_count = max (int (length infos)) (case existing of None \<Rightarrow> 0 | Some r \<Rightarrow> tr_file_count r),
          tr_total_size = max (int (sum_list (map filesize infos)))
                            (case existing of None \<Rightarrow> 0 | Some r \<Rightarrow> tr_total_size r),
          tr_bytes_transferred = persisted_bytes existing st infos,
          tr_started_at = earliest_start infos,
          tr_completed_at =
            (case nonzero (latest_completion infos) of
               Some t \<Rightarrow> Some t
             | None \<Rightarrow> (case existing of
                           None \<Rightarrow> None
                         | Some r \<Rightarrow> (case tr_completed_at r of None \<Rightarrow> None | Some t \<Rightarrow> nonzero t))),
          tr_error = (if st \<noteq> COMPLETE then first_text error infos else None),
          tr_resumed = (\<exists>i \<in> set infos. 0 < resume_offset i),
          tr_resume_offset = int (sum_list (map resume_offset infos))\<rparr>)"

definition history_file :: "string \<Rightarrow> nat \<Rightarrow> transfer_info \<Rightarrow> file_row" where
  "history_file tid index i =
     \<lparr>fr_id = 0, fr_transfer_id = tid,
      fr_file_id = (case file_id i of
                      None \<Rightarrow> ''file-'' @ show_nat index
                    | Some f \<Rightarrow> if f = [] then ''file-'' @ show_nat index else f),
      fr_filename = filename i, fr_final_path = final_path i, fr_filesize = int (filesize i),
      fr_sha256 = sha256 i, fr_bytes_transferred = int (bytes_transferred i),
      fr_status = status_value (status i)\<rparr>"

record facade =
  fc_history :: history
  fc_progress :: "(string, progress_mark) dict"
  fc_terminal :: "(string \<times> string) set"
  fc_events :: "core_event list"

text \<open>One turn of \<open>_persist_runtime_transfers\<close>; \<open>db_read\<close> and \<open>db_write\<close> say whether the statements succeed.\<close>

definition persist_transfer ::
  "(string \<Rightarrow> string option) \<Rightarrow> time \<Rightarrow> bool \<Rightarrow> bool \<Rightarrow> string \<times> transfer_info list \<Rightarrow> facade \<Rightarrow> facade" where
  "persist_transfer hostname now db_read db_write grp s =
     (let tid = fst grp;
          infos = merged_files (snd grp);
          existing = get_transfer db_read tid (fc_history s);
          st = persisted_status existing infos;
          bytes = persisted_bytes existing st infos
      in if should_flush (dict_get (fc_progress s) tid) now st bytes
         then s\<lparr>fc_history := snd (create_transfer db_write (history_record hostname tid existing st infos)
                                     (map2 (history_file tid) [0..<length infos] infos) (fc_history s)),
                fc_progress := dict_set tid (now, bytes, status_value st) (fc_progress s)\<rparr>
         else s)"

definition persist_runtime_transfers ::
  "(string \<Rightarrow> string option) \<Rightarrow> time \<Rightarrow> (string \<Rightarrow> bool \<times> bool) \<Rightarrow> transfer_info list \<Rightarrow> facade \<Rightarrow> facade" where
  "persist_runtime_transfers hostname now db transfers s =
     fold (\<lambda>grp. persist_transfer hostname now (fst (db (fst grp))) (snd (db (fst grp))) grp)
       (group_by transfer_id transfers) s"

section \<open>Events\<close>

definition terminal_event :: "transfer_info \<Rightarrow> facade \<Rightarrow> facade" where
  "terminal_event i s =
     (let key = (transfer_id i, file_name_key i) in
      if key \<in> fc_terminal s then s
      else if status i = COMPLETE
      then s\<lparr>fc_terminal := insert key (fc_terminal s), fc_events := fc_events s @ [Transfer_completed i]\<rparr>
      else if status i \<in> {FAILED, REJECTED, CANCELLED}
      then s\<lparr>fc_terminal := insert key (fc_terminal s), fc_events := fc_events s @ [Transfer_failed i]\<rparr>
      else s)"

definition handle_transfer_update ::
  "(string \<Rightarrow> string option) \<Rightarrow> time \<Rightarrow> (string \<Rightarrow> bool \<times> bool) \<Rightarrow> transfer_info list \<Rightarrow> facade \<Rightarrow> facade" where
  "handle_transfer_update hostname now db transfers s =
     (let s1 = persist_runtime_transfers hostname now db transfers s;
          s2 = s1\<lparr>fc_events := fc_events s1 @ [Transfer_updated transfers]\<rparr>
      in fold terminal_event transfers s2)"

section \<open>Requests\<close>

definition request_row :: "incoming_request \<Rightarrow> transfer_row" where
  "request_row r =
     \<lparr>tr_transfer_id = rq_transfer_id r, tr_peer_device_id = Some (rq_peer_device_id r),
      tr_peer_ip = rq_peer_ip r, tr_peer_hostname = rq_peer_name r,
      tr_direction = direction_value RECV, tr_status = status_value PENDING_APPROVAL,
      tr_message = rq_message r, tr_file_count = int (length (rq_files r)),
      tr_total_size = int (rq_total_size r), tr_bytes_transferred = 0, tr_started_at = rq_received_at r,
      tr_completed_at = None, tr_error = None, tr_resumed = False, tr_resume_offset = 0\<rparr>"

definition request_file :: "string \<Rightarrow> incoming_file \<Rightarrow> file_row" where
  "request_file tid f =
     \<lparr>fr_id = 0, fr_transfer_id = tid, fr_file_id = ifile_id f, fr_filename = ifile_name f,
      fr_final_path = None, fr_filesize = int (ifile_size f), fr_sha256 = Some (ifile_sha256 f),
      fr_bytes_transferred = 0, fr_status = status_value PENDING_APPROVAL\<rparr>"

definition handle_incoming_request :: "bool \<Rightarrow> incoming_request \<Rightarrow> facade \<Rightarrow> facade" where
  "handle_incoming_request db r s =
     (let h = snd (create_transfer db (request_row r) (map (request_file (rq_transfer_id r)) (rq_files r))
                     (fc_history s))
      in s\<lparr>fc_history := h, fc_events := fc_events s @ [Incoming_transfer_offered r]\<rparr>)"

definition decision_status :: "request_status \<Rightarrow> transfer_status" where
  "decision_status st =
     (case st of
        Req_ACCEPTED \<Rightarrow> ACCEPTED | Req_REJECTED \<Rightarrow> REJECTED | Req_EXPIRED \<Rightarrow> FAILED
      | Req_CANCELLED \<Rightarrow> CANCELLED | Req_PENDING_APPROVAL \<Rightarrow> PENDING_APPROVAL)"

definition decision_closes :: "request_status \<Rightarrow> bool" where
  "decision_closes st \<longleftrightarrow> st \<in> {Req_REJECTED, Req_EXPIRED, Req_CANCELLED}"

definition handle_request_decision :: "bool \<Rightarrow> time \<Rightarrow> incoming_request \<Rightarrow> facade \<Rightarrow> facade" where
  "handle_request_decision db now r s =
     (let st = rq_status r;
          err = (if st = Req_EXPIRED \<and> rq_reason r \<in> {None, Some []}
                 then Some ''Transfer request expired'' else rq_reason r)
      in s\<lparr>fc_history := snd (update_transfer db (rq_transfer_id r)
                (if decision_closes st then Some (status_value (decision_status st)) else None)
                [Set_status (status_value (decision_status st)),
                 Set_completed_at (if decision_closes st then Some now else None),
                 Set_error err]
                (fc_history s))\<rparr>)"

section \<open>Merging\<close>

lemma first_max_in: "first_max k b xs \<in> insert b (set xs)"
proof (induction xs arbitrary: b)
  case (Cons y ys)
  have "first_max k (if k b < k y then y else b) ys \<in> insert (if k b < k y then y else b) (set ys)"
    by (rule Cons.IH)
  then show ?case by (auto split: if_splits)
qed simp

lemma first_max_ge: "x \<in> insert b (set xs) \<Longrightarrow> k x \<le> k (first_max k b xs)"
proof (induction xs arbitrary: b x)
  case (Cons y ys)
  let ?b = "if k b < k y then y else b"
  have "k b \<le> k ?b" "k y \<le> k ?b" by auto
  moreover have "k ?b \<le> k (first_max k ?b ys)" using Cons.IH [where b = ?b] Cons.IH by (metis insertI1)
  ultimately show ?case using Cons by (auto intro: order_trans)
qed simp

lemma group_by_snoc:
  "group_by k (xs @ [x]) =
     dict_set (k x) ((case dict_get (group_by k xs) (k x) of None \<Rightarrow> [] | Some ys \<Rightarrow> ys) @ [x]) (group_by k xs)"
  by (simp add: group_by_def)

lemma group_by_get:
  "dict_get (group_by k xs) key =
     (if key \<in> k ` set xs then Some (filter (\<lambda>x. k x = key) xs) else None)"
proof (induction xs rule: rev_induct)
  case Nil
  then show ?case by (simp add: group_by_def)
next
  case (snoc x xs)
  have "filter (\<lambda>y. k y = k x) xs = []" if "k x \<notin> k ` set xs"
    by (rule filter_False) (use that in \<open>metis image_eqI\<close>)
  with snoc show ?case by (auto simp: group_by_snoc)
qed

lemma group_by_ok: "dict_ok (group_by k xs)"
  by (induction xs rule: rev_induct) (simp_all add: group_by_snoc, simp add: group_by_def)

lemma group_by_keys: "fst ` set (group_by k xs) = k ` set xs"
  using group_by_get [of k xs] by (force simp: dom_map_of_conv_image_fst [symmetric] split: if_splits)

lemma group_by_groups: "(key, ys) \<in> set (group_by k xs) \<Longrightarrow> ys = filter (\<lambda>x. k x = key) xs \<and> ys \<noteq> []"
  using dict_in_get [OF group_by_ok, of key ys k xs]
  by (auto simp: group_by_get filter_empty_conv split: if_splits)

text \<open>The status of a merged file is the greatest of its records.\<close>

lemma resolve_status:
  assumes "items \<noteq> []"
  shows "status (resolve_authoritative items) \<in> status ` set items"
    and "i \<in> set items \<Longrightarrow> status i \<le> status (resolve_authoritative items)"
proof -
  obtain b xs where items: "items = b # xs" using assms by (cases items) auto
  show "status (resolve_authoritative items) \<in> status ` set items"
    using first_max_in [of priority_of b xs] items by (auto simp: resolve_authoritative_def Let_def)
  assume i: "i \<in> set items"
  show "status i \<le> status (resolve_authoritative items)"
  proof (cases "length items = 1")
    case True
    then show ?thesis using i items by (auto simp: resolve_authoritative_def)
  next
    case False
    have "priority_of i \<le> priority_of (first_max priority_of b xs)"
      using i items by (intro first_max_ge) simp
    then have "status i \<le> status (first_max priority_of b xs)"
      by (auto simp: priority_of_def less_eq_prod_def)
    with False items show ?thesis by (simp add: resolve_authoritative_def Let_def)
  qed
qed

lemma merged_files_count: "length (merged_files raw) = card (file_group_key ` set raw)"
proof -
  have "length (group_by file_group_key raw) = card (fst ` set (group_by file_group_key raw))"
    using group_by_ok [of file_group_key raw] by (metis dict_ok_def distinct_card length_map set_map)
  then show ?thesis by (simp add: merged_files_def group_by_keys)
qed

section \<open>Aggregation\<close>

text \<open>Position in the list of priorities; \<open>COMPLETE\<close> comes last.\<close>

definition urgency :: "transfer_status \<Rightarrow> nat" where
  "urgency s =
     (case s of
        FAILED \<Rightarrow> 0 | CANCELLED \<Rightarrow> 1 | REJECTED \<Rightarrow> 2 | INTERRUPTED \<Rightarrow> 3 | RESUMING \<Rightarrow> 4 | ACTIVE \<Rightarrow> 5
      | ACCEPTED \<Rightarrow> 6 | PENDING_APPROVAL \<Rightarrow> 7 | PENDING \<Rightarrow> 8 | COMPLETE \<Rightarrow> 9)"

lemma aggregate_most_urgent:
  assumes "infos \<noteq> []"
  shows "aggregate_status infos \<in> status ` set infos"
    and "i \<in> set infos \<Longrightarrow> urgency (aggregate_status infos) \<le> urgency (status i)"
proof -
  have some: "\<exists>i \<in> set infos. True" using assms by (cases infos) auto
  have cases: "\<forall>i \<in> set infos. status i = COMPLETE \<or> status i \<in> set status_priorities"
  proof
    fix i show "status i = COMPLETE \<or> status i \<in> set status_priorities"
      by (cases "status i") (simp_all add: status_priorities_def)
  qed
  show "aggregate_status infos \<in> status ` set infos"
    using some cases
    by (auto simp: aggregate_status_def filter_empty_conv dest!: filter_eq_ConsD split: list.split)
       (metis image_eqI)
  assume i: "i \<in> set infos"
  show "urgency (aggregate_status infos) \<le> urgency (status i)"
    using i by (cases "status i")
      (auto simp: aggregate_status_def status_priorities_def urgency_def split: list.split if_splits)
qed

lemma aggregate_complete:
  assumes "infos \<noteq> []"
  shows "aggregate_status infos = COMPLETE \<longleftrightarrow> (\<forall>i \<in> set infos. status i = COMPLETE)"
proof
  assume c: "aggregate_status infos = COMPLETE"
  show "\<forall>i \<in> set infos. status i = COMPLETE"
  proof
    fix i assume "i \<in> set infos"
    from aggregate_most_urgent(2) [OF assms this] c show "status i = COMPLETE"
      by (cases "status i") (simp_all add: urgency_def)
  qed
next
  assume "\<forall>i \<in> set infos. status i = COMPLETE"
  then show "aggregate_status infos = COMPLETE" using aggregate_most_urgent(1) [OF assms] by auto
qed

lemma urgency_inj: "urgency s = urgency t \<longleftrightarrow> s = t"
  by (cases s; cases t) (simp_all add: urgency_def)

lemma aggregate_urgency_min:
  assumes "infos \<noteq> []"
  shows "urgency (aggregate_status infos) = Min (set (map (urgency \<circ> status) infos))"
  using aggregate_most_urgent [OF assms] by (intro Min_eqI [symmetric]) auto

lemma merged_nonempty: "raw \<noteq> [] \<Longrightarrow> merged_files raw \<noteq> []"
  using merged_files_count [of raw] by auto

text \<open>The groups of records, and the records they are merged into.\<close>

definition group_of :: "transfer_info list \<Rightarrow> string \<times> transfer_direction \<Rightarrow> transfer_info list" where
  "group_of raw k = filter (\<lambda>i. file_group_key i = k) raw"

lemma merged_groups:
  "set (merged_files raw) = (\<lambda>k. resolve_authoritative (group_of raw k)) ` file_group_key ` set raw"
proof -
  have "set (group_by file_group_key raw) = (\<lambda>k. (k, group_of raw k)) ` file_group_key ` set raw"
  proof (intro set_eqI iffI)
    fix p assume p: "p \<in> set (group_by file_group_key raw)"
    then have "fst p \<in> file_group_key ` set raw"
      using group_by_keys [of file_group_key raw] by (metis imageI)
    moreover have "snd p = group_of raw (fst p)"
      using p group_by_groups [of "fst p" "snd p" file_group_key raw] by (simp add: group_of_def)
    ultimately show "p \<in> (\<lambda>k. (k, group_of raw k)) ` file_group_key ` set raw" by (cases p) auto
  next
    fix p assume "p \<in> (\<lambda>k. (k, group_of raw k)) ` file_group_key ` set raw"
    then obtain i where "i \<in> set raw" "p = (file_group_key i, group_of raw (file_group_key i))" by blast
    then have "dict_get (group_by file_group_key raw) (fst p) = Some (snd p)" by (simp add: group_by_get group_of_def)
    then show "p \<in> set (group_by file_group_key raw)" using map_of_SomeD by fastforce
  qed
  then show ?thesis by (simp add: merged_files_def image_image)
qed

text \<open>
  Two orders, written out: which of several records of one file counts, and which of several files decides about
  the transfer. The first status of a list that is held by anything.
\<close>

definition first_held :: "transfer_status list \<Rightarrow> transfer_status set \<Rightarrow> transfer_status" where
  "first_held order held = hd (filter (\<lambda>s. s \<in> held) order)"

lemma first_held_eq:
  assumes "s \<in> held" "\<And>t. t \<in> held \<Longrightarrow> t \<noteq> s \<Longrightarrow> t \<notin> set (takeWhile (\<lambda>t. t \<noteq> s) order)" "s \<in> set order"
  shows "first_held order held = s"
proof -
  obtain xs ys where order: "order = xs @ s # ys" "s \<notin> set xs" using assms(3) by (meson split_list_first)
  then have "takeWhile (\<lambda>t. t \<noteq> s) order = xs" by (subst order(1), subst takeWhile_append2) auto
  then have "filter (\<lambda>t. t \<in> held) xs = []" using assms(2) order(2) by (auto simp: filter_empty_conv)
  then show ?thesis using order(1) assms(1) by (simp add: first_held_def)
qed

lemma resolved_first_held:
  assumes "items \<noteq> []"
  shows "status (resolve_authoritative items)
    = first_held [COMPLETE, CANCELLED, FAILED, REJECTED, ACTIVE, RESUMING, INTERRUPTED, ACCEPTED, PENDING_APPROVAL, PENDING]
        (status ` set items)"
proof (rule first_held_eq [symmetric])
  let ?s = "status (resolve_authoritative items)"
  show "?s \<in> status ` set items" by (rule resolve_status(1) [OF assms])
  fix t assume "t \<in> status ` set items" "t \<noteq> ?s"
  then have "file_status_rank t < file_status_rank ?s"
    using resolve_status(2) [OF assms] file_status_rank_inj
    by (auto simp: less_eq_transfer_status_def order_less_le)
  then show "t \<notin> set (takeWhile (\<lambda>t. t \<noteq> ?s)
      [COMPLETE, CANCELLED, FAILED, REJECTED, ACTIVE, RESUMING, INTERRUPTED, ACCEPTED, PENDING_APPROVAL, PENDING])"
    by (cases ?s; cases t) (simp_all add: file_status_rank_def)
qed (cases "status (resolve_authoritative items)"; simp)

lemma aggregate_first_held:
  assumes "infos \<noteq> []"
  shows "aggregate_status infos
    = first_held [FAILED, CANCELLED, REJECTED, INTERRUPTED, RESUMING, ACTIVE, ACCEPTED, PENDING_APPROVAL, PENDING, COMPLETE]
        (status ` set infos)"
proof (rule first_held_eq [symmetric])
  let ?s = "aggregate_status infos"
  show "?s \<in> status ` set infos" by (rule aggregate_most_urgent(1) [OF assms])
  fix t assume "t \<in> status ` set infos" "t \<noteq> ?s"
  then have "urgency ?s < urgency t"
    using aggregate_most_urgent(2) [OF assms] urgency_inj by (auto simp: order_less_le)
  then show "t \<notin> set (takeWhile (\<lambda>t. t \<noteq> ?s)
      [FAILED, CANCELLED, REJECTED, INTERRUPTED, RESUMING, ACTIVE, ACCEPTED, PENDING_APPROVAL, PENDING, COMPLETE])"
    by (cases ?s; cases t) (simp_all add: urgency_def)
qed (cases "aggregate_status infos"; simp)

lemma merged_status:
  assumes "i \<in> set raw" "j \<in> set (merged_files raw)"
    and "j = resolve_authoritative (group_of raw (file_group_key i))"
  shows "status j = first_held
    [COMPLETE, CANCELLED, FAILED, REJECTED, ACTIVE, RESUMING, INTERRUPTED, ACCEPTED, PENDING_APPROVAL, PENDING]
    {status x | x. x \<in> set raw \<and> file_group_key x = file_group_key i}"
proof -
  have "group_of raw (file_group_key i) \<noteq> []" using assms(1) by (auto simp: group_of_def filter_empty_conv)
  moreover have "status ` set (group_of raw (file_group_key i)) = {status x | x. x \<in> set raw \<and> file_group_key x = file_group_key i}"
    by (auto simp: group_of_def)
  ultimately show ?thesis using resolved_first_held assms(3) by metis
qed

lemma merged_statuses:
  "status ` set (merged_files raw) = (\<lambda>k. first_held
     [COMPLETE, CANCELLED, FAILED, REJECTED, ACTIVE, RESUMING, INTERRUPTED, ACCEPTED, PENDING_APPROVAL, PENDING]
     {status x | x. x \<in> set raw \<and> file_group_key x = k}) ` file_group_key ` set raw"
proof -
  have "status (resolve_authoritative (group_of raw (file_group_key i))) = first_held
     [COMPLETE, CANCELLED, FAILED, REJECTED, ACTIVE, RESUMING, INTERRUPTED, ACCEPTED, PENDING_APPROVAL, PENDING]
     {status x | x. x \<in> set raw \<and> file_group_key x = file_group_key i}" if "i \<in> set raw" for i
    using that by (intro merged_status) (auto simp: merged_groups)
  then show ?thesis unfolding merged_groups image_image by (intro image_cong) simp_all
qed

lemma merged_complete:
  assumes "raw \<noteq> []"
  shows "aggregate_status (merged_files raw) = COMPLETE
    \<longleftrightarrow> (\<forall>i \<in> set raw. \<exists>j \<in> set raw. file_group_key j = file_group_key i \<and> status j = COMPLETE)"
proof -
  have "status (resolve_authoritative ys) = COMPLETE \<longleftrightarrow> (\<exists>j \<in> set ys. status j = COMPLETE)" if "ys \<noteq> []" for ys
    using resolve_status [OF that] complete_greatest by (metis image_iff order_antisym)
  then have "status (resolve_authoritative (group_of raw (file_group_key i))) = COMPLETE
      \<longleftrightarrow> (\<exists>j \<in> set raw. file_group_key j = file_group_key i \<and> status j = COMPLETE)" if "i \<in> set raw" for i
    using that by (subst \<open>\<And>ys. ys \<noteq> [] \<Longrightarrow> _\<close>) (auto simp: group_of_def filter_empty_conv)
  then show ?thesis
    using aggregate_complete [OF merged_nonempty [OF assms]] by (simp add: merged_groups)
qed

section \<open>Commands of the facade\<close>

datatype facade_cmd =
    Runtime_update "string \<Rightarrow> string option" time "string \<Rightarrow> bool \<times> bool" "transfer_info list"
  | Request_arrived bool incoming_request
  | Request_decided bool time incoming_request

fun facade_step :: "facade_cmd \<Rightarrow> facade \<Rightarrow> facade" where
  "facade_step (Runtime_update hostname now db transfers) s =
     handle_transfer_update hostname now db transfers s"
| "facade_step (Request_arrived db r) s = handle_incoming_request db r s"
| "facade_step (Request_decided db now r) s = handle_request_decision db now r s"

text \<open>The keys of the completion and failure events, in order.\<close>

definition event_key :: "transfer_info \<Rightarrow> string \<times> string" where
  "event_key i = (transfer_id i, file_name_key i)"

definition terminal_keys :: "core_event list \<Rightarrow> (string \<times> string) list" where
  "terminal_keys es =
     concat (map (\<lambda>e. case e of Transfer_completed i \<Rightarrow> [event_key i] | Transfer_failed i \<Rightarrow> [event_key i] | _ \<Rightarrow> []) es)"

lemma terminal_keys_simps [simp]:
  "terminal_keys [] = []" "terminal_keys (es @ fs) = terminal_keys es @ terminal_keys fs"
  "terminal_keys [Transfer_completed i] = [event_key i]" "terminal_keys [Transfer_failed i] = [event_key i]"
  "terminal_keys [Transfer_updated ts] = []" "terminal_keys [Incoming_transfer_offered r] = []"
  by (simp_all add: terminal_keys_def)

text \<open>An event of an ended file carries a record that ended that way.\<close>

definition event_true :: "core_event \<Rightarrow> bool" where
  "event_true e =
     (case e of
        Transfer_completed i \<Rightarrow> status i = COMPLETE
      | Transfer_failed i \<Rightarrow> status i \<in> {FAILED, REJECTED, CANCELLED}
      | _ \<Rightarrow> True)"

definition events_once :: "facade \<Rightarrow> bool" where
  "events_once s \<longleftrightarrow> distinct (terminal_keys (fc_events s)) \<and> set (terminal_keys (fc_events s)) = fc_terminal s
     \<and> list_all event_true (fc_events s)"

definition facade_inv :: "facade \<Rightarrow> bool" where
  "facade_inv s \<longleftrightarrow> history_inv (fc_history s) \<and> events_once s"

lemma persist_frame [simp]:
  "fc_events (persist_transfer hn now r w grp s) = fc_events s"
  "fc_terminal (persist_transfer hn now r w grp s) = fc_terminal s"
  by (simp_all add: persist_transfer_def Let_def)

lemma persist_all_frame [simp]:
  "fc_events (persist_runtime_transfers hn now db ts s) = fc_events s"
  "fc_terminal (persist_runtime_transfers hn now db ts s) = fc_terminal s"
proof -
  have "fc_events (fold (\<lambda>grp. persist_transfer hn now (fst (db (fst grp))) (snd (db (fst grp))) grp) gs s) = fc_events s
      \<and> fc_terminal (fold (\<lambda>grp. persist_transfer hn now (fst (db (fst grp))) (snd (db (fst grp))) grp) gs s) = fc_terminal s" for gs
    by (induction gs arbitrary: s) simp_all
  then show "fc_events (persist_runtime_transfers hn now db ts s) = fc_events s"
    "fc_terminal (persist_runtime_transfers hn now db ts s) = fc_terminal s"
    by (simp_all add: persist_runtime_transfers_def)
qed

lemma terminal_event_once: "events_once s \<Longrightarrow> events_once (terminal_event i s)"
  by (auto simp: events_once_def terminal_event_def Let_def event_key_def event_true_def)

lemma terminal_event_history [simp]: "fc_history (terminal_event i s) = fc_history s"
  by (simp add: terminal_event_def Let_def)

lemma terminal_events:
  "events_once s \<Longrightarrow> events_once (fold terminal_event ts s)"
  "fc_history (fold terminal_event ts s) = fc_history s"
  by (induction ts arbitrary: s) (simp_all add: terminal_event_once)

lemma persist_inv:
  "history_inv (fc_history s) \<Longrightarrow> history_inv (fc_history (persist_transfer hn now r w grp s))"
  using history_step_inv [of "fc_history s" "(Create _ _, w)"]
  by (simp add: persist_transfer_def Let_def)

lemma persist_all_inv:
  "history_inv (fc_history s) \<Longrightarrow> history_inv (fc_history (persist_runtime_transfers hn now db ts s))"
proof -
  assume inv: "history_inv (fc_history s)"
  have "history_inv (fc_history (fold (\<lambda>grp. persist_transfer hn now (fst (db (fst grp))) (snd (db (fst grp))) grp) gs s))"
    for gs using inv by (induction gs arbitrary: s) (simp_all add: persist_inv)
  then show ?thesis by (simp add: persist_runtime_transfers_def)
qed

lemma facade_step_inv: "facade_inv s \<Longrightarrow> facade_inv (facade_step c s)"
proof (induction c s rule: facade_step.induct)
  case (1 hn now db ts s)
  then have "events_once (persist_runtime_transfers hn now db ts s
      \<lparr>fc_events := fc_events (persist_runtime_transfers hn now db ts s) @ [Transfer_updated ts]\<rparr>)"
    by (simp add: facade_inv_def events_once_def event_true_def)
  with 1 show ?case
    by (simp add: facade_inv_def handle_transfer_update_def Let_def terminal_events persist_all_inv)
next
  case (2 db r s)
  then show ?case
    using history_step_inv [of "fc_history s" "(Create _ _, db)"]
    by (simp add: facade_inv_def handle_incoming_request_def Let_def events_once_def event_true_def)
next
  case (3 db now r s)
  then show ?case
    using history_step_inv [of "fc_history s" "(Update _ _ _, db)"]
    by (simp add: facade_inv_def handle_request_decision_def Let_def events_once_def)
qed

text \<open>The end of a file that an update reports is announced, then or before, and stays so.\<close>

lemma terminal_event_grows: "fc_terminal s \<subseteq> fc_terminal (terminal_event i s)"
  by (auto simp: terminal_event_def Let_def)

lemma terminal_events_grow: "fc_terminal s \<subseteq> fc_terminal (fold terminal_event ts s)"
  using terminal_event_grows by (induction ts arbitrary: s) (simp, fastforce)

lemma facade_step_grows: "fc_terminal s \<subseteq> fc_terminal (facade_step c s)"
proof (induction c s rule: facade_step.induct)
  case (1 hn now db ts s)
  let ?p = "persist_runtime_transfers hn now db ts s"
  show ?case
    using terminal_events_grow [of "?p\<lparr>fc_events := fc_events ?p @ [Transfer_updated ts]\<rparr>" ts]
    by (simp add: handle_transfer_update_def Let_def)
qed (simp_all add: handle_incoming_request_def handle_request_decision_def Let_def)

lemma facade_run_grows: "fc_terminal s \<subseteq> fc_terminal (fold facade_step cmds s)"
  using facade_step_grows by (induction cmds arbitrary: s) (simp, fastforce)

lemma terminal_event_announces: "status i \<in> {COMPLETE, FAILED, REJECTED, CANCELLED} \<Longrightarrow> event_key i \<in> fc_terminal (terminal_event i s)"
  by (auto simp: terminal_event_def event_key_def Let_def)

lemma terminal_events_announce:
  "i \<in> set ts \<Longrightarrow> status i \<in> {COMPLETE, FAILED, REJECTED, CANCELLED} \<Longrightarrow> event_key i \<in> fc_terminal (fold terminal_event ts s)"
proof (induction ts arbitrary: s)
  case (Cons j ts)
  then show ?case
    using terminal_event_announces [of i s] terminal_events_grow [of "terminal_event i s" ts] by (cases "i = j") (simp, blast, simp)
qed simp

lemma update_announces:
  assumes "Runtime_update hn now db ts \<in> set cmds" "i \<in> set ts" "status i \<in> {COMPLETE, FAILED, REJECTED, CANCELLED}"
  shows "event_key i \<in> fc_terminal (fold facade_step cmds s)"
proof -
  obtain pre post where cmds: "cmds = pre @ Runtime_update hn now db ts # post" using assms(1) by (meson split_list)
  have "event_key i \<in> fc_terminal (facade_step (Runtime_update hn now db ts) s1)" for s1
    using terminal_events_announce [OF assms(2,3)] by (simp add: handle_transfer_update_def Let_def)
  then show ?thesis using facade_run_grows [of _ post] by (auto simp: cmds)
qed

lemma terminal_announced:
  assumes "facade_inv s" "Runtime_update hn now db ts \<in> set cmds" "i \<in> set ts" "status i \<in> {COMPLETE, FAILED, REJECTED, CANCELLED}"
  shows "event_key i \<in> set (terminal_keys (fc_events (fold facade_step cmds s)))"
proof -
  have "events_once (fold facade_step cmds s)"
    using assms(1) by (induction cmds arbitrary: s) (simp_all add: facade_step_inv, simp add: facade_inv_def)
  then show ?thesis using update_announces [OF assms(2-4), of s] by (simp add: events_once_def)
qed

section \<open>Completion in the history\<close>

lemma single_row:
  "rows_ok d \<Longrightarrow> filter (\<lambda>r. tr_transfer_id r = tid) (map snd d) =
     (case dict_get d tid of None \<Rightarrow> [] | Some r \<Rightarrow> [r])"
proof (induction d)
  case (Cons kv d)
  obtain k r where kv: "kv = (k, r)" by force
  have rows: "dict_get (kv # d) t = Some q \<longrightarrow> tr_transfer_id q = t" for t q
    using Cons.prems by (simp add: rows_ok_def)
  have r: "tr_transfer_id r = k" using rows [of k r] kv by simp
  have fresh: "k \<notin> fst ` set d" and ok: "dict_ok d"
    using Cons.prems kv by (auto simp: rows_ok_def dict_ok_def)
  then have none: "dict_get d k = None" by (simp add: map_of_eq_None_iff)
  have "rows_ok d"
    unfolding rows_ok_def
  proof (intro conjI allI impI)
    fix t q assume q: "dict_get d t = Some q"
    with none have "t \<noteq> k" by auto
    with rows [of t q] kv q show "tr_transfer_id q = t" by simp
  qed (rule ok)
  then show ?case using Cons.IH r none kv by (auto split: option.splits)
qed simp

lemma get_transfer_eq:
  "history_inv h \<Longrightarrow> hs_available h \<Longrightarrow> get_transfer True tid h = dict_get (hs_transfers h) tid"
  by (simp add: get_transfer_def query_transfers_def history_inv_def single_row split: option.split)

text \<open>When the history may be written as complete.\<close>

lemma persisted_complete:
  assumes "infos \<noteq> []" "persisted_status existing infos = COMPLETE"
  shows "(\<exists>r. existing = Some r \<and> tr_status r = ''complete'') \<or>
    ((\<forall>i \<in> set infos. status i = COMPLETE)
     \<and> (\<forall>r. existing = Some r \<longrightarrow> tr_file_count r \<le> int (length infos)))"
  using assms aggregate_complete [OF assms(1)]
  by (auto simp: persisted_status_def Let_def split: option.splits if_splits)

text \<open>
  Commands that cannot undo the completion of one transfer: every update whose read of its stored record
  succeeds, every request, every decision but one that closes a request of this very identifier.
\<close>

definition keeps_complete_cmd :: "string \<Rightarrow> facade_cmd \<Rightarrow> bool" where
  "keeps_complete_cmd tid c =
     (case c of
        Runtime_update _ _ db _ \<Rightarrow> fst (db tid)
      | Request_arrived _ _ \<Rightarrow> True
      | Request_decided _ _ r \<Rightarrow> rq_transfer_id r = tid \<longrightarrow> \<not> decision_closes (rq_status r))"

definition shown_state :: "facade \<Rightarrow> string \<Rightarrow> string option" where
  "shown_state s tid = transfer_state (fc_history s) tid"

lemma create_other:
  "tr_transfer_id r \<noteq> tid \<Longrightarrow> transfer_state (snd (create_transfer w r fs h)) tid = transfer_state h tid"
  by (auto simp: create_transfer_def transfer_state_def upsert_transfer_def Let_def
      dest: upsert_files_transfers split: option.splits)

lemma update_other:
  "t \<noteq> tid \<Longrightarrow> transfer_state (snd (update_transfer w t st cs h)) tid = transfer_state h tid"
  by (auto simp: update_transfer_def transfer_state_def set_file_status_def Let_def split: option.splits)

lemma persist_keeps_complete:
  assumes "history_inv (fc_history s)" "shown_state s tid = Some ''complete''" "fst grp = tid \<longrightarrow> rd"
  shows "shown_state (persist_transfer hn now rd w grp s) tid = Some ''complete''"
proof (cases "hs_available (fc_history s) \<and> fst grp = tid")
  case True
  then have rd: "rd" using assms(3) by simp
  obtain r where r: "get_transfer True tid (fc_history s) = Some r" "tr_status r = ''complete''"
    using True assms(1,2) get_transfer_eq by (auto simp: shown_state_def transfer_state_def)
  let ?infos = "merged_files (snd grp)"
  have "persisted_status (Some r) ?infos = COMPLETE" using r(2) by (simp add: persisted_status_def Let_def)
  then have "tr_status (history_record hn tid (Some r) (persisted_status (Some r) ?infos) ?infos) = ''complete''"
    by (simp add: history_record_def Let_def)
  then show ?thesis
    using step_state [of "(Create _ _, w)" "fc_history s" tid] True assms(2) r rd
    by (simp add: persist_transfer_def Let_def shown_state_def)
next
  case False
  have "transfer_state (snd (create_transfer w (history_record hn (fst grp) ex st infos) fs (fc_history s))) tid
      = transfer_state (fc_history s) tid" for ex st infos fs
  proof (cases "hs_available (fc_history s)")
    case True
    with False show ?thesis by (intro create_other) (simp add: history_record_def Let_def)
  qed (simp add: create_transfer_def)
  with assms(2) show ?thesis by (simp add: persist_transfer_def Let_def shown_state_def)
qed

lemma persist_all_keeps_complete:
  assumes "history_inv (fc_history s)" "shown_state s tid = Some ''complete''" "fst (db tid)"
  shows "shown_state (persist_runtime_transfers hn now db ts s) tid = Some ''complete''"
proof -
  have "shown_state (fold (\<lambda>grp. persist_transfer hn now (fst (db (fst grp))) (snd (db (fst grp))) grp) gs s) tid
      = Some ''complete''" for gs
    using assms(1,2) by (induction gs arbitrary: s) (simp_all add: assms(3) persist_inv persist_keeps_complete)
  then show ?thesis by (simp add: persist_runtime_transfers_def)
qed

lemma facade_keeps_complete:
  assumes "facade_inv s" "keeps_complete_cmd tid c" "shown_state s tid = Some ''complete''"
  shows "shown_state (facade_step c s) tid = Some ''complete''"
  using assms
proof (induction c s rule: facade_step.induct)
  case (1 hn now db ts s)
  then have "shown_state (persist_runtime_transfers hn now db ts s) tid = Some ''complete''"
    by (intro persist_all_keeps_complete) (simp_all add: facade_inv_def keeps_complete_cmd_def)
  then show ?case
    by (simp add: handle_transfer_update_def Let_def shown_state_def terminal_events)
next
  case (2 db r s)
  then show ?case
    using step_state [of "(Create (request_row r) _, db)" "fc_history s" tid]
    by (simp add: handle_incoming_request_def Let_def shown_state_def request_row_def LATE_def)
next
  case (3 db now r s)
  show ?case
  proof (cases "rq_transfer_id r = tid")
    case True
    with 3 show ?thesis
      using step_state [of "(Update _ _ [Set_status (status_value (decision_status (rq_status r))), _, _], db)" "fc_history s" tid]
      by (cases "rq_status r")
         (simp_all add: handle_request_decision_def Let_def shown_state_def keeps_complete_cmd_def
            decision_closes_def decision_status_def INTERRUPTIBLE_def)
  next
    case False
    with 3 show ?thesis by (simp add: handle_request_decision_def Let_def shown_state_def update_other)
  qed
qed

interpretation facade_machine: decided_machine facade_step facade_inv "\<lambda>s (_ :: unit). shown_state s tid"
    "\<lambda>v. v = ''complete''" "keeps_complete_cmd tid" for tid
  by unfold_locales (auto simp: facade_step_inv facade_keeps_complete)

end
