(* ===== verification/AddressBook.thy ===== *)
theory AddressBook
  imports TrustStore Endpoint
begin

text \<open>
  \<open>core/address_book.py\<close>: contacts keyed by device identifier and their JSON document on disk. As in the
  trust store the lock makes every method atomic and a run is a sequence of commands.
\<close>

section \<open>Model\<close>

text \<open>
  The port keeps the value it was given: \<open>_validate_entry\<close> only checks that \<open>Endpoint\<close> accepts it, and
  \<open>Endpoint\<close> accepts numbers in several forms.
\<close>

record address_entry =
  ab_device_id :: string
  ab_friendly_name :: string
  ab_fingerprint :: string
  ab_public_key :: string
  ab_last_hostname :: string
  ab_last_resolved_ip :: "string option"
  ab_transfer_port :: json
  ab_last_success :: "time option"
  ab_last_error :: "string option"

record address_book =
  bk_entries :: "(string, address_entry) dict"
  bk_disk :: "json file_read"

text \<open>\<open>asdict(entry)\<close>.\<close>

definition opt_json :: "('a \<Rightarrow> json) \<Rightarrow> 'a option \<Rightarrow> json" where
  "opt_json f x = (case x of None \<Rightarrow> JNull | Some y \<Rightarrow> f y)"

definition entry_fields :: "address_entry \<Rightarrow> (string, json) dict" where
  "entry_fields e =
     [(''device_id'', JStr (ab_device_id e)), (''friendly_name'', JStr (ab_friendly_name e)),
      (''fingerprint'', JStr (ab_fingerprint e)), (''public_key'', JStr (ab_public_key e)),
      (''last_hostname'', JStr (ab_last_hostname e)),
      (''last_resolved_ip'', opt_json JStr (ab_last_resolved_ip e)),
      (''transfer_port'', ab_transfer_port e),
      (''last_successful_connection'', opt_json (JFloat \<circ> Fin) (ab_last_success e)),
      (''last_connection_error'', opt_json JStr (ab_last_error e))]"

section \<open>Validation\<close>

definition contact_identity ::
  "crypto \<Rightarrow> json \<Rightarrow> json \<Rightarrow> json \<Rightarrow> (string \<times> string \<times> string) result" where
  "contact_identity c did key fp =
     (let e = ValueError ''Invalid cryptographic identity'' in
      bind_result (as_str e did) (\<lambda>d.
      bind_result (ensure e (device_id_ok d)) (\<lambda>_.
      bind_result (as_str e key) (\<lambda>k.
      bind_result (ensure e (device_id_from_public_key c k = Inr d)) (\<lambda>_.
      bind_result (as_str e fp) (\<lambda>f.
      bind_result (ensure e (fingerprint_from_public_key c k = Inr f)) (\<lambda>_. Inr (d, k, f))))))))"

text \<open>\<open>ipaddress.ip_address(s)\<close> does not raise.\<close>

definition is_ip :: "string \<Rightarrow> bool" where
  "is_ip s \<longleftrightarrow> ip_version s \<noteq> None"

definition friendly_name_ok :: "string \<Rightarrow> bool" where
  "friendly_name_ok n \<longleftrightarrow> n \<noteq> [] \<and> n = strip n \<and> length n \<le> 80 \<and> list_all is_printable n"

definition connection_error_ok :: "string \<Rightarrow> bool" where
  "connection_error_ok m \<longleftrightarrow> length m \<le> 512 \<and> list_all is_printable m"

definition optional_field :: "json \<Rightarrow> (json \<Rightarrow> 'a result) \<Rightarrow> 'a option result" where
  "optional_field v f = (if v = JNull then Inr None else bind_result (f v) (\<lambda>x. Inr (Some x)))"

text \<open>\<open>_validate_entry\<close> on the fields of an entry; the checked entry comes back typed.\<close>

definition validate_entry :: "crypto \<Rightarrow> (string, json) dict \<Rightarrow> address_entry result" where
  "validate_entry c d =
     bind_result (contact_identity c (oget d ''device_id'') (oget d ''public_key'') (oget d ''fingerprint'')) (\<lambda>(did, key, fp).
     bind_result (endpoint_new (oget d ''last_hostname'') (oget d ''transfer_port'')) (\<lambda>ep.
     bind_result (as_str (ValueError ''Invalid friendly name'') (oget d ''friendly_name'')) (\<lambda>n.
     bind_result (ensure (ValueError ''Invalid friendly name'') (friendly_name_ok n)) (\<lambda>_.
     bind_result (optional_field (oget d ''last_resolved_ip'') (\<lambda>v.
        bind_result (as_str (ValueError ''Invalid resolved address'') v) (\<lambda>ip.
        bind_result (ensure (ValueError ''not an IP address'') (is_ip ip)) (\<lambda>_. Inr ip)))) (\<lambda>ip.
     bind_result (optional_field (oget d ''last_successful_connection'')
                    (validate_timestamp (ValueError ''Invalid connection timestamp''))) (\<lambda>t.
     bind_result (optional_field (oget d ''last_connection_error'') (\<lambda>v.
        bind_result (as_str (ValueError ''Invalid connection error'') v) (\<lambda>m.
        bind_result (ensure (ValueError ''Invalid connection error'') (connection_error_ok m)) (\<lambda>_. Inr m)))) (\<lambda>err.
     Inr \<lparr>ab_device_id = did, ab_friendly_name = n, ab_fingerprint = fp, ab_public_key = key,
          ab_last_hostname = host ep, ab_last_resolved_ip = ip, ab_transfer_port = oget d ''transfer_port'',
          ab_last_success = t, ab_last_error = err\<rparr>)))))))"

section \<open>Persistence\<close>

definition contact_fields :: "string list" where
  "contact_fields =
     [''device_id'', ''friendly_name'', ''fingerprint'', ''public_key'', ''last_hostname'',
      ''last_resolved_ip'', ''transfer_port'', ''last_successful_connection'', ''last_connection_error'']"

text \<open>One record of the document: the constructor call, the key and the validation.\<close>

definition load_entry :: "crypto \<Rightarrow> string \<Rightarrow> json \<Rightarrow> address_entry result" where
  "load_entry c key v =
     bind_result (as_dict (TypeError ''record must be an object'') v) (\<lambda>d.
     bind_result (ensure (TypeError ''unexpected or missing field'')
                    (set (map fst d) \<subseteq> set contact_fields
                     \<and> set (take 7 contact_fields) \<subseteq> set (map fst d))) (\<lambda>_.
     bind_result (ensure (ValueError ''record key does not match device ID'')
                    (oget d ''device_id'' = JStr key)) (\<lambda>_.
     validate_entry c d)))"

fun load_entries :: "crypto \<Rightarrow> (string \<times> json) list \<Rightarrow> (string, address_entry) dict result" where
  "load_entries c [] = Inr []"
| "load_entries c ((key, v) # rest) =
     (case load_entry c key v of
        Inr e \<Rightarrow> bind_result (load_entries c rest) (\<lambda>es. Inr ((key, e) # es))
      | Inl (TypeError _) \<Rightarrow> load_entries c rest
      | Inl x \<Rightarrow> if is_ValueError x then load_entries c rest else Inl x)"

text \<open>\<open>AddressBook(path)\<close> over what is on disk.\<close>

definition book_load :: "crypto \<Rightarrow> json file_read \<Rightarrow> address_book result" where
  "book_load c disk =
     (case disk of
        Content (JObj d) \<Rightarrow>
          (case (if ''devices'' \<in> set (map fst d) then oget d ''devices'' else JObj []) of
             JObj ds \<Rightarrow> bind_result (load_entries c ds) (\<lambda>es. Inr \<lparr>bk_entries = es, bk_disk = disk\<rparr>)
           | _ \<Rightarrow> Inr \<lparr>bk_entries = [], bk_disk = disk\<rparr>)
      | BadUtf8 \<Rightarrow> Inl (ValueError ''utf-8'')
      | _ \<Rightarrow> Inr \<lparr>bk_entries = [], bk_disk = disk\<rparr>)"

definition book_document :: "(string, address_entry) dict \<Rightarrow> json" where
  "book_document es =
     JObj [(''version'', JInt 1), (''devices'', JObj (map (\<lambda>(k, e). (k, JObj (entry_fields e))) (sort_key fst es)))]"

definition book_save :: "bool \<Rightarrow> address_book \<Rightarrow> unit result \<times> address_book" where
  "book_save io b =
     (if io then (Inr (), b\<lparr>bk_disk := Content (book_document (bk_entries b))\<rparr>)
      else (Inl (OSError ''save''), b))"

section \<open>Operations\<close>

text \<open>\<open>str.casefold\<close> on Latin-1 text, as code points.\<close>

definition casefold :: "string \<Rightarrow> nat list" where
  "casefold s =
     concat (map (\<lambda>ch. let n = code ch in
       if 65 \<le> n \<and> n \<le> 90 \<or> 192 \<le> n \<and> n \<le> 222 \<and> n \<noteq> 215 then [n + 32]
       else if n = 181 then [956] else if n = 223 then [115, 115] else [n]) s)"

definition book_all :: "address_book \<Rightarrow> address_entry list" where
  "book_all b = sort_key (casefold \<circ> ab_friendly_name) (map snd (bk_entries b))"

definition book_get :: "address_book \<Rightarrow> string \<Rightarrow> address_entry option" where
  "book_get b did = dict_get (bk_entries b) did"

definition find_endpoint :: "address_book \<Rightarrow> string \<Rightarrow> int \<Rightarrow> address_entry option" where
  "find_endpoint b h p =
     (case filter (\<lambda>e. ab_last_hostname e = h \<and> json_eq (ab_transfer_port e) (JInt p)) (map snd (bk_entries b)) of
        [] \<Rightarrow> None | e # _ \<Rightarrow> Some e)"

definition book_put :: "crypto \<Rightarrow> bool \<Rightarrow> address_book \<Rightarrow> address_entry \<Rightarrow> unit result \<times> address_book" where
  "book_put c io b e =
     (case validate_entry c (entry_fields e) of
        Inl x \<Rightarrow> (Inl x, b)
      | Inr _ \<Rightarrow> book_save io (b\<lparr>bk_entries := dict_set (ab_device_id e) e (bk_entries b)\<rparr>))"

definition record_success ::
  "bool \<Rightarrow> time \<Rightarrow> address_book \<Rightarrow> string \<Rightarrow> endpoint \<Rightarrow> string \<Rightarrow> unit result \<times> address_book" where
  "record_success io now b did ep ip =
     (case dict_get (bk_entries b) did of
        None \<Rightarrow> (Inl (KeyError did), b)
      | Some e \<Rightarrow>
          book_save io (b\<lparr>bk_entries := dict_set did
            (e\<lparr>ab_last_hostname := host ep, ab_transfer_port := JInt (port ep), ab_last_resolved_ip := Some ip,
               ab_last_success := Some now, ab_last_error := None\<rparr>) (bk_entries b)\<rparr>))"

definition record_error :: "bool \<Rightarrow> address_book \<Rightarrow> string \<Rightarrow> string \<Rightarrow> unit result \<times> address_book" where
  "record_error io b did m =
     (case dict_get (bk_entries b) did of
        None \<Rightarrow> (Inr (), b)
      | Some e \<Rightarrow>
          book_save io (b\<lparr>bk_entries := dict_set did (e\<lparr>ab_last_error := Some (take 512 m)\<rparr>) (bk_entries b)\<rparr>))"

definition forget_entry :: "bool \<Rightarrow> address_book \<Rightarrow> string \<Rightarrow> bool result \<times> address_book" where
  "forget_entry io b did =
     (if dict_get (bk_entries b) did = None then (Inr False, b)
      else let (r, b') = book_save io (b\<lparr>bk_entries := dict_pop did (bk_entries b)\<rparr>)
           in (bind_result r (\<lambda>_. Inr True), b'))"

section \<open>Valid entries\<close>

lemma optional_field_eq:
  "optional_field v f = Inr x \<longleftrightarrow> (v = JNull \<and> x = None) \<or> (v \<noteq> JNull \<and> (\<exists>y. f v = Inr y \<and> x = Some y))"
  by (auto simp: optional_field_def)

lemma contact_identity_eq:
  "contact_identity c did key fp = Inr (d, k, f) \<longleftrightarrow>
     did = JStr d \<and> key = JStr k \<and> fp = JStr f \<and> device_id_ok d
     \<and> device_id_from_public_key c k = Inr d \<and> fingerprint_from_public_key c k = Inr f"
  by (auto simp: contact_identity_def Let_def)

text \<open>The identity of an entry is derived from its key; nothing later changes these four fields.\<close>

definition entry_bound :: "crypto \<Rightarrow> string \<Rightarrow> address_entry \<Rightarrow> bool" where
  "entry_bound c did e \<longleftrightarrow>
     ab_device_id e = did \<and> device_id_ok did \<and> device_id_from_public_key c (ab_public_key e) = Inr did
     \<and> fingerprint_from_public_key c (ab_public_key e) = Inr (ab_fingerprint e) \<and> friendly_name_ok (ab_friendly_name e)"

definition port_ok :: "address_entry \<Rightarrow> bool" where
  "port_ok e \<longleftrightarrow> (\<exists>ep. endpoint_new (JStr (ab_last_hostname e)) (ab_transfer_port e) = Inr ep)"

definition entry_loadable :: "address_entry \<Rightarrow> bool" where
  "entry_loadable e \<longleftrightarrow>
     (case ab_last_resolved_ip e of None \<Rightarrow> True | Some ip \<Rightarrow> is_ip ip)
     \<and> (case ab_last_success e of None \<Rightarrow> True | Some t \<Rightarrow> 0 \<le> t)
     \<and> (case ab_last_error e of None \<Rightarrow> True | Some m \<Rightarrow> connection_error_ok m)"

lemma endpoint_new_host: "endpoint_new hv pv = Inr ep \<Longrightarrow> hv = JStr (host ep)"
  by (auto simp: endpoint_new_def split: json.splits if_splits sum.splits exn.splits)

lemma entry_gets [simp]:
  "oget (entry_fields e) ''device_id'' = JStr (ab_device_id e)"
  "oget (entry_fields e) ''friendly_name'' = JStr (ab_friendly_name e)"
  "oget (entry_fields e) ''fingerprint'' = JStr (ab_fingerprint e)"
  "oget (entry_fields e) ''public_key'' = JStr (ab_public_key e)"
  "oget (entry_fields e) ''last_hostname'' = JStr (ab_last_hostname e)"
  "oget (entry_fields e) ''last_resolved_ip'' = opt_json JStr (ab_last_resolved_ip e)"
  "oget (entry_fields e) ''transfer_port'' = ab_transfer_port e"
  "oget (entry_fields e) ''last_successful_connection'' = opt_json (JFloat \<circ> Fin) (ab_last_success e)"
  "oget (entry_fields e) ''last_connection_error'' = opt_json JStr (ab_last_error e)"
  by (simp_all add: entry_fields_def)

lemma optional_str:
  "optional_field (opt_json JStr x) (\<lambda>v. bind_result (as_str e1 v) (\<lambda>s. bind_result (ensure e2 (P s)) (\<lambda>_. Inr s))) = Inr y
     \<longleftrightarrow> y = x \<and> (case x of None \<Rightarrow> True | Some s \<Rightarrow> P s)"
  by (cases x) (auto simp: optional_field_def opt_json_def)

lemma optional_time:
  "optional_field (opt_json (JFloat \<circ> Fin) x) (validate_timestamp e) = Inr y
     \<longleftrightarrow> y = x \<and> (case x of None \<Rightarrow> True | Some t \<Rightarrow> 0 \<le> t)"
  by (cases x) (auto simp: optional_field_def opt_json_def validate_timestamp_def)

text \<open>What \<open>put\<close> accepts, and that the checks return the entry they were given.\<close>

lemma validate_entry_fields:
  "validate_entry c (entry_fields e) = Inr e' \<longleftrightarrow>
     e' = e \<and> entry_bound c (ab_device_id e) e \<and> port_ok e \<and> entry_loadable e"
proof -
  have same: "\<lparr>ab_device_id = ab_device_id e, ab_friendly_name = ab_friendly_name e, ab_fingerprint = ab_fingerprint e,
      ab_public_key = ab_public_key e, ab_last_hostname = ab_last_hostname e, ab_last_resolved_ip = ab_last_resolved_ip e,
      ab_transfer_port = ab_transfer_port e, ab_last_success = ab_last_success e, ab_last_error = ab_last_error e\<rparr> = e"
    by simp
  show ?thesis
  proof (cases "endpoint_new (JStr (ab_last_hostname e)) (ab_transfer_port e)")
    case (Inl x)
    then show ?thesis by (auto simp: validate_entry_def port_ok_def)
  next
    case (Inr ep)
    from endpoint_new_host [OF Inr] have "host ep = ab_last_hostname e" by simp
    with Inr same show ?thesis
      unfolding validate_entry_def entry_bound_def port_ok_def entry_loadable_def
      by (auto simp: contact_identity_eq optional_str optional_time)
  qed
qed

lemma optional_str_sound:
  "optional_field v (\<lambda>v. bind_result (as_str e1 v) (\<lambda>s. bind_result (ensure e2 (P s)) (\<lambda>_. Inr s))) = Inr y \<Longrightarrow>
   case y of None \<Rightarrow> True | Some s \<Rightarrow> P s"
  by (auto simp: optional_field_eq)

lemma timestamp_nonneg: "validate_timestamp e v = Inr t \<Longrightarrow> 0 \<le> t"
  by (cases v) (auto simp: validate_timestamp_def split: if_splits pyfloat.splits)

lemma validate_entry_bound:
  assumes "validate_entry c d = Inr e"
  shows "entry_bound c (ab_device_id e) e \<and> port_ok e \<and> entry_loadable e \<and> oget d ''device_id'' = JStr (ab_device_id e)"
proof -
  from assms obtain did key fp ep n ip t err where
    id: "contact_identity c (oget d ''device_id'') (oget d ''public_key'') (oget d ''fingerprint'') = Inr (did, key, fp)"
    and ep: "endpoint_new (oget d ''last_hostname'') (oget d ''transfer_port'') = Inr ep" and n: "friendly_name_ok n"
    and ip: "case ip of None \<Rightarrow> True | Some i \<Rightarrow> is_ip i"
    and t: "optional_field (oget d ''last_successful_connection'')
              (validate_timestamp (ValueError ''Invalid connection timestamp'')) = Inr t"
    and err: "case err of None \<Rightarrow> True | Some m \<Rightarrow> connection_error_ok m"
    and e: "e = \<lparr>ab_device_id = did, ab_friendly_name = n, ab_fingerprint = fp, ab_public_key = key,
          ab_last_hostname = host ep, ab_last_resolved_ip = ip, ab_transfer_port = oget d ''transfer_port'',
          ab_last_success = t, ab_last_error = err\<rparr>"
    unfolding validate_entry_def by (auto dest!: optional_str_sound)
  have "case t of None \<Rightarrow> True | Some t \<Rightarrow> 0 \<le> t"
    using t timestamp_nonneg by (auto simp: optional_field_eq)
  moreover have "port_ok e" using ep endpoint_new_host [OF ep] by (auto simp: port_ok_def e)
  ultimately show ?thesis
    using id n ip err by (simp add: e contact_identity_eq entry_bound_def entry_loadable_def)
qed

section \<open>Commands and the invariant\<close>

text \<open>The endpoint of a success was built by the constructor from a host and a port.\<close>

datatype book_cmd =
    Put address_entry
  | Success time string json json string
  | Failure string string
  | Forget string

fun book_step :: "crypto \<Rightarrow> book_cmd \<times> bool \<Rightarrow> address_book \<Rightarrow> address_book" where
  "book_step c (Put e, io) b = snd (book_put c io b e)"
| "book_step c (Success now did hv pv ip, io) b =
     (case endpoint_new hv pv of Inl _ \<Rightarrow> b | Inr ep \<Rightarrow> snd (record_success io now b did ep ip))"
| "book_step c (Failure did m, io) b = snd (record_error io b did m)"
| "book_step c (Forget did, io) b = snd (forget_entry io b did)"

definition book_inv :: "crypto \<Rightarrow> address_book \<Rightarrow> bool" where
  "book_inv c b \<longleftrightarrow>
     dict_ok (bk_entries b) \<and> (\<forall>did e. dict_get (bk_entries b) did = Some e \<longrightarrow> entry_bound c did e \<and> port_ok e)"

lemma book_save_entries [simp]: "bk_entries (snd (book_save io b)) = bk_entries b"
  by (simp add: book_save_def)

lemma book_inv_set:
  "book_inv c b \<Longrightarrow> entry_bound c did e \<Longrightarrow> port_ok e \<Longrightarrow>
   book_inv c (snd (book_save io (b\<lparr>bk_entries := dict_set did e (bk_entries b)\<rparr>)))"
  by (auto simp: book_inv_def split: if_splits)

lemma endpoint_new_again: "endpoint_new hv pv = Inr ep \<Longrightarrow> endpoint_new (JStr (host ep)) (JInt (port ep)) = Inr ep"
  using endpoint_new_ok [of hv pv ep] by (simp add: endpoint_new_eq)

lemma book_step_inv: "book_inv c b \<Longrightarrow> book_inv c (book_step c cmd b)"
proof (induction c cmd b rule: book_step.induct)
  case (1 c e io b)
  then show ?case
    using book_inv_set by (auto simp: book_put_def validate_entry_fields split: sum.split)
next
  case (2 c now did hv pv ip io b)
  show ?case
  proof (cases "endpoint_new hv pv")
    case (Inr ep)
    show ?thesis
    proof (cases "dict_get (bk_entries b) did")
      case (Some e)
      then have "entry_bound c did e" using 2 by (simp add: book_inv_def)
      then have "entry_bound c did (e\<lparr>ab_last_hostname := host ep, ab_transfer_port := JInt (port ep),
          ab_last_resolved_ip := Some ip, ab_last_success := Some now, ab_last_error := None\<rparr>)"
        by (simp add: entry_bound_def)
      then show ?thesis
        using 2 Inr Some endpoint_new_again [OF Inr] by (simp add: record_success_def book_inv_set port_ok_def)
    qed (use 2 Inr in \<open>simp add: record_success_def\<close>)
  qed (use 2 in simp)
next
  case (3 c did m io b)
  show ?case
  proof (cases "dict_get (bk_entries b) did")
    case (Some e)
    then have "entry_bound c did e" "port_ok e" using 3 by (simp_all add: book_inv_def)
    then show ?thesis using 3 Some by (simp add: record_error_def book_inv_set entry_bound_def port_ok_def)
  qed (use 3 in \<open>simp add: record_error_def\<close>)
next
  case (4 c did io b)
  then show ?case
    by (auto simp: forget_entry_def Let_def prod.case_eq_if book_inv_def split: if_splits)
qed

interpretation book_machine: machine "book_step c" "book_inv c"
  by unfold_locales (rule book_step_inv)

section \<open>Loading\<close>

text \<open>The objects \<open>json.loads\<close> returns have distinct keys.\<close>

definition doc_ok :: "json file_read \<Rightarrow> bool" where
  "doc_ok disk \<longleftrightarrow>
     (case disk of
        Content (JObj d) \<Rightarrow> (case oget d ''devices'' of JObj ds \<Rightarrow> dict_ok ds | _ \<Rightarrow> True)
      | _ \<Rightarrow> True)"

lemma load_entries_sound:
  "load_entries c ds = Inr es \<Longrightarrow> dict_ok ds \<Longrightarrow>
   dict_ok es \<and> fst ` set es \<subseteq> fst ` set ds \<and> (\<forall>(k, e) \<in> set es. entry_bound c k e \<and> port_ok e)"
proof (induction ds arbitrary: es)
  case (Cons kv rest)
  obtain key v where kv: "kv = (key, v)" by force
  have rest: "dict_ok rest" "key \<notin> fst ` set rest" using Cons.prems(2) kv by (auto simp: dict_ok_def)
  show ?case
  proof (cases "load_entry c key v")
    case (Inr e)
    then obtain es' where es': "load_entries c rest = Inr es'" "es = (key, e) # es'" using Cons.prems(1) kv by auto
    have "entry_bound c key e \<and> port_ok e"
      using Inr validate_entry_bound by (auto simp: load_entry_def)
    with es' rest Cons.IH [OF es'(1) rest(1)] show ?thesis by (auto simp: dict_ok_def kv)
  next
    case (Inl x)
    have "load_entries c rest = Inr es" using Cons.prems(1) Inl kv by (cases x) (auto split: if_splits)
    from Cons.IH [OF this rest(1)] show ?thesis by auto
  qed
qed simp

lemma book_load_inv: "book_load c disk = Inr b \<Longrightarrow> doc_ok disk \<Longrightarrow> book_inv c b"
  by (auto simp: book_load_def doc_ok_def book_inv_def split: file_read.splits json.splits if_splits
      dest!: load_entries_sound dict_get_in)

section \<open>Persistence round trip\<close>

lemma load_entry_fields:
  assumes "entry_bound c did e" "port_ok e" "entry_loadable e"
  shows "load_entry c did (JObj (entry_fields e)) = Inr e"
proof -
  have "ab_device_id e = did" using assms(1) by (simp add: entry_bound_def)
  then have "validate_entry c (entry_fields e) = Inr e" using assms by (simp add: validate_entry_fields)
  moreover have "map fst (entry_fields e) = contact_fields" by (simp add: entry_fields_def contact_fields_def)
  then have "fst ` set (entry_fields e) = set contact_fields" by (metis list.set_map)
  ultimately show ?thesis
    using \<open>ab_device_id e = did\<close> set_take_subset [of 7 contact_fields] by (simp add: load_entry_def)
qed

lemma load_entries_fields:
  "\<forall>(k, e) \<in> set es. entry_bound c k e \<and> port_ok e \<and> entry_loadable e \<Longrightarrow>
   load_entries c (map (\<lambda>(k, e). (k, JObj (entry_fields e))) es) = Inr es"
  by (induction es) (auto simp: load_entry_fields)

lemma book_reload:
  assumes inv: "book_inv c b" and ok: "\<forall>(k, e) \<in> set (bk_entries b). entry_loadable e"
  shows "\<exists>b'. book_load c (bk_disk (snd (book_save True b))) = Inr b' \<and> dict_get (bk_entries b') = dict_get (bk_entries b)"
proof -
  let ?es = "sort_key fst (bk_entries b)"
  have dok: "dict_ok (bk_entries b)" using inv by (simp add: book_inv_def)
  have "\<forall>(k, e) \<in> set ?es. entry_bound c k e \<and> port_ok e \<and> entry_loadable e"
    using inv ok dok by (auto simp: book_inv_def dest: dict_in_get)
  then have "load_entries c (map (\<lambda>(k, e). (k, JObj (entry_fields e))) ?es) = Inr ?es"
    by (rule load_entries_fields)
  then have "book_load c (bk_disk (snd (book_save True b)))
      = Inr \<lparr>bk_entries = ?es, bk_disk = Content (book_document (bk_entries b))\<rparr>"
    by (simp add: book_load_def book_save_def book_document_def)
  moreover have "dict_get ?es = dict_get (bk_entries b)"
    using dok by (intro dict_get_same_set) simp_all
  ultimately show ?thesis by simp
qed

text \<open>A failure is recorded without the check the loader makes, so an unprintable message loses the contact.\<close>

lemma unprintable_failure:
  assumes "dict_get (bk_entries b) did = Some e" "\<not> list_all is_printable (take 512 m)" "entry_bound c did e"
  shows "\<exists>e'. dict_get (bk_entries (snd (record_error True b did m))) did = Some e'
    \<and> (\<exists>x. load_entry c did (JObj (entry_fields e')) = Inl x)"
proof -
  let ?e = "e\<lparr>ab_last_error := Some (take 512 m)\<rparr>"
  have "\<not> entry_loadable ?e" using assms(2) by (simp add: entry_loadable_def connection_error_ok_def)
  then have "validate_entry c (entry_fields ?e) \<noteq> Inr y" for y by (simp add: validate_entry_fields)
  then have "\<exists>x. load_entry c did (JObj (entry_fields ?e)) = Inl x"
    by (cases "load_entry c did (JObj (entry_fields ?e))") (auto simp: load_entry_def)
  then show ?thesis using assms(1) by (simp add: record_error_def)
qed

end
