(* ===== verification/Service.thy ===== *)
theory Service
  imports AddressBook Pairing Events
begin

text \<open>
  \<open>DirectPeerService\<close> (\<open>core/service.py\<close>): pairing with an address, connecting, deciding about a device and
  choosing the peer of a batch, over the trust store, the address book and the pairing inbox; and the
  two checks of the sending worker (\<open>core/transfer.py\<close>) that go through it. The resolver, the outcome of
  each \<open>connect\<close>, nonces, keys, clocks and whether the files can be saved are arguments.
\<close>

section \<open>Model\<close>

datatype connection_state = Identity_received | Awaiting_trust | Authenticated | Identity_changed

record connection_result =
  cr_endpoint :: endpoint
  cr_resolved_ip :: string
  cr_identity :: pairing_identity
  cr_state :: connection_state

record resolved_peer =
  rp_device_id :: string
  rp_public_key :: string
  rp_trust_status :: trust_status
  rp_hostname :: string

text \<open>A record of \<open>getaddrinfo\<close>: family, socket type, protocol, and the address with its further numbers.\<close>

datatype family = AF_INET | AF_INET6 | AF_other int

record resolved_address =
  ra_family :: family
  ra_type :: int
  ra_protocol :: int
  ra_address :: "string \<times> int list"

record service =
  sv_trust :: trust_store
  sv_book :: address_book
  sv_pairings :: pairing_inbox
  sv_outbound :: "(string, pairing_identity \<times> endpoint) dict"
  sv_resolved :: "(string, resolved_peer) dict"
  sv_events :: "core_event list"

record service_env =
  se_primitives :: crypto
  se_floats :: "pyfloat \<Rightarrow> string"
  se_parser :: "bytes \<Rightarrow> parsed"
  se_identity :: device_identity
  se_port :: int

text \<open>What one outgoing connection meets.\<close>

record dial =
  dl_records :: "resolved_address list option"
  dl_connect :: "resolved_address \<Rightarrow> connection result"
  dl_nonce :: bytes
  dl_priv :: bytes
  dl_now :: time

section \<open>Errors shown to the user\<close>

definition contains :: "nat list \<Rightarrow> nat list \<Rightarrow> bool" where
  "contains needle s \<longleftrightarrow> (\<exists>n \<in> set [0..<Suc (length s)]. take (length needle) (drop n s) = needle)"

definition friendly_error :: "exn \<Rightarrow> exn" where
  "friendly_error x =
     (case x of
        DirectConnectionError m \<Rightarrow> x
      | TimeoutError \<Rightarrow> DirectConnectionError ''Connection timed out''
      | ConnectionRefused \<Rightarrow> DirectConnectionError ''Connection refused''
      | AuthenticationError _ \<Rightarrow> DirectConnectionError ''Authentication failed''
      | ProtocolError m \<Rightarrow>
          if contains (casefold ''incompatible'') (casefold m) \<or> contains (casefold ''version'') (casefold m)
          then DirectConnectionError ''Peer uses incompatible protocol''
          else DirectConnectionError ''Authentication failed''
      | _ \<Rightarrow> if is_OSError x then DirectConnectionError ''Peer unreachable''
             else DirectConnectionError ''Connection failed'')"

text \<open>The \<open>except\<close> clause around the two exchanges, and \<open>str(error)\<close> of a friendly error.\<close>

definition exchange_caught :: "exn \<Rightarrow> bool" where
  "exchange_caught x \<longleftrightarrow> is_OSError x \<or> is_ValueError x"

definition friendly_text :: "exn \<Rightarrow> string" where
  "friendly_text x = (case friendly_error x of DirectConnectionError m \<Rightarrow> m | _ \<Rightarrow> [])"

section \<open>Opening a connection\<close>

definition add_candidate :: "resolved_address \<Rightarrow> resolved_address list \<Rightarrow> resolved_address list" where
  "add_candidate r cs = (if ra_family r \<notin> {AF_INET, AF_INET6} \<or> r \<in> set cs then cs else cs @ [r])"

definition resolve_candidates :: "resolved_address list option \<Rightarrow> resolved_address list result" where
  "resolve_candidates records =
     (case records of
        None \<Rightarrow> Inl (DirectConnectionError ''Host not found'')
      | Some rs \<Rightarrow>
          (case fold add_candidate rs [] of
             [] \<Rightarrow> Inl (DirectConnectionError ''Host not found'')
           | cs \<Rightarrow> Inr cs))"

text \<open>The candidates in turn; the last failure is the one that is reported.\<close>

fun try_candidates ::
  "(resolved_address \<Rightarrow> connection result) \<Rightarrow> exn \<Rightarrow> resolved_address list \<Rightarrow> (connection \<times> resolved_address) result" where
  "try_candidates connect x [] = Inl x"
| "try_candidates connect x (c # cs) =
     (case connect c of
        Inr cn \<Rightarrow> Inr (cn, c)
      | Inl y \<Rightarrow> if is_OSError y then try_candidates connect (friendly_error y) cs else Inl y)"

definition open_connection :: "dial \<Rightarrow> (connection \<times> resolved_address) result" where
  "open_connection dl =
     bind_result (resolve_candidates (dl_records dl))
       (try_candidates (dl_connect dl) (DirectConnectionError ''Peer is unreachable''))"

section \<open>Pairing and connecting\<close>

definition pair_state :: "trust_status \<Rightarrow> address_entry option \<Rightarrow> string \<Rightarrow> connection_state" where
  "pair_state st known did =
     (if (case known of None \<Rightarrow> False | Some e \<Rightarrow> ab_device_id e \<noteq> did) \<or> st = CHANGED then Identity_changed
      else if st = TRUSTED then Identity_received else Awaiting_trust)"

definition service_pair :: "service_env \<Rightarrow> dial \<Rightarrow> endpoint \<Rightarrow> (service, connection_result) io" where
  "service_pair e dl target s =
     (case bind_result (open_connection dl) (\<lambda>(cn, addr).
             bind_result (fst (client_pair (se_primitives e) (se_floats e) (se_parser e) (dl_nonce dl) (dl_now dl)
                                 (se_identity e) (fst (ra_address addr)) (se_port e) cn)) (\<lambda>p. Inr (p, addr))) of
        Inl x \<Rightarrow> (Inl (if exchange_caught x then friendly_error x else x), s)
      | Inr (p, addr) \<Rightarrow>
          (case assess (sv_trust s) (Some (pr_device_id p)) (Some (pr_public_key p)) of
             Inl x \<Rightarrow> (Inl x, s)
           | Inr st \<Rightarrow>
               (Inr \<lparr>cr_endpoint = target, cr_resolved_ip = fst (ra_address addr), cr_identity = p,
                     cr_state = pair_state st (find_endpoint (sv_book s) (host target) (port target)) (pr_device_id p)\<rparr>,
                s\<lparr>sv_outbound := dict_set (pr_device_id p) (p, target) (sv_outbound s),
                  sv_resolved := dict_set (fst (ra_address addr))
                    \<lparr>rp_device_id = pr_device_id p, rp_public_key = pr_public_key p, rp_trust_status = st,
                     rp_hostname = host target\<rparr> (sv_resolved s)\<rparr>)))"

text \<open>\<open>connect\<close> after \<open>pair\<close>: the authenticated handshake with the trusted record, on a second connection.\<close>

definition authenticate :: "service_env \<Rightarrow> dial \<Rightarrow> trusted_device \<Rightarrow> string result" where
  "authenticate e dl peer =
     bind_result (open_connection dl) (\<lambda>(cn, addr).
     bind_result (fst (client_handshake (se_primitives e) (se_floats e) (se_parser e) (dl_priv dl) (dl_nonce dl)
                         (se_identity e) peer cn)) (\<lambda>_. Inr (fst (ra_address addr))))"

definition on_book :: "(address_book \<Rightarrow> 'a result \<times> address_book) \<Rightarrow> (service, 'a) io" where
  "on_book f s = (case f (sv_book s) of (r, b) \<Rightarrow> (r, s\<lparr>sv_book := b\<rparr>))"

definition finish_connect ::
  "service_env \<Rightarrow> dial \<Rightarrow> bool \<Rightarrow> connection_result \<Rightarrow> trusted_device \<Rightarrow> (service, connection_result) io" where
  "finish_connect e dl io r peer =
     (let did = pr_device_id (cr_identity r) in
      case authenticate e dl peer of
        Inl x \<Rightarrow>
          if exchange_caught x
          then io_bind (on_book (\<lambda>b. record_error io b did (friendly_text x))) (\<lambda>_. io_lift (Inl (friendly_error x)))
          else io_lift (Inl x)
      | Inr ip \<Rightarrow>
          io_bind (on_book (\<lambda>b. record_success io (dl_now dl) b did (cr_endpoint r) ip)) (\<lambda>_.
          io_ret (r\<lparr>cr_resolved_ip := ip, cr_state := Authenticated\<rparr>)))"

definition service_connect ::
  "service_env \<Rightarrow> dial \<Rightarrow> dial \<Rightarrow> bool \<Rightarrow> endpoint \<Rightarrow> (service, connection_result) io" where
  "service_connect e dl1 dl2 io target =
     io_bind (service_pair e dl1 target) (\<lambda>r.
     if cr_state r = Identity_changed then io_lift (Inl (DirectConnectionError ''Device identity changed''))
     else (\<lambda>s.
       let p = cr_identity r in
       case assess (sv_trust s) (Some (pr_device_id p)) (Some (pr_public_key p)) of
         Inl x \<Rightarrow> (Inl x, s)
       | Inr st \<Rightarrow>
           if st \<noteq> TRUSTED then (Inr r, s)
           else (case trust_get (sv_trust s) (pr_device_id p) of
                   None \<Rightarrow> (Inr r, s)
                 | Some peer \<Rightarrow> finish_connect e dl2 io r peer s)))"

section \<open>Decisions\<close>

text \<open>The identity a decision is about: an outgoing pairing of this device, else a request in the inbox.\<close>

definition decided_identity :: "time \<Rightarrow> string \<Rightarrow> (service, pairing_identity \<times> endpoint) io" where
  "decided_identity now did s =
     (case dict_get (sv_outbound s) did of
        Some q \<Rightarrow> (Inr q, s)
      | None \<Rightarrow>
          (case pairing_get now did (sv_pairings s) of
             (None, b) \<Rightarrow> (Inl (KeyError did), s\<lparr>sv_pairings := b\<rparr>)
           | (Some p, b) \<Rightarrow>
               (bind_result (endpoint_new (JStr (pr_peer_ip p)) (JInt (pr_transfer_port p))) (\<lambda>ep. Inr (p, ep)),
                s\<lparr>sv_pairings := b\<rparr>)))"

definition decision_name :: "string option \<Rightarrow> endpoint \<Rightarrow> string" where
  "decision_name name ep = take 80 (case name of None \<Rightarrow> host ep | Some n \<Rightarrow> if n = [] then host ep else n)"

definition new_contact :: "string \<Rightarrow> string \<Rightarrow> trusted_device \<Rightarrow> endpoint \<Rightarrow> string \<Rightarrow> address_entry" where
  "new_contact did name rec ep ip =
     \<lparr>ab_device_id = did, ab_friendly_name = name, ab_fingerprint = td_fingerprint rec, ab_public_key = td_public_key rec,
      ab_last_hostname = host ep, ab_last_resolved_ip = Some ip, ab_transfer_port = JInt (port ep),
      ab_last_success = None, ab_last_error = None\<rparr>"

definition on_trust :: "(trust_store \<Rightarrow> 'a result \<times> trust_store) \<Rightarrow> (service, 'a) io" where
  "on_trust f s = (case f (sv_trust s) of (r, t) \<Rightarrow> (r, s\<lparr>sv_trust := t\<rparr>))"

definition service_trust ::
  "service_env \<Rightarrow> bool \<Rightarrow> bool \<Rightarrow> time \<Rightarrow> time \<Rightarrow> string \<Rightarrow> string option \<Rightarrow> (service, address_entry) io" where
  "service_trust e io1 io2 clk now did name =
     io_bind (decided_identity clk did) (\<lambda>(p, ep).
     io_bind (on_trust (\<lambda>t. trust_device (se_primitives e) io1 now t did (decision_name name ep) (pr_public_key p) None)) (\<lambda>rec.
     let entry = new_contact did (decision_name name ep) rec ep (pr_peer_ip p) in
     io_bind (on_book (\<lambda>b. book_put (se_primitives e) io2 b entry)) (\<lambda>_ s.
     (Inr entry,
      s\<lparr>sv_pairings := snd (pairing_remove did (sv_pairings s)),
        sv_resolved := dict_set (pr_peer_ip p)
          \<lparr>rp_device_id = did, rp_public_key = pr_public_key p, rp_trust_status = TRUSTED, rp_hostname = host ep\<rparr>
          (sv_resolved s),
        sv_events := sv_events s @ [Peer_state_changed did]\<rparr>))))"

definition note_change :: "string \<Rightarrow> bool \<Rightarrow> service \<Rightarrow> service" where
  "note_change did changed s = (if changed then s\<lparr>sv_events := sv_events s @ [Peer_state_changed did]\<rparr> else s)"

definition dismiss_pairing :: "string \<Rightarrow> service \<Rightarrow> bool \<times> service" where
  "dismiss_pairing did s =
     (case pairing_reject did (sv_pairings s) of
        (removed, b) \<Rightarrow> (removed, note_change did removed (s\<lparr>sv_pairings := b\<rparr>)))"

definition forget_device :: "bool \<Rightarrow> bool \<Rightarrow> string \<Rightarrow> (service, bool) io" where
  "forget_device io1 io2 did =
     io_bind (on_trust (\<lambda>t. untrust io1 t did)) (\<lambda>removed.
     io_bind (on_book (\<lambda>b. forget_entry io2 b did)) (\<lambda>_ s.
     (Inr removed, note_change did removed s)))"

definition publish_pairing :: "time \<Rightarrow> time \<Rightarrow> pairing_identity \<Rightarrow> (service, unit) io" where
  "publish_pairing now stamp p s =
     (case pairing_publish now stamp p (sv_pairings s) of
        (Inl x, b) \<Rightarrow> (Inl x, s\<lparr>sv_pairings := b\<rparr>)
      | (Inr u, b) \<Rightarrow> (Inr u, s\<lparr>sv_pairings := b, sv_events := sv_events s @ [Pairing_offered p]\<rparr>))"

section \<open>Sending files\<close>

text \<open>What \<open>send_files\<close> is given, and the call of the transfer engine it ends with.\<close>

datatype target = At_endpoint endpoint | Named string

record batch_request =
  br_peer_ip :: string
  br_paths :: "string list"
  br_message :: "string option"
  br_port :: json

definition approved :: "connection_result \<Rightarrow> connection_result result" where
  "approved r =
     bind_result (ensure (AuthenticationError ''New device requires fingerprint approval'')
                    (cr_state r = Authenticated)) (\<lambda>_. Inr r)"

definition first_connection ::
  "service_env \<Rightarrow> dial \<Rightarrow> dial \<Rightarrow> bool \<Rightarrow> target \<Rightarrow> (service, string \<times> connection_result option) io" where
  "first_connection e dl1 dl2 io t =
     (let via = (\<lambda>ep. io_bind (service_connect e dl1 dl2 io ep) (\<lambda>r.
                 io_bind (io_lift (approved r)) (\<lambda>_. io_ret (pr_device_id (cr_identity r), Some r))))
      in case t of
           At_endpoint ep \<Rightarrow> via ep
         | Named x \<Rightarrow> if starts_with ''mp-'' x then io_ret (x, None)
                      else io_bind (io_lift (endpoint_parse x TRANSFER_PORT)) via)"

definition service_send ::
  "service_env \<Rightarrow> dial \<Rightarrow> dial \<Rightarrow> bool \<Rightarrow> target \<Rightarrow> string list \<Rightarrow> string option \<Rightarrow> (service, batch_request) io" where
  "service_send e dl1 dl2 io t paths msg =
     io_bind (first_connection e dl1 dl2 io t) (\<lambda>(did, conn) s.
       case (book_get (sv_book s) did, trust_get (sv_trust s) did) of
         (Some entry, Some peer) \<Rightarrow>
           io_bind (case conn of
                      Some r \<Rightarrow> io_ret r
                    | None \<Rightarrow> io_bind (io_lift (endpoint_new (JStr (ab_last_hostname entry)) (ab_transfer_port entry)))
                                (service_connect e dl1 dl2 io)) (\<lambda>r.
           io_bind (io_lift (ensure (AuthenticationError ''Peer authentication failed'') (cr_state r = Authenticated))) (\<lambda>_ s.
           (Inr \<lparr>br_peer_ip = cr_resolved_ip r, br_paths = paths, br_message = msg, br_port = ab_transfer_port entry\<rparr>,
            s\<lparr>sv_resolved := dict_set (cr_resolved_ip r)
                \<lparr>rp_device_id = did, rp_public_key = td_public_key peer, rp_trust_status = TRUSTED,
                 rp_hostname = ab_last_hostname entry\<rparr> (sv_resolved s)\<rparr>))) s
       | _ \<Rightarrow> (Inl (AuthenticationError ''Peer is not trusted''), s))"

section \<open>The peer of a sending worker\<close>

definition resolve_peer :: "service \<Rightarrow> string \<Rightarrow> resolved_peer option" where
  "resolve_peer s ip =
     (case dict_get (sv_resolved s) ip of
        Some r \<Rightarrow> Some r
      | None \<Rightarrow> map_option (\<lambda>e. \<lparr>rp_device_id = ab_device_id e, rp_public_key = ab_public_key e,
                                  rp_trust_status = TRUSTED, rp_hostname = ab_friendly_name e\<rparr>) (book_get (sv_book s) ip))"

text \<open>\<open>_assert_peer_protocol\<close>: the resolved peers of this service always carry version 3.\<close>

definition assert_peer_protocol :: "service \<Rightarrow> string \<Rightarrow> unit result" where
  "assert_peer_protocol s ip =
     (case resolve_peer s ip of
        None \<Rightarrow> Inl (AuthenticationError ''Peer identity is unavailable'')
      | Some _ \<Rightarrow> Inr ())"

definition resolve_trusted_peer :: "service \<Rightarrow> string \<Rightarrow> trusted_device result" where
  "resolve_trusted_peer s ip =
     (case resolve_peer s ip of
        None \<Rightarrow> Inl (AuthenticationError ''Peer is not trusted'')
      | Some r \<Rightarrow>
          if rp_device_id r = [] \<or> rp_public_key r = [] \<or> rp_trust_status r \<noteq> TRUSTED
          then Inl (AuthenticationError ''Peer is not trusted'')
          else (case trust_get (sv_trust s) (rp_device_id r) of
                  None \<Rightarrow> Inl (AuthenticationError ''Wrong peer identity'')
                | Some peer \<Rightarrow> if td_public_key peer \<noteq> rp_public_key r
                                then Inl (AuthenticationError ''Wrong peer identity'') else Inr peer))"

section \<open>What each operation leaves alone\<close>

lemma friendly_is_direct: "\<exists>m. friendly_error x = DirectConnectionError m"
  by (cases x) (auto simp: friendly_error_def)

lemma on_book_frame [simp]:
  "sv_trust (snd (on_book f s)) = sv_trust s" "sv_pairings (snd (on_book f s)) = sv_pairings s"
  "sv_outbound (snd (on_book f s)) = sv_outbound s" "sv_book (snd (on_book f s)) = snd (f (sv_book s))"
  "fst (on_book f s) = fst (f (sv_book s))"
  by (simp_all add: on_book_def prod.case_eq_if)

lemma on_trust_frame [simp]:
  "sv_book (snd (on_trust f s)) = sv_book s" "sv_pairings (snd (on_trust f s)) = sv_pairings s"
  "sv_outbound (snd (on_trust f s)) = sv_outbound s" "sv_trust (snd (on_trust f s)) = snd (f (sv_trust s))"
  "sv_resolved (snd (on_trust f s)) = sv_resolved s" "fst (on_trust f s) = fst (f (sv_trust s))"
  by (simp_all add: on_trust_def prod.case_eq_if)

lemma pair_frame:
  "sv_trust (snd (service_pair e dl t s)) = sv_trust s" "sv_book (snd (service_pair e dl t s)) = sv_book s"
  "sv_pairings (snd (service_pair e dl t s)) = sv_pairings s"
  by (simp_all add: service_pair_def split: sum.split prod.split)

lemma finish_frame:
  "sv_trust (snd (finish_connect e dl io r p s)) = sv_trust s"
  "sv_pairings (snd (finish_connect e dl io r p s)) = sv_pairings s"
  "sv_outbound (snd (finish_connect e dl io r p s)) = sv_outbound s"
  by (auto simp: finish_connect_def Let_def io_bind_def on_book_def split: sum.splits prod.splits)

text \<open>Connecting after a pairing that was answered.\<close>

lemma connect_cases:
  obtains (failed) x where "service_connect e dl1 dl2 io t s = (Inl x, snd (service_pair e dl1 t s))"
  | (paired) r s1 where "service_pair e dl1 t s = (Inr r, s1)" "service_connect e dl1 dl2 io t s = (Inr r, s1)"
      "cr_state r \<noteq> Identity_changed"
  | (checked) r s1 peer where "service_pair e dl1 t s = (Inr r, s1)" "cr_state r \<noteq> Identity_changed"
      "trusted (sv_trust s) (pr_device_id (cr_identity r)) (pr_public_key (cr_identity r))"
      "trust_get (sv_trust s) (pr_device_id (cr_identity r)) = Some peer"
      "service_connect e dl1 dl2 io t s = finish_connect e dl2 io r peer s1"
proof (cases "service_pair e dl1 t s")
  case (Pair q s1)
  have s1: "sv_trust s1 = sv_trust s" using pair_frame(1) [of e dl1 t s] Pair by simp
  show ?thesis
  proof (cases q)
    case (Inl x)
    then show ?thesis using Pair failed by (simp add: service_connect_def io_bind_def)
  next
    case (Inr r)
    let ?p = "cr_identity r"
    show ?thesis
    proof (cases "cr_state r = Identity_changed")
      case True
      then show ?thesis using Pair Inr failed by (simp add: service_connect_def io_bind_def)
    next
      case False
      note run = Pair Inr False s1
      show ?thesis
      proof (cases "assess (sv_trust s) (Some (pr_device_id ?p)) (Some (pr_public_key ?p))")
        case (Inl x)
        then show ?thesis using run failed by (simp add: service_connect_def io_bind_def Let_def)
      next
        case st: (Inr st)
        show ?thesis
        proof (cases "st = TRUSTED")
          case True
          then have tr: "trusted (sv_trust s) (pr_device_id ?p) (pr_public_key ?p)" using st by (simp add: trusted_def)
          then obtain peer where "trust_get (sv_trust s) (pr_device_id ?p) = Some peer"
            by (auto simp: trusted_iff trust_get_def)
          with tr True st run show ?thesis
            by (intro checked) (simp_all add: service_connect_def io_bind_def Let_def)
        next
          case False
          then show ?thesis using st run by (intro paired) (simp_all add: service_connect_def io_bind_def Let_def)
        qed
      qed
    qed
  qed
qed

lemma connect_frame:
  "sv_trust (snd (service_connect e dl1 dl2 io t s)) = sv_trust s"
  "sv_pairings (snd (service_connect e dl1 dl2 io t s)) = sv_pairings s"
  "sv_outbound (snd (service_connect e dl1 dl2 io t s)) = sv_outbound (snd (service_pair e dl1 t s))"
  using pair_frame [of e dl1 t s]
  by (cases rule: connect_cases [of e dl1 dl2 io t s]; simp add: finish_frame)+

text \<open>A connection is reported as authenticated only after a handshake with the trusted record.\<close>

lemma connect_authenticated:
  assumes "service_connect e dl1 dl2 io t s = (Inr r, s')" "cr_state r = Authenticated"
  obtains peer where "trust_get (sv_trust s) (pr_device_id (cr_identity r)) = Some peer"
    "trusted (sv_trust s) (pr_device_id (cr_identity r)) (pr_public_key (cr_identity r))"
    "authenticate e dl2 peer = Inr (cr_resolved_ip r)"
proof (cases rule: connect_cases [of e dl1 dl2 io t s])
  case (failed x)
  then show ?thesis using assms by simp
next
  case (paired r' s1)
  have "cr_state r' \<noteq> Authenticated"
    using paired(1) by (auto simp: service_pair_def pair_state_def split: sum.splits prod.splits if_splits)
  then show ?thesis using paired assms by simp
next
  case (checked r' s1 peer)
  from checked(5) assms(1) have "finish_connect e dl2 io r' peer s1 = (Inr r, s')" by simp
  then obtain ip where "authenticate e dl2 peer = Inr ip" "r = r'\<lparr>cr_resolved_ip := ip, cr_state := Authenticated\<rparr>"
    by (auto simp: finish_connect_def Let_def io_bind_Inr split: sum.splits if_splits)
  with checked that show ?thesis by simp
qed

section \<open>Commands of the service\<close>

text \<open>\<open>Offer\<close> is the callback of the listener; an endpoint exists only once its constructor has accepted it.\<close>

datatype service_cmd =
    Pair_with dial endpoint
  | Connect_to dial dial bool endpoint
  | Decide bool bool time time string "string option"
  | Dismiss string
  | Forget_device bool bool string
  | Send dial dial bool target "string list" "string option"
  | Offer time time pairing_identity

fun service_step :: "service_env \<Rightarrow> service_cmd \<Rightarrow> service \<Rightarrow> service" where
  "service_step e (Pair_with dl t) s = (if endpoint_ok t then snd (service_pair e dl t s) else s)"
| "service_step e (Connect_to dl1 dl2 io t) s = (if endpoint_ok t then snd (service_connect e dl1 dl2 io t s) else s)"
| "service_step e (Decide io1 io2 clk now did name) s = snd (service_trust e io1 io2 clk now did name s)"
| "service_step e (Dismiss did) s = snd (dismiss_pairing did s)"
| "service_step e (Forget_device io1 io2 did) s = snd (forget_device io1 io2 did s)"
| "service_step e (Send dl1 dl2 io t paths msg) s =
     (if \<forall>ep. t = At_endpoint ep \<longrightarrow> endpoint_ok ep then snd (service_send e dl1 dl2 io t paths msg s) else s)"
| "service_step e (Offer clk stamp p) s = snd (publish_pairing clk stamp p s)"

section \<open>Sending changes no trust\<close>

lemma first_connection_trust: "sv_trust (snd (first_connection e dl1 dl2 io t s)) = sv_trust s"
proof -
  have via: "sv_trust (snd (io_bind (service_connect e dl1 dl2 io ep) (\<lambda>r.
      io_bind (io_lift (approved r)) (\<lambda>_. io_ret (pr_device_id (cr_identity r), Some r))) s)) = sv_trust s" for ep
    using connect_frame(1) [of e dl1 dl2 io ep s]
    by (auto simp: io_bind_def split: prod.split sum.split)
  then show ?thesis
    by (cases t) (auto simp: first_connection_def Let_def io_bind_def split: sum.split)
qed

lemma service_send_trust: "sv_trust (snd (service_send e dl1 dl2 io t paths msg s)) = sv_trust s"
proof -
  obtain q s1 where first: "first_connection e dl1 dl2 io t s = (q, s1)" by force
  then have s1: "sv_trust s1 = sv_trust s" using first_connection_trust [of e dl1 dl2 io t s] by simp
  show ?thesis
  proof (cases q)
    case (Inr dc)
    obtain did conn where dc: "dc = (did, conn)" by force
    have rest: "sv_trust (snd (service_connect e dl1 dl2 io ep s1)) = sv_trust s" for ep
      using connect_frame(1) [of e dl1 dl2 io ep s1] s1 by simp
    show ?thesis
      using s1 rest
      by (auto simp: service_send_def io_bind_def first Inr dc split: option.split sum.split prod.split)
         (metis snd_conv)+
  qed (use first s1 in \<open>simp add: service_send_def io_bind_def\<close>)
qed

section \<open>Trust needs a decision about a key that was shown\<close>

text \<open>The key the program holds for a decision about this device, from an outgoing pairing or a request.\<close>

definition key_shown :: "service \<Rightarrow> string \<Rightarrow> string \<Rightarrow> bool" where
  "key_shown s did key \<longleftrightarrow>
     (\<exists>p ep. dict_get (sv_outbound s) did = Some (p, ep) \<and> pr_public_key p = key)
     \<or> (\<exists>clk p. fst (pairing_get clk did (sv_pairings s)) = Some p \<and> pr_public_key p = key)"

fun decides :: "service_cmd \<Rightarrow> string \<Rightarrow> bool" where
  "decides (Decide _ _ _ _ d _) did \<longleftrightarrow> d = did"
| "decides _ did \<longleftrightarrow> False"

lemma decided_shown:
  "decided_identity clk did s = (Inr (p, ep), s1) \<Longrightarrow> key_shown s did (pr_public_key p) \<and> sv_trust s1 = sv_trust s"
proof (cases "dict_get (sv_outbound s) did")
  case (Some q)
  then show "decided_identity clk did s = (Inr (p, ep), s1) \<Longrightarrow> key_shown s did (pr_public_key p) \<and> sv_trust s1 = sv_trust s"
    by (auto simp: decided_identity_def key_shown_def)
next
  case None
  assume d: "decided_identity clk did s = (Inr (p, ep), s1)"
  obtain q b where get: "pairing_get clk did (sv_pairings s) = (q, b)" by force
  with d None have "q = Some p" "sv_trust s1 = sv_trust s"
    by (auto simp: decided_identity_def split: option.splits)
  with get show "key_shown s did (pr_public_key p) \<and> sv_trust s1 = sv_trust s"
    unfolding key_shown_def by (metis fst_conv)
qed

lemma decided_frame: "sv_trust (snd (decided_identity clk did s)) = sv_trust s"
  by (auto simp: decided_identity_def split: option.splits prod.splits)

lemma bind_book_trust:
  assumes "\<And>x t. sv_trust (snd (k x t)) = sv_trust t"
  shows "sv_trust (snd (io_bind (on_book f) k s)) = sv_trust s"
proof (cases "f (sv_book s)")
  case (Pair r b)
  then show ?thesis using assms by (cases r) (simp_all add: io_bind_def on_book_def)
qed

lemma bind_trust:
  assumes "\<And>x t. sv_trust (snd (k x t)) = sv_trust t"
  shows "sv_trust (snd (io_bind (on_trust f) k s)) = snd (f (sv_trust s))"
proof (cases "f (sv_trust s)")
  case (Pair r t)
  then show ?thesis using assms by (cases r) (simp_all add: io_bind_def on_trust_def)
qed

lemma service_trust_store:
  "sv_trust (snd (service_trust e io1 io2 clk now did name s)) =
     (case fst (decided_identity clk did s) of
        Inl _ \<Rightarrow> sv_trust s
      | Inr (p, ep) \<Rightarrow> snd (trust_device (se_primitives e) io1 now (sv_trust s) did (decision_name name ep) (pr_public_key p) None))"
proof -
  obtain q s1 where q: "decided_identity clk did s = (q, s1)" by force
  then have s1: "sv_trust s1 = sv_trust s" using decided_frame [of clk did s] by simp
  show ?thesis
  proof (cases q)
    case (Inr pe)
    obtain p ep where pe: "pe = (p, ep)" by force
    let ?store = "on_trust (\<lambda>t. trust_device (se_primitives e) io1 now t did (decision_name name ep) (pr_public_key p) None)"
    have "sv_trust (snd (service_trust e io1 io2 clk now did name s)) = sv_trust (snd (io_bind ?store (\<lambda>rec.
        let entry = new_contact did (decision_name name ep) rec ep (pr_peer_ip p) in
        io_bind (on_book (\<lambda>b. book_put (se_primitives e) io2 b entry)) (\<lambda>_ s.
        (Inr entry,
         s\<lparr>sv_pairings := snd (pairing_remove did (sv_pairings s)),
           sv_resolved := dict_set (pr_peer_ip p)
             \<lparr>rp_device_id = did, rp_public_key = pr_public_key p, rp_trust_status = TRUSTED, rp_hostname = host ep\<rparr>
             (sv_resolved s),
           sv_events := sv_events s @ [Peer_state_changed did]\<rparr>))) s1))"
      by (simp add: service_trust_def io_bind_def [of "decided_identity clk did"] q Inr pe)
    also have "\<dots> = snd (trust_device (se_primitives e) io1 now (sv_trust s1) did (decision_name name ep) (pr_public_key p) None)"
      unfolding Let_def by (intro bind_trust bind_book_trust) simp
    finally show ?thesis by (simp add: q Inr pe s1)
  qed (use q s1 in \<open>simp add: service_trust_def io_bind_def\<close>)
qed

lemma step_trust:
  assumes "trusted (sv_trust (service_step e cmd s)) did key"
  shows "trusted (sv_trust s) did key \<or> decides cmd did \<and> key_shown s did key"
proof (cases cmd)
  case (Decide io1 io2 clk now d name)
  show ?thesis
  proof (cases "fst (decided_identity clk d s)")
    case (Inr pe)
    obtain p ep where pe: "pe = (p, ep)" by force
    obtain s1 where s1: "decided_identity clk d s = (Inr (p, ep), s1)" using Inr pe by (metis prod.collapse)
    have "trusted (snd (trust_device (se_primitives e) io1 now (sv_trust s) d (decision_name name ep) (pr_public_key p) None)) did key"
      using assms Decide Inr pe by (simp add: service_trust_store)
    then have "trusted (trust_step (se_primitives e) (Trust now d (decision_name name ep) (pr_public_key p) None, io1) (sv_trust s)) did key"
      by simp
    from trusted_step [OF this] show ?thesis using Decide decided_shown [OF s1] by auto
  qed (use assms Decide in \<open>simp add: service_trust_store\<close>)
next
  case (Dismiss d)
  then show ?thesis using assms by (simp add: dismiss_pairing_def note_change_def split: prod.splits if_splits)
next
  case (Forget_device io1 io2 d)
  have "sv_trust (snd (forget_device io1 io2 d s)) = snd (untrust io1 (sv_trust s) d)"
    by (auto simp: forget_device_def io_bind_def on_trust_def on_book_def note_change_def split: sum.split prod.split)
  then have "trusted (trust_step c (Untrust d, io1) (sv_trust s)) did key" for c using assms Forget_device by simp
  from trusted_step [OF this] show ?thesis by simp
next
  case (Offer clk stamp p)
  then show ?thesis using assms by (simp add: publish_pairing_def split: prod.splits sum.splits)
qed (use assms in \<open>auto simp: pair_frame connect_frame service_send_trust split: if_splits\<close>)

lemma run_trust:
  "trusted (sv_trust (fold (service_step e) cmds s)) did key \<Longrightarrow>
   trusted (sv_trust s) did key
   \<or> (\<exists>pre cmd post. cmds = pre @ cmd # post \<and> decides cmd did \<and> key_shown (fold (service_step e) pre s) did key)"
proof (induction cmds rule: rev_induct)
  case (snoc cmd cmds)
  then have "trusted (sv_trust (fold (service_step e) cmds s)) did key
      \<or> decides cmd did \<and> key_shown (fold (service_step e) cmds s) did key"
    using step_trust [of e cmd "fold (service_step e) cmds s" did key] by simp
  then show ?case
  proof
    assume "trusted (sv_trust (fold (service_step e) cmds s)) did key"
    from snoc.IH [OF this] show ?case by (metis append.assoc append_Cons)
  qed blast
qed simp

section \<open>Files go to the device that was addressed\<close>

lemma trust_record:
  assumes "trust_inv c t" "trust_get t did = Some peer"
  shows "td_device_id peer = did" "did \<noteq> []" "td_public_key peer \<noteq> []"
proof -
  have "device_ok c did peer" using assms by (simp add: trust_inv_def trust_get_def)
  then show "td_device_id peer = did" "did \<noteq> []" "td_public_key peer \<noteq> []"
    using key_bound_nonempty by (auto simp: device_ok_def)
qed

lemma first_connection_named:
  "starts_with ''mp-'' x \<Longrightarrow> first_connection e dl1 dl2 io (Named x) s = (Inr (x, None), s)"
  by (simp add: first_connection_def Let_def)

lemma session_names_peer:
  "client_handshake c fr ld priv nonce i peer cn = (Inr sess, cn') \<Longrightarrow> au_peer_device_id sess = td_device_id peer"
  by (erule client_session_sound)

lemma service_send_peer:
  assumes inv: "trust_inv c (sv_trust s)"
    and run: "service_send e dl1 dl2 io t paths msg s = (Inr req, s')"
  obtains did peer s1 conn where "first_connection e dl1 dl2 io t s = (Inr (did, conn), s1)"
    "trust_get (sv_trust s) did = Some peer" "td_device_id peer = did"
    "resolve_trusted_peer s' (br_peer_ip req) = Inr peer" "br_paths req = paths" "br_message req = msg"
proof -
  obtain did conn s1 where first: "first_connection e dl1 dl2 io t s = (Inr (did, conn), s1)"
    using run by (auto simp: service_send_def io_bind_Inr)
  have s1: "sv_trust s1 = sv_trust s" using first_connection_trust [of e dl1 dl2 io t s] first by simp
  obtain entry peer where found: "book_get (sv_book s1) did = Some entry" "trust_get (sv_trust s) did = Some peer"
    using run s1 by (auto simp: service_send_def io_bind_def first split: option.splits)
  obtain r :: connection_result and s2 :: service where r: "s' = s2\<lparr>sv_resolved := dict_set (cr_resolved_ip r)
      \<lparr>rp_device_id = did, rp_public_key = td_public_key peer, rp_trust_status = TRUSTED,
       rp_hostname = ab_last_hostname entry\<rparr> (sv_resolved s2)\<rparr>"
    "req = \<lparr>br_peer_ip = cr_resolved_ip r, br_paths = paths, br_message = msg, br_port = ab_transfer_port entry\<rparr>"
    using run found s1 by (auto simp: service_send_def io_bind_def first split: prod.splits sum.splits option.splits)
  have "sv_trust s' = sv_trust s" using service_send_trust [of e dl1 dl2 io t paths msg s] run by simp
  then have "resolve_trusted_peer s' (cr_resolved_ip r) = Inr peer"
    using found(2) trust_record [OF inv found(2)] by (simp add: r(1) resolve_trusted_peer_def resolve_peer_def)
  then show thesis using that first found trust_record(1) [OF inv found(2)] r(2) by simp
qed

section \<open>Forgetting\<close>

lemma forget_takes_effect:
  assumes "trust_inv c (sv_trust s)" "forget_device io1 io2 did s = (Inr b, s')"
  shows "\<not> trusted (sv_trust s') did key \<and> book_get (sv_book s') did = None
    \<and> (resolve_trusted_peer s' ip = Inr peer \<longrightarrow> td_device_id peer \<noteq> did)"
proof -
  from assms(2) obtain t bk where t: "untrust io1 (sv_trust s) did = (Inr b, t)" and "sv_trust s' = t"
    and bk: "\<exists>x. forget_entry io2 (sv_book s) did = (Inr x, bk)" and "sv_book s' = bk"
    by (auto simp: forget_device_def io_bind_Inr on_trust_def on_book_def note_change_def split: prod.splits if_splits)
  have inv: "trust_inv c t" using trust_step_inv [OF assms(1), of "(Untrust did, io1)"] t by simp
  have gone: "trust_get t did = None" using t
    by (auto simp: untrust_def trust_get_def trust_save_def split: if_splits prod.splits)
  have "\<not> trusted t did key" using gone by (auto simp: trusted_iff trust_get_def)
  moreover have "book_get bk did = None" using bk
    by (auto simp: forget_entry_def book_get_def book_save_def split: if_splits prod.splits)
  moreover have "td_device_id peer \<noteq> did" if res: "resolve_trusted_peer s' ip = Inr peer"
  proof -
    obtain r :: resolved_peer where "trust_get t (rp_device_id r) = Some peer"
      using res \<open>sv_trust s' = t\<close> by (auto simp: resolve_trusted_peer_def split: option.splits if_splits)
    with trust_record(1) [OF inv this] gone show ?thesis by auto
  qed
  ultimately show ?thesis using \<open>sv_trust s' = t\<close> \<open>sv_book s' = bk\<close> by simp
qed

text \<open>
  A trusted device without a contact, which a failed save or a refused name leaves behind, cannot be
  connected to: the handshake succeeds and recording the success raises.
\<close>

lemma contactless_connect:
  assumes "service_pair e dl1 t s = (Inr r, s1)" "cr_state r \<noteq> Identity_changed"
    and "trusted (sv_trust s) (pr_device_id (cr_identity r)) (pr_public_key (cr_identity r))"
    and "\<And>peer. trust_get (sv_trust s) (pr_device_id (cr_identity r)) = Some peer \<Longrightarrow> \<exists>ip. authenticate e dl2 peer = Inr ip"
    and "book_get (sv_book s) (pr_device_id (cr_identity r)) = None"
  shows "fst (service_connect e dl1 dl2 io t s) = Inl (KeyError (pr_device_id (cr_identity r)))"
proof -
  have s1: "sv_trust s1 = sv_trust s" "sv_book s1 = sv_book s" using pair_frame [of e dl1 t s] assms(1) by auto
  obtain peer where peer: "trust_get (sv_trust s) (pr_device_id (cr_identity r)) = Some peer"
    using assms(3) by (auto simp: trusted_iff trust_get_def)
  with assms(4) obtain ip where ip: "authenticate e dl2 peer = Inr ip" by blast
  show ?thesis
    using assms(1,2,3,5) s1 peer ip
    by (simp add: service_connect_def io_bind_def Let_def trusted_def finish_connect_def on_book_def
        record_success_def book_get_def)
qed

end
