(* ===== verification/ServiceInv.thy ===== *)
theory ServiceInv
  imports Service
begin

text \<open>
  The invariant of the service as a whole (\<open>core/service.py\<close>): the trust store, the contacts, the requests and the
  outgoing pairings all keep identifiers together with the keys they are derived from, over any
  sequence of commands of the user and of the listener.
\<close>

section \<open>Invariant\<close>

definition outbound_ok :: "crypto \<Rightarrow> service \<Rightarrow> bool" where
  "outbound_ok c s \<longleftrightarrow>
     (\<forall>did p ep. dict_get (sv_outbound s) did = Some (p, ep) \<longrightarrow>
        pr_device_id p = did \<and> key_bound c did (pr_public_key p) \<and> endpoint_ok ep)"

definition service_inv :: "crypto \<Rightarrow> service \<Rightarrow> bool" where
  "service_inv c s \<longleftrightarrow>
     trust_inv c (sv_trust s) \<and> book_inv c (sv_book s) \<and> pairing_inv (sv_pairings s) \<and> outbound_ok c s"

definition keeps_inv :: "crypto \<Rightarrow> service \<Rightarrow> service \<Rightarrow> bool" where
  "keeps_inv c s t \<longleftrightarrow> (service_inv c s \<longrightarrow> service_inv c t)"

interpretation kept: state_preorder "keeps_inv c"
  by unfold_locales (auto simp: keeps_inv_def)

lemmas kept_runs = kept.runs_ret kept.runs_lift kept.runs_bind

lemma keeps_book:
  "(\<And>b. book_inv c b \<Longrightarrow> book_inv c (snd (f b))) \<Longrightarrow> all_runs (keeps_inv c) (on_book f)"
  by (auto simp: all_runs_def keeps_inv_def service_inv_def outbound_ok_def)

lemma keeps_trust:
  "(\<And>t. trust_inv c t \<Longrightarrow> trust_inv c (snd (f t))) \<Longrightarrow> all_runs (keeps_inv c) (on_trust f)"
  by (auto simp: all_runs_def keeps_inv_def service_inv_def outbound_ok_def)

lemma keeps_error: "all_runs (keeps_inv c) (on_book (\<lambda>b. record_error io b did m))"
  by (rule keeps_book) (use book_step_inv [of c _ "(Failure did m, io)"] in simp)

lemma keeps_success:
  assumes "endpoint_ok ep"
  shows "all_runs (keeps_inv c) (on_book (\<lambda>b. record_success io now b did ep ip))"
proof (rule keeps_book)
  have "endpoint_new (JStr (host ep)) (JInt (port ep)) = Inr ep" using assms by (simp add: endpoint_new_eq)
  then show "book_inv c b \<Longrightarrow> book_inv c (snd (record_success io now b did ep ip))" for b
    using book_step_inv [of c b "(Success now did (JStr (host ep)) (JInt (port ep)) ip, io)"] by simp
qed

lemma keeps_put: "all_runs (keeps_inv c) (on_book (\<lambda>b. book_put c io b entry))"
  by (rule keeps_book) (use book_step_inv [of c _ "(Put entry, io)"] in simp)

lemma keeps_forget: "all_runs (keeps_inv c) (on_book (\<lambda>b. forget_entry io b did))"
  by (rule keeps_book) (use book_step_inv [of c _ "(Forget did, io)"] in simp)

section \<open>Every operation keeps it\<close>

text \<open>What a pairing that was answered changes.\<close>

lemma pair_result:
  assumes "service_pair e dl t s = (Inr r, s1)"
  obtains addr :: resolved_address and st where "key_bound (se_primitives e) (pr_device_id (cr_identity r)) (pr_public_key (cr_identity r))"
    "cr_endpoint r = t"
    "s1 = s\<lparr>sv_outbound := dict_set (pr_device_id (cr_identity r)) (cr_identity r, t) (sv_outbound s),
            sv_resolved := dict_set (fst (ra_address addr))
              \<lparr>rp_device_id = pr_device_id (cr_identity r), rp_public_key = pr_public_key (cr_identity r),
               rp_trust_status = st, rp_hostname = host t\<rparr> (sv_resolved s)\<rparr>"
proof -
  obtain cn addr p where op: "open_connection dl = Inr (cn, addr)"
    and cp: "fst (client_pair (se_primitives e) (se_floats e) (se_parser e) (dl_nonce dl) (dl_now dl)
               (se_identity e) (fst (ra_address addr)) (se_port e) cn) = Inr p"
    using assms by (auto simp: service_pair_def split: sum.splits)
  obtain st where st: "assess (sv_trust s) (Some (pr_device_id p)) (Some (pr_public_key p)) = Inr st"
    using assms by (auto simp: service_pair_def op cp split: sum.splits)
  from cp obtain cn' where "client_pair (se_primitives e) (se_floats e) (se_parser e) (dl_nonce dl) (dl_now dl)
      (se_identity e) (fst (ra_address addr)) (se_port e) cn = (Inr p, cn')"
    by (metis prod.collapse)
  from client_pair_sound [OF this] assms show thesis
    by (intro that [of addr st]) (auto simp: service_pair_def op cp st)
qed

lemma pair_failed: "service_pair e dl t s = (Inl x, s1) \<Longrightarrow> s1 = s"
  by (auto simp: service_pair_def split: sum.splits)

lemma pair_keeps:
  assumes "endpoint_ok t"
  shows "all_runs (keeps_inv (se_primitives e)) (service_pair e dl t)"
proof (rule all_runsI)
  fix s
  obtain q s1 where run: "service_pair e dl t s = (q, s1)" by force
  show "keeps_inv (se_primitives e) s (snd (service_pair e dl t s))"
  proof (cases q)
    case (Inl x)
    then have "s1 = s" using run by (auto intro: pair_failed)
    then show ?thesis using run kept.refl by simp
  next
    case (Inr r)
    with run have "service_pair e dl t s = (Inr r, s1)" by simp
    then show ?thesis
      by (rule pair_result) (use assms run in \<open>auto simp: keeps_inv_def service_inv_def outbound_ok_def\<close>)
  qed
qed

lemma finish_keeps:
  assumes "endpoint_ok (cr_endpoint r)"
  shows "all_runs (keeps_inv c) (finish_connect e dl io r peer)"
  unfolding finish_connect_def Let_def
  by (auto split: sum.split intro!: kept_runs keeps_error keeps_success assms)

lemma connect_keeps:
  assumes "endpoint_ok t"
  shows "all_runs (keeps_inv (se_primitives e)) (service_connect e dl1 dl2 io t)"
proof (rule all_runsI)
  fix s
  have pair: "keeps_inv (se_primitives e) s (snd (service_pair e dl1 t s))"
    using pair_keeps [OF assms] by (simp add: all_runs_def)
  show "keeps_inv (se_primitives e) s (snd (service_connect e dl1 dl2 io t s))"
  proof (cases rule: connect_cases [of e dl1 dl2 io t s])
    case (checked r s1 peer)
    have "keeps_inv (se_primitives e) s1 (snd (finish_connect e dl2 io r peer s1))"
      using finish_keeps [of r] assms checked(1) by (auto simp: all_runs_def elim: pair_result)
    then show ?thesis using pair checked by (auto intro: kept.trans)
  qed (use pair in auto)
qed

lemma decided_keeps: "all_runs (keeps_inv c) (decided_identity now did)"
proof (rule all_runsI)
  fix s
  show "keeps_inv c s (snd (decided_identity now did s))"
    by (auto simp: keeps_inv_def service_inv_def outbound_ok_def decided_identity_def pairing_get_def Let_def
        pairing_prune_inv split: option.split)
qed

lemma decide_keeps: "all_runs (keeps_inv (se_primitives e)) (service_trust e io1 io2 clk now did name)"
proof -
  let ?c = "se_primitives e"
  have decide: "all_runs (keeps_inv ?c) (on_trust (\<lambda>t. trust_device ?c io1 now t did n key None))" for n key
    by (rule keeps_trust) (use trust_step_inv [of ?c _ "(Trust now did n key None, io1)"] in simp)
  have close: "all_runs (keeps_inv ?c) (\<lambda>s. (Inr entry, s\<lparr>sv_pairings := snd (pairing_remove did (sv_pairings s)),
      sv_resolved := f s, sv_events := g s\<rparr>))" for entry f g
    by (auto simp: all_runs_def keeps_inv_def service_inv_def outbound_ok_def pairing_remove_inv)
  show ?thesis
    unfolding service_trust_def Let_def
  proof (rule kept.runs_bind [OF decided_keeps])
    fix x :: "pairing_identity \<times> endpoint"
    show "all_runs (keeps_inv ?c) (case x of (p, ep) \<Rightarrow>
        io_bind (on_trust (\<lambda>t. trust_device ?c io1 now t did (decision_name name ep) (pr_public_key p) None)) (\<lambda>rec.
        io_bind (on_book (\<lambda>b. book_put ?c io2 b (new_contact did (decision_name name ep) rec ep (pr_peer_ip p)))) (\<lambda>_ s.
        (Inr (new_contact did (decision_name name ep) rec ep (pr_peer_ip p)),
         s\<lparr>sv_pairings := snd (pairing_remove did (sv_pairings s)),
           sv_resolved := dict_set (pr_peer_ip p)
             \<lparr>rp_device_id = did, rp_public_key = pr_public_key p, rp_trust_status = TRUSTED, rp_hostname = host ep\<rparr>
             (sv_resolved s),
           sv_events := sv_events s @ [Peer_state_changed did]\<rparr>))))"
      unfolding prod.case_eq_if by (intro kept.runs_bind decide keeps_put close)
  qed
qed

lemma note_inv: "service_inv c (note_change did b t) = service_inv c t"
  by (simp add: note_change_def service_inv_def outbound_ok_def)

lemma forget_keeps: "all_runs (keeps_inv c) (forget_device io1 io2 did)"
proof -
  have gone: "all_runs (keeps_inv c) (on_trust (\<lambda>t. untrust io1 t did))"
    by (rule keeps_trust) (use trust_step_inv [of c _ "(Untrust did, io1)"] in simp)
  have noted: "all_runs (keeps_inv c) (\<lambda>s. (Inr x, note_change did x s))" for x
    by (simp add: all_runs_def keeps_inv_def note_inv)
  show ?thesis
    unfolding forget_device_def by (intro kept.runs_bind gone keeps_forget noted)
qed

lemma first_keeps:
  assumes "\<And>ep. t = At_endpoint ep \<Longrightarrow> endpoint_ok ep"
  shows "keeps_inv (se_primitives e) s (snd (first_connection e dl1 dl2 io t s))"
proof -
  have via: "all_runs (keeps_inv (se_primitives e)) (io_bind (service_connect e dl1 dl2 io ep) (\<lambda>r.
      io_bind (io_lift (approved r)) (\<lambda>_. io_ret (pr_device_id (cr_identity r), Some r))))" if "endpoint_ok ep" for ep
    using that by (intro kept_runs connect_keeps)
  show ?thesis
  proof (cases t)
    case (At_endpoint ep)
    then show ?thesis using via [OF assms] by (simp add: first_connection_def Let_def all_runs_def)
  next
    case (Named x)
    show ?thesis
    proof (cases "endpoint_parse x TRANSFER_PORT")
      case (Inr ep)
      then show ?thesis
        using Named via [OF endpoint_parse_ok [OF Inr]]
        by (simp add: first_connection_def Let_def all_runs_def io_bind_def [of "io_lift _"] kept.refl)
    qed (simp add: Named first_connection_def Let_def io_bind_def kept.refl)
  qed
qed

lemma send_keeps:
  assumes "\<And>ep. t = At_endpoint ep \<Longrightarrow> endpoint_ok ep"
  shows "keeps_inv (se_primitives e) s (snd (service_send e dl1 dl2 io t paths msg s))"
proof -
  obtain q s1 where first: "first_connection e dl1 dl2 io t s = (q, s1)" by force
  then have s1: "keeps_inv (se_primitives e) s s1" using first_keeps [OF assms, where e = e and s = s] by (metis snd_conv)
  show ?thesis
  proof (cases q)
    case (Inr dc)
    obtain did conn where dc: "dc = (did, conn)" by force
    have again: "all_runs (keeps_inv (se_primitives e)) (io_bind (io_lift (endpoint_new hv pv)) (service_connect e dl1 dl2 io))"
      for hv pv
    proof (cases "endpoint_new hv pv")
      case (Inr ep)
      then show ?thesis
        using connect_keeps [OF endpoint_new_ok [OF Inr]] by (simp add: all_runs_def io_bind_def)
    qed (simp add: all_runs_def io_bind_def kept.refl)
    have finish: "all_runs (keeps_inv c) (\<lambda>s. (Inr x, s\<lparr>sv_resolved := f s\<rparr>))" for c and x :: batch_request and f
      by (simp add: all_runs_def keeps_inv_def service_inv_def outbound_ok_def)
    show ?thesis
    proof (cases "book_get (sv_book s1) did = None \<or> trust_get (sv_trust s1) did = None")
      case False
      then obtain entry peer where found: "book_get (sv_book s1) did = Some entry" "trust_get (sv_trust s1) did = Some peer"
        by (cases "book_get (sv_book s1) did"; cases "trust_get (sv_trust s1) did") simp_all
      let ?conn = "case conn of
          Some r \<Rightarrow> io_ret r
        | None \<Rightarrow> io_bind (io_lift (endpoint_new (JStr (ab_last_hostname entry)) (ab_transfer_port entry)))
                    (service_connect e dl1 dl2 io)"
      have "all_runs (keeps_inv (se_primitives e)) ?conn"
        by (auto split: option.split intro: kept.runs_ret again)
      then have "all_runs (keeps_inv (se_primitives e)) (io_bind ?conn (\<lambda>r.
          io_bind (io_lift (ensure (AuthenticationError ''Peer authentication failed'') (cr_state r = Authenticated))) (\<lambda>_ s.
           (Inr \<lparr>br_peer_ip = cr_resolved_ip r, br_paths = paths, br_message = msg, br_port = ab_transfer_port entry\<rparr>,
            s\<lparr>sv_resolved := dict_set (cr_resolved_ip r)
                \<lparr>rp_device_id = did, rp_public_key = td_public_key peer, rp_trust_status = TRUSTED,
                 rp_hostname = ab_last_hostname entry\<rparr> (sv_resolved s)\<rparr>))))"
        by (intro kept_runs finish)
      then show ?thesis
        using s1 found by (auto simp: service_send_def io_bind_def [of "first_connection _ _ _ _ _"] first Inr dc all_runs_def
            intro: kept.trans)
    qed (use first s1 Inr dc in \<open>auto simp: service_send_def io_bind_def split: option.split\<close>)
  qed (use first s1 in \<open>simp add: service_send_def io_bind_def\<close>)
qed

lemma service_step_inv: "service_inv (se_primitives e) s \<Longrightarrow> service_inv (se_primitives e) (service_step e cmd s)"
proof -
  have "keeps_inv (se_primitives e) s (service_step e cmd s)"
  proof (cases cmd)
    case (Dismiss d)
    have "pairing_inv (sv_pairings s) \<Longrightarrow> pairing_inv (snd (pairing_reject d (sv_pairings s)))"
      using pairing_remove_inv [of "sv_pairings s" d] by (simp add: pairing_reject_def)
    then have "service_inv c s \<Longrightarrow> service_inv c (s\<lparr>sv_pairings := snd (pairing_reject d (sv_pairings s))\<rparr>)" for c
      by (simp add: service_inv_def outbound_ok_def)
    then show ?thesis using Dismiss by (simp add: dismiss_pairing_def keeps_inv_def note_inv prod.case_eq_if)
  next
    case (Offer clk stamp p)
    have "pairing_inv (sv_pairings s) \<Longrightarrow> pairing_inv (snd (pairing_publish clk stamp p (sv_pairings s)))"
      by (rule pairing_publish_inv)
    then show ?thesis using Offer
      by (auto simp: publish_pairing_def keeps_inv_def service_inv_def outbound_ok_def split: prod.split sum.split)
  next
    case (Send dl1 dl2 io t paths msg)
    then show ?thesis using send_keeps by (auto simp: kept.refl)
  qed (use pair_keeps connect_keeps decide_keeps forget_keeps in \<open>auto simp: all_runs_def kept.refl\<close>)
  then show "service_inv (se_primitives e) s \<Longrightarrow> service_inv (se_primitives e) (service_step e cmd s)"
    by (simp add: keeps_inv_def)
qed

interpretation service_machine: machine "service_step e" "service_inv (se_primitives e)"
  by unfold_locales (rule service_step_inv)

section \<open>What a decision achieves\<close>

lemma trust_device_result:
  assumes "trust_device c io now t did n key None = (Inr rec, t')"
  shows "trusted t' did key" "trust_get t' did = Some rec" "td_public_key rec = key" "key_bound c did key"
    "td_device_id rec = did"
proof -
  show b: "key_bound c did key"
    using assms by (auto simp: trust_device_def trust_validate_eq split: sum.splits)
  from trust_takes_effect [OF this, of io now t n None] assms show "trusted t' did key" by simp
  from assms show "trust_get t' did = Some rec" "td_public_key rec = key" "td_device_id rec = did"
    by (auto simp: trust_device_def trust_get_def trust_save_def Let_def split: sum.splits if_splits)
qed

lemma book_put_result: "book_put c io b entry = (Inr u, b') \<Longrightarrow> book_get b' (ab_device_id entry) = Some entry"
  by (auto simp: book_put_def book_get_def book_save_def split: sum.splits if_splits)

text \<open>What a decision about an identifier is about: the answer to an outgoing pairing, or else the request of the inbox.\<close>

definition decided_about :: "time \<Rightarrow> service \<Rightarrow> string \<Rightarrow> pairing_identity \<Rightarrow> endpoint \<Rightarrow> bool" where
  "decided_about clk s did p ep \<longleftrightarrow>
     (case dict_get (sv_outbound s) did of
        Some q \<Rightarrow> q = (p, ep)
      | None \<Rightarrow> fst (pairing_get clk did (sv_pairings s)) = Some p
                \<and> host ep = pr_peer_ip p \<and> port ep = pr_transfer_port p)"

lemma decided_identity_about: "decided_identity clk did s = (Inr (p, ep), s1) \<Longrightarrow> decided_about clk s did p ep"
  by (auto simp: decided_identity_def decided_about_def endpoint_new_eq bind_result_def
      split: option.splits prod.splits sum.splits)

lemma decision_complete:
  assumes "service_trust e io1 io2 clk now did name s = (Inr entry, s')"
  shows "\<exists>p ep peer. decided_about clk s did p ep \<and> trusted (sv_trust s') did (pr_public_key p)
    \<and> book_get (sv_book s') did = Some entry
    \<and> ab_public_key entry = pr_public_key p \<and> ab_last_hostname entry = host ep
    \<and> ab_transfer_port entry = JInt (port ep) \<and> ab_last_resolved_ip entry = Some (pr_peer_ip p)
    \<and> dict_get (pi_items (sv_pairings s')) did = None
    \<and> resolve_trusted_peer s' (pr_peer_ip p) = Inr peer \<and> td_device_id peer = did \<and> td_public_key peer = pr_public_key p"
proof -
  let ?store = "\<lambda>n p t. trust_device (se_primitives e) io1 now t did n (pr_public_key p) None"
  obtain p ep s1 where decided: "decided_identity clk did s = (Inr (p, ep), s1)"
    using assms by (auto simp: service_trust_def io_bind_Inr)
  let ?n = "decision_name name ep"
  obtain rec t where rec: "?store ?n p (sv_trust s1) = (Inr rec, t)"
    using assms by (auto simp: service_trust_def io_bind_def decided on_trust_def split: prod.splits sum.splits)
  obtain b where put: "book_put (se_primitives e) io2 (sv_book s1) (new_contact did ?n rec ep (pr_peer_ip p)) = (Inr (), b)"
    "entry = new_contact did ?n rec ep (pr_peer_ip p)"
    and s': "sv_trust s' = t" "sv_book s' = b" "sv_pairings s' = snd (pairing_remove did (sv_pairings s1))"
      "sv_resolved s' = dict_set (pr_peer_ip p)
        \<lparr>rp_device_id = did, rp_public_key = pr_public_key p, rp_trust_status = TRUSTED, rp_hostname = host ep\<rparr> (sv_resolved s1)"
    using assms
    by (auto simp: service_trust_def io_bind_def decided on_trust_def on_book_def rec Let_def split: prod.splits sum.splits)
  note r = trust_device_result [OF rec]
  have contact: "ab_device_id entry = did" "ab_public_key entry = pr_public_key p" "ab_last_hostname entry = host ep"
    "ab_transfer_port entry = JInt (port ep)" "ab_last_resolved_ip entry = Some (pr_peer_ip p)"
    using put(2) r(3) by (simp_all add: new_contact_def)
  have "resolve_trusted_peer s' (pr_peer_ip p) = Inr rec"
    using s' r key_bound_nonempty [OF r(4)] by (simp add: resolve_trusted_peer_def resolve_peer_def)
  moreover have "td_device_id rec = did" by (rule r(5))
  moreover have "dict_get (pi_items (sv_pairings s')) did = None" using s'(3) by (simp add: pairing_remove_def)
  moreover have "decided_about clk s did p ep" by (rule decided_identity_about [OF decided])
  moreover have "book_get b did = Some entry" using book_put_result [OF put(1)] put(2) by (simp add: new_contact_def)
  ultimately show ?thesis
    using r(1,3) s'(1,2) contact by (intro exI [of _ p] exI [of _ ep] exI [of _ rec] conjI) simp_all
qed

lemma decision_returns:
  assumes "decided_identity clk did s = (Inr (p, ep), s1)"
    and "trust_device (se_primitives e) io1 now (sv_trust s1) did (decision_name name ep) (pr_public_key p) None = (Inr rec, t)"
    and "book_put (se_primitives e) io2 (sv_book s1) (new_contact did (decision_name name ep) rec ep (pr_peer_ip p)) = (Inr u, b)"
  shows "\<exists>s'. service_trust e io1 io2 clk now did name s = (Inr (new_contact did (decision_name name ep) rec ep (pr_peer_ip p)), s')
    \<and> sv_trust s' = t"
  using assms by (simp add: service_trust_def io_bind_def on_trust_def on_book_def Let_def)

text \<open>A name the address book refuses: the trust is stored before the contact is checked, and stays.\<close>

lemma refused_name:
  assumes "decided_identity clk did s = (Inr (p, ep), s1)" "key_bound (se_primitives e) did (pr_public_key p)"
    and "\<not> friendly_name_ok (decision_name name ep)" "service_trust e True io2 clk now did name s = (r, s')"
  shows "(\<exists>x. r = Inl x) \<and> trusted (sv_trust s') did (pr_public_key p) \<and> sv_book s' = sv_book s"
proof -
  let ?n = "decision_name name ep"
  have frame: "sv_book s1 = sv_book s" using assms(1) by (auto simp: decided_identity_def split: option.splits prod.splits)
  have v: "trust_validate (se_primitives e) (JStr did) (JStr (pr_public_key p)) = Inr (did, pr_public_key p)"
    using assms(2) by (simp add: trust_validate_eq)
  obtain fp where "fingerprint_from_public_key (se_primitives e) (pr_public_key p) = Inr fp"
    using assms(2) by (auto simp: key_bound_def dest: device_id_from_decoded)
  then obtain rec t where rec: "trust_device (se_primitives e) True now (sv_trust s1) did ?n (pr_public_key p) None = (Inr rec, t)"
    by (simp add: trust_device_def v trust_save_def Let_def)
  have "validate_entry (se_primitives e) (entry_fields (new_contact did ?n rec ep (pr_peer_ip p))) \<noteq> Inr x" for x
    using assms(3) by (simp add: validate_entry_fields entry_bound_def new_contact_def)
  then obtain x where x: "validate_entry (se_primitives e) (entry_fields (new_contact did ?n rec ep (pr_peer_ip p))) = Inl x"
    by (metis sum.exhaust)
  have put: "book_put (se_primitives e) io2 b (new_contact did ?n rec ep (pr_peer_ip p)) = (Inl x, b)" for b
    by (simp add: book_put_def x)
  show ?thesis
    using assms(1,4) frame trust_device_result(1) [OF rec]
    by (auto simp: service_trust_def io_bind_def on_trust_def on_book_def rec Let_def put)
qed

end
