(* ===== verification/Screens.thy ===== *)
theory Screens
  imports ServiceInv
begin

text \<open>
  What the screens decide (\<open>tui/screens.py\<close>, \<open>tui/dashboard.py\<close>, \<open>tui/modals.py\<close>): which row a key press acts on,
  what the dialogs hand over, and which failures reach the user. A table of Textual is its row keys and
  its cursor row; where the cursor stands after \<open>DataTable.clear\<close> is an argument (\<open>cleared\<close>). Layout,
  headings and the text of cells are left out.
\<close>

section \<open>Model\<close>

record key_table =
  kt_rows :: "string list"
  kt_cursor :: nat

text \<open>The key of the row under the cursor, \<open>None\<close> for an empty table.\<close>

definition selected_key :: "key_table \<Rightarrow> string option" where
  "selected_key t = (if kt_rows t = [] then None else Some (kt_rows t ! kt_cursor t))"

section \<open>The screen of trusted devices\<close>

definition pending_key :: "string \<Rightarrow> string" where
  "pending_key did = ''pending:'' @ did"

definition shown_rows :: "time \<Rightarrow> service \<Rightarrow> string list \<times> service" where
  "shown_rows now s =
     (case pairing_all now (sv_pairings s) of
        (ps, b) \<Rightarrow> (map (pending_key \<circ> pr_device_id) ps @ map ab_device_id (book_all (sv_book s)), s\<lparr>sv_pairings := b\<rparr>))"

text \<open>\<open>refresh_rows\<close> rebuilds the table and puts the cursor back by its row number.\<close>

definition refresh_trusted :: "nat \<Rightarrow> time \<Rightarrow> key_table \<times> service \<Rightarrow> key_table \<times> service" where
  "refresh_trusted cleared now ts =
     (case shown_rows now (snd ts) of
        (rows, s) \<Rightarrow>
          (\<lparr>kt_rows = rows, kt_cursor = (if rows = [] then cleared else min (kt_cursor (fst ts)) (length rows - 1))\<rparr>, s))"

definition on_service :: "(service, 'a) io \<Rightarrow> (key_table \<times> service, 'a) io" where
  "on_service f ts = (case f (snd ts) of (r, s) \<Rightarrow> (r, (fst ts, s)))"

definition refreshing :: "nat \<Rightarrow> time \<Rightarrow> (key_table \<times> service, unit) io" where
  "refreshing cleared now ts = (Inr (), refresh_trusted cleared now ts)"

text \<open>The three actions. What a call of the service raises leaves the action, and with it the application.\<close>

definition action_approve ::
  "service_env \<Rightarrow> bool \<Rightarrow> bool \<Rightarrow> nat \<Rightarrow> time \<Rightarrow> time \<Rightarrow> time \<Rightarrow> (key_table \<times> service, unit) io" where
  "action_approve e io1 io2 cleared clk now later ts =
     (case selected_key (fst ts) of
        None \<Rightarrow> (Inr (), ts)
      | Some key \<Rightarrow>
          if \<not> starts_with ''pending:'' key then (Inr (), ts)
          else io_bind (on_service (service_trust e io1 io2 clk now (drop 8 key) None)) (\<lambda>_. refreshing cleared later) ts)"

definition action_reject_pairing :: "nat \<Rightarrow> time \<Rightarrow> (key_table \<times> service, unit) io" where
  "action_reject_pairing cleared later ts =
     (case selected_key (fst ts) of
        None \<Rightarrow> (Inr (), ts)
      | Some key \<Rightarrow>
          if \<not> starts_with ''pending:'' key then (Inr (), ts)
          else (case dismiss_pairing (drop 8 key) (snd ts) of
                  (removed, s) \<Rightarrow> if removed then refreshing cleared later (fst ts, s) else (Inr (), (fst ts, s))))"

definition action_forget :: "bool \<Rightarrow> bool \<Rightarrow> nat \<Rightarrow> time \<Rightarrow> (key_table \<times> service, unit) io" where
  "action_forget io1 io2 cleared later ts =
     (case selected_key (fst ts) of
        None \<Rightarrow> (Inr (), ts)
      | Some key \<Rightarrow>
          if starts_with ''pending:'' key then (Inr (), ts)
          else io_bind (on_service (forget_device io1 io2 key)) (\<lambda>removed.
               if removed then refreshing cleared later else io_ret ()) ts)"

section \<open>The inbox of offers\<close>

text \<open>Here \<open>refresh_rows\<close> leaves the cursor where \<open>clear\<close> puts it.\<close>

definition refresh_inbox :: "nat \<Rightarrow> request_manager \<Rightarrow> key_table" where
  "refresh_inbox cleared m = \<lparr>kt_rows = map rq_transfer_id (get_pending_requests m), kt_cursor = cleared\<rparr>"

definition decide_offer ::
  "nat \<Rightarrow> (string \<Rightarrow> request_manager \<Rightarrow> bool \<times> request_manager) \<Rightarrow> key_table \<times> request_manager \<Rightarrow> key_table \<times> request_manager" where
  "decide_offer cleared dec tm =
     (case selected_key (fst tm) of
        None \<Rightarrow> tm
      | Some tid \<Rightarrow>
          if tid = [] then tm
          else (case dec tid (snd tm) of
                  (done, m) \<Rightarrow> (if done then refresh_inbox cleared m else fst tm, m)))"

definition action_accept :: "nat \<Rightarrow> key_table \<times> request_manager \<Rightarrow> key_table \<times> request_manager" where
  "action_accept cleared = decide_offer cleared accept_request"

definition action_reject :: "nat \<Rightarrow> key_table \<times> request_manager \<Rightarrow> key_table \<times> request_manager" where
  "action_reject cleared = decide_offer cleared (\<lambda>tid. reject_request tid ''Rejected by user'')"

section \<open>Dialogs\<close>

text \<open>
  \<open>ConnectDialog\<close> and \<open>SendDialog\<close>: \<open>Inl\<close> is the message that keeps the dialog open, \<open>Inr\<close> what it is dismissed
  with.
\<close>

definition or_none :: "string \<Rightarrow> string option" where
  "or_none s = (if s = [] then None else Some s)"

definition connect_dialog :: "string \<Rightarrow> string \<Rightarrow> exn + endpoint \<times> string option" where
  "connect_dialog address name =
     (case endpoint_parse address TRANSFER_PORT of
        Inl x \<Rightarrow> Inl x
      | Inr ep \<Rightarrow> Inr (ep, or_none (strip name)))"

definition send_dialog :: "string \<Rightarrow> string \<Rightarrow> string + string \<times> string option" where
  "send_dialog file note =
     (if strip file = [] then Inl ''Choose a file to send'' else Inr (strip file, or_none (strip note)))"

section \<open>The dashboard\<close>

record dashboard =
  da_selected :: "string option"
  da_status :: string
  da_error :: bool
  da_asking :: "(connection_result \<times> string option) option"

definition set_line :: "string \<Rightarrow> bool \<Rightarrow> dashboard \<Rightarrow> dashboard" where
  "set_line m err d = d\<lparr>da_status := m, da_error := err\<rparr>"

definition dot :: string where "dot = CHR '' '' # CHR 0xB7 # '' ''"

definition ask_trust :: "connection_result \<Rightarrow> string option \<Rightarrow> dashboard \<Rightarrow> dashboard" where
  "ask_trust r name d = (set_line (''Identity received'' @ dot @ ''awaiting trust'') False d)\<lparr>da_asking := Some (r, name)\<rparr>"

definition connected :: "connection_result \<Rightarrow> dashboard \<Rightarrow> dashboard" where
  "connected r d =
     set_line (''Authenticated'' @ dot @ pr_device_id (cr_identity r)) False
       (d\<lparr>da_selected := Some (pr_device_id (cr_identity r))\<rparr>)"

text \<open>\<open>_connect_worker\<close>: only \<open>DirectConnectionError\<close> is shown; \<open>Inl\<close> is what leaves the worker.
  The lines it shows on the way are replaced by the last one.\<close>

definition connect_worker ::
  "service_env \<Rightarrow> dial \<Rightarrow> dial \<Rightarrow> bool \<Rightarrow> endpoint \<Rightarrow> string option \<Rightarrow> (dashboard \<times> service, unit) io" where
  "connect_worker e dl1 dl2 io ep name ds =
     (case service_connect e dl1 dl2 io ep (snd ds) of
        (Inl (DirectConnectionError m), s) \<Rightarrow> (Inr (), (set_line m True (fst ds), s))
      | (Inl x, s) \<Rightarrow> (Inl x, (fst ds, s))
      | (Inr r, s) \<Rightarrow>
          (Inr (), (if cr_state r = Awaiting_trust then ask_trust r name (fst ds) else connected r (fst ds), s)))"

definition finish_trust ::
  "service_env \<Rightarrow> bool \<Rightarrow> bool \<Rightarrow> time \<Rightarrow> time \<Rightarrow> bool \<Rightarrow> connection_result \<Rightarrow> string option \<Rightarrow> (dashboard \<times> service, unit) io" where
  "finish_trust e io1 io2 clk now ok r name ds =
     (if \<not> ok then (Inr (), (set_line ''Device not trusted'' False (fst ds), snd ds))
      else (case service_trust e io1 io2 clk now (pr_device_id (cr_identity r)) name (snd ds) of
              (Inl x, s) \<Rightarrow> (Inl x, (fst ds, s))
            | (Inr _, s) \<Rightarrow>
                (Inr (), (set_line (''Trusted'' @ dot @ ''reconnect to authenticate'') False (fst ds), s))))"

text \<open>\<open>action_send\<close>: the device under the cursor, or else the one connected last; then \<open>_send\<close> with the dialog's value.\<close>

definition action_send :: "key_table \<Rightarrow> dashboard \<Rightarrow> bool \<times> dashboard" where
  "action_send peers d =
     (let d' = (case selected_key peers of None \<Rightarrow> d | Some did \<Rightarrow> d\<lparr>da_selected := Some did\<rparr>)
      in (da_selected d' \<notin> {None, Some []}, d'))"

definition dashboard_send ::
  "service_env \<Rightarrow> dial \<Rightarrow> dial \<Rightarrow> bool \<Rightarrow> (string \<Rightarrow> bool) \<Rightarrow> (string \<times> string option) option
   \<Rightarrow> (dashboard \<times> service, batch_request option) io" where
  "dashboard_send e dl1 dl2 io is_file value ds =
     (case (value, da_selected (fst ds)) of
        (Some (file, note), Some did) \<Rightarrow>
          if \<not> is_file file then (Inr None, ds)
          else (case service_send e dl1 dl2 io (Named did) [file] note (snd ds) of
                  (Inl x, s) \<Rightarrow> (Inl x, (fst ds, s))
                | (Inr req, s) \<Rightarrow> (Inr (Some req), (fst ds, s)))
      | _ \<Rightarrow> (Inr None, ds))"

section \<open>Rows\<close>

lemma distinct_sort: "distinct (map f (sort_key g xs)) \<longleftrightarrow> distinct (map f xs)"
proof -
  have "mset (map f (sort_key g xs)) = mset (map f xs)" by simp
  then show ?thesis by (rule mset_eq_imp_distinct_iff)
qed

lemma keys_of_items:
  "\<forall>(k, x) \<in> set d. f x = k \<Longrightarrow> map (f \<circ> snd) d = map fst d"
  by (induction d) auto

lemma pending_not_contact: "device_id_ok did \<Longrightarrow> \<not> starts_with ''pending:'' did"
  by (cases did) (auto simp: device_id_ok_def starts_with_def)

text \<open>Every row has a key of its own, so \<open>add_row\<close> never raises; pending rows and contacts cannot be confused.\<close>

lemma shown_rows_eq:
  "fst (shown_rows now s) = map pending_key (map pr_device_id (fst (pairing_all now (sv_pairings s)))) @ map ab_device_id (book_all (sv_book s))"
  by (simp add: shown_rows_def prod.case_eq_if)

lemma contacts_distinct:
  assumes "book_inv c b"
  shows "distinct (map ab_device_id (book_all b))" "did \<in> ab_device_id ` set (book_all b) \<Longrightarrow> device_id_ok did"
proof -
  have "\<forall>(k, x) \<in> set (bk_entries b). ab_device_id x = k \<and> device_id_ok k"
    using assms by (auto simp: book_inv_def entry_bound_def dest!: dict_in_get)
  then have "map (ab_device_id \<circ> snd) (bk_entries b) = map fst (bk_entries b)" by (intro keys_of_items) auto
  moreover have "distinct (map fst (bk_entries b))" using assms by (simp add: book_inv_def dict_ok_def)
  ultimately show "distinct (map ab_device_id (book_all b))" by (simp only: book_all_def distinct_sort map_map)
  show "did \<in> ab_device_id ` set (book_all b) \<Longrightarrow> device_id_ok did"
    using \<open>\<forall>(k, x) \<in> set (bk_entries b). ab_device_id x = k \<and> device_id_ok k\<close> by (auto simp: book_all_def)
qed

lemma pending_distinct:
  assumes "pairing_inv b"
  shows "distinct (map pr_device_id (fst (pairing_all now b)))"
proof -
  let ?b = "pairing_prune now b"
  have inv: "pairing_inv ?b" by (rule pairing_prune_inv [OF assms])
  then have "\<forall>(k, x) \<in> set (pi_items ?b). pr_device_id (fst x) = k"
    by (auto simp: pairing_inv_def dest!: dict_in_get)
  then have "map ((pr_device_id \<circ> fst) \<circ> snd) (pi_items ?b) = map fst (pi_items ?b)" by (intro keys_of_items) auto
  then have "map pr_device_id (map (fst \<circ> snd) (pi_items ?b)) = map fst (pi_items ?b)" by (simp add: comp_assoc)
  then show ?thesis
    using inv by (simp add: pairing_all_def Let_def distinct_sort pairing_inv_def dict_ok_def del: map_map)
qed

lemma shown_rows_distinct:
  assumes "service_inv c s"
  shows "distinct (fst (shown_rows now s))"
proof -
  have "inj_on pending_key A" for A by (simp add: inj_on_def pending_key_def)
  moreover have "pending_key did \<notin> ab_device_id ` set (book_all (sv_book s))" for did
  proof
    assume "pending_key did \<in> ab_device_id ` set (book_all (sv_book s))"
    then have "device_id_ok (pending_key did)" using contacts_distinct(2) [of c "sv_book s"] assms by (simp add: service_inv_def)
    from pending_not_contact [OF this] show False by (simp add: pending_key_def starts_with_def)
  qed
  moreover have "distinct (map ab_device_id (book_all (sv_book s)))"
    "distinct (map pr_device_id (fst (pairing_all now (sv_pairings s))))"
    using assms contacts_distinct(1) [of c "sv_book s"] pending_distinct [of "sv_pairings s" now]
    by (simp_all add: service_inv_def)
  ultimately show ?thesis
    unfolding shown_rows_eq distinct_append by (simp only: distinct_map [of pending_key] list.set_map) blast
qed

section \<open>A new request moves under the cursor\<close>

lemma hd_sort_key:
  assumes "x \<in> set xs" "\<And>y. y \<in> set xs \<Longrightarrow> y \<noteq> x \<Longrightarrow> f x < f y"
  shows "sort_key f xs \<noteq> [] \<and> hd (sort_key f xs) = x"
proof -
  have ne: "sort_key f xs \<noteq> []" using assms(1) by (metis empty_iff list.set(1) set_sort)
  then obtain y ys where ys: "sort_key f xs = y # ys" by (metis list.exhaust)
  have "sorted (map f (y # ys))" using sorted_sort_key [of f xs] ys by simp
  moreover have "x \<in> set (y # ys)" "y \<in> set xs" using assms(1) ys by (metis set_sort list.set_intros(1))+
  ultimately have "f y \<le> f x" by auto
  then have "y = x" using assms(2) [OF \<open>y \<in> set xs\<close>] by force
  then show ?thesis using ys by simp
qed

lemma newest_first:
  assumes "pairing_inv b" "fst (pairing_publish now stamp p b) = Inr ()" "later < stamp + pi_ttl b"
    and "\<And>k q t. (k, q, t) \<in> set (pi_items b) \<Longrightarrow> pr_received_at q < pr_received_at p"
  shows "fst (pairing_all later (snd (pairing_publish now stamp p b))) \<noteq> []
    \<and> hd (fst (pairing_all later (snd (pairing_publish now stamp p b)))) = p"
proof -
  let ?b = "snd (pairing_publish now stamp p b)"
  have items: "pi_items ?b = dict_set (pr_device_id p) (p, stamp + pi_ttl b) (pi_items (pairing_prune now b))"
    using assms(2) by (auto simp: pairing_publish_def Let_def split: if_splits)
  have inv: "pairing_inv ?b" by (rule pairing_publish_inv [OF assms(1)])
  have old: "q = p \<or> pr_received_at q < pr_received_at p" if "(k, q, t) \<in> set (pi_items ?b)" for k q t
  proof -
    have "dict_get (pi_items ?b) k = Some (q, t)" using that inv by (auto simp: pairing_inv_def dest: dict_in_get)
    then have "q = p \<or> dict_get (pi_items (pairing_prune now b)) k = Some (q, t)"
      unfolding items by (auto split: if_splits)
    then show ?thesis using assms(4) by (auto simp: pairing_prune_def dest!: dict_get_in)
  qed
  have "dict_get (pi_items ?b) (pr_device_id p) = Some (p, stamp + pi_ttl b)" by (simp add: items)
  then have "(pr_device_id p, p, stamp + pi_ttl b) \<in> set (pi_items (pairing_prune later ?b))"
    using assms(3) by (auto simp: pairing_prune_def dest: dict_get_in)
  then have "p \<in> set (map (fst \<circ> snd) (pi_items (pairing_prune later ?b)))" by force
  moreover have "- pr_received_at p < - pr_received_at q"
    if "q \<in> set (map (fst \<circ> snd) (pi_items (pairing_prune later ?b)))" "q \<noteq> p" for q
    using that by (auto simp: pairing_prune_def dest: old)
  ultimately show ?thesis
    using hd_sort_key [of p "map (fst \<circ> snd) (pi_items (pairing_prune later ?b))" "\<lambda>p. - pr_received_at p"]
    by (simp add: pairing_all_def Let_def)
qed

lemma newcomer_selected:
  assumes "pairing_inv (sv_pairings s)" "publish_pairing now stamp p s = (Inr (), s')" "later < stamp + pi_ttl (sv_pairings s)"
    and "\<And>k q t. (k, q, t) \<in> set (pi_items (sv_pairings s)) \<Longrightarrow> pr_received_at q < pr_received_at p"
    and "kt_cursor t = 0"
  shows "selected_key (fst (refresh_trusted cleared later (t, s'))) = Some (pending_key (pr_device_id p))"
proof -
  have pub: "fst (pairing_publish now stamp p (sv_pairings s)) = Inr ()" "sv_pairings s' = snd (pairing_publish now stamp p (sv_pairings s))"
    using assms(2) by (auto simp: publish_pairing_def split: prod.splits sum.splits)
  have "fst (pairing_all later (sv_pairings s')) \<noteq> [] \<and> hd (fst (pairing_all later (sv_pairings s'))) = p"
    unfolding pub(2) by (rule newest_first [OF assms(1) pub(1) assms(3)]) (rule assms(4))
  then obtain ps where "fst (pairing_all later (sv_pairings s')) = p # ps"
    by (cases "fst (pairing_all later (sv_pairings s'))") auto
  then have "fst (shown_rows later s') = pending_key (pr_device_id p) # map (pending_key \<circ> pr_device_id) ps @ map ab_device_id (book_all (sv_book s'))"
    by (simp add: shown_rows_def prod.case_eq_if)
  then show ?thesis
    using assms(5) by (simp add: refresh_trusted_def selected_key_def prod.case_eq_if)
qed

section \<open>What an approval trusts\<close>

lemma approve_decides:
  assumes "selected_key t = Some (pending_key did)" "decided_identity clk did s = (Inr (p, ep), s0)"
    and "key_bound (se_primitives e) did (pr_public_key p)"
    and "action_approve e io1 io2 cleared clk now later (t, s) = (r, (t', s'))"
  shows "trusted (sv_trust s') did (pr_public_key p)"
proof -
  obtain q s1 where run: "service_trust e io1 io2 clk now did None s = (q, s1)" by force
  have "sv_trust s1 = snd (trust_device (se_primitives e) io1 now (sv_trust s) did (decision_name None ep) (pr_public_key p) None)"
    using service_trust_store [of e io1 io2 clk now did None s] run assms(2) by simp
  with trust_takes_effect [OF assms(3)] have "trusted (sv_trust s1) did (pr_public_key p)" by simp
  moreover have "sv_trust s' = sv_trust s1"
    using assms(1,4) run
    by (auto simp: action_approve_def pending_key_def starts_with_def io_bind_def on_service_def refreshing_def
        refresh_trusted_def shown_rows_def split: sum.splits prod.splits)
  ultimately show ?thesis by simp
qed

text \<open>The refresh that a new request causes comes between the user's look and the key press.\<close>

lemma newcomer_approved:
  assumes "pairing_inv (sv_pairings s)" "publish_pairing now stamp p s = (Inr (), s')" "later < stamp + pi_ttl (sv_pairings s)"
    and "\<And>k q t. (k, q, t) \<in> set (pi_items (sv_pairings s)) \<Longrightarrow> pr_received_at q < pr_received_at p"
    and "kt_cursor t = 0" and fresh: "dict_get (sv_outbound s) (pr_device_id p) = None" "clk < stamp + pi_ttl (sv_pairings s)"
    and key: "key_bound (se_primitives e) (pr_device_id p) (pr_public_key p)"
    and ep: "endpoint_new (JStr (pr_peer_ip p)) (JInt (pr_transfer_port p)) = Inr ep"
    and act: "action_approve e io1 io2 cleared clk stamp' later' (refresh_trusted cleared later (t, s')) = (r, (t', s''))"
  shows "trusted (sv_trust s'') (pr_device_id p) (pr_public_key p)"
proof -
  obtain t1 s1 where refreshed: "refresh_trusted cleared later (t, s') = (t1, s1)" by force
  have s1: "sv_outbound s1 = sv_outbound s'" "sv_pairings s1 = pairing_prune later (sv_pairings s')"
    using refreshed by (auto simp: refresh_trusted_def shown_rows_def pairing_all_def Let_def)
  have s': "sv_outbound s' = sv_outbound s" "sv_pairings s' = snd (pairing_publish now stamp p (sv_pairings s))"
    "fst (pairing_publish now stamp p (sv_pairings s)) = Inr ()"
    using assms(2) by (auto simp: publish_pairing_def split: prod.splits sum.splits)
  have inv: "pairing_inv (sv_pairings s')" unfolding s' by (rule pairing_publish_inv [OF assms(1)])
  have "dict_get (pi_items (sv_pairings s')) (pr_device_id p) = Some (p, stamp + pi_ttl (sv_pairings s))"
    unfolding s'(2) using s'(3) by (auto simp: pairing_publish_def Let_def split: if_splits)
  then have "fst (pairing_get clk (pr_device_id p) (sv_pairings s1)) = Some p"
    using assms(3) fresh(2) prune_get [OF inv] prune_get [OF pairing_prune_inv [OF inv]]
    by (simp add: pairing_get_def Let_def s1)
  then obtain b where "pairing_get clk (pr_device_id p) (sv_pairings s1) = (Some p, b)" by (metis prod.collapse)
  then have "decided_identity clk (pr_device_id p) s1 = (Inr (p, ep), s1\<lparr>sv_pairings := b\<rparr>)"
    using fresh(1) ep by (simp add: decided_identity_def s1(1) s'(1))
  moreover have "selected_key t1 = Some (pending_key (pr_device_id p))"
    using newcomer_selected [OF assms(1-3) assms(4,5), where cleared = cleared] refreshed by simp
  ultimately show ?thesis using approve_decides [OF _ _ key] act refreshed by simp
qed

text \<open>
  The row shows the request of the inbox; \<open>trust\<close> prefers an outgoing pairing of the same identifier, and
  identifiers are 32 bits of a digest.
\<close>

lemma approve_other_key:
  assumes "selected_key t = Some (pending_key did)" "dict_get (sv_outbound s) did = Some (p, ep)"
    and "key_bound (se_primitives e) did (pr_public_key p)" "key \<noteq> pr_public_key p"
    and "action_approve e io1 io2 cleared clk now later (t, s) = (r, (t', s'))"
  shows "trusted (sv_trust s') did (pr_public_key p) \<and> \<not> trusted (sv_trust s') did key"
proof -
  have "decided_identity clk did s = (Inr (p, ep), s)" using assms(2) by (simp add: decided_identity_def)
  from approve_decides [OF assms(1) this assms(3,5)] assms(4) show ?thesis by (auto simp: trusted_iff)
qed

section \<open>The other key presses\<close>

text \<open>Forgetting acts on the contact under the cursor only, never on a pending request.\<close>

lemma forget_acts_on_contact:
  assumes "action_forget io1 io2 cleared later (t, s) = (r, (t', s'))" "sv_trust s' \<noteq> sv_trust s"
  shows "\<exists>did. selected_key t = Some did \<and> \<not> starts_with ''pending:'' did \<and> sv_trust s' = snd (untrust io1 (sv_trust s) did)"
  using assms
  by (auto simp: action_forget_def io_bind_def on_service_def refreshing_def refresh_trusted_def shown_rows_def
      forget_device_def on_trust_def on_book_def note_change_def split: option.splits if_splits sum.splits prod.splits)

lemma dismissing_trusts_nothing:
  "sv_trust (snd (snd (action_reject_pairing cleared later ts))) = sv_trust (snd ts)"
  by (auto simp: action_reject_pairing_def refreshing_def refresh_trusted_def shown_rows_def dismiss_pairing_def
      note_change_def split: option.split prod.split if_splits)

text \<open>On the inbox screen a refresh gives the cursor to the newest offer when \<open>clear\<close> puts it on the first row.\<close>

lemma newest_offer_selected:
  assumes "r \<in> set (get_pending_requests m)" "\<And>q. q \<in> set (get_pending_requests m) \<Longrightarrow> q \<noteq> r \<Longrightarrow> rq_received_at q < rq_received_at r"
  shows "selected_key (refresh_inbox 0 m) = Some (rq_transfer_id r)"
proof -
  let ?xs = "map (pd_request \<circ> snd) (filter (\<lambda>(_, e). is_pending e) (rm_entries m))"
  have "sort_key (\<lambda>r. - rq_received_at r) ?xs \<noteq> [] \<and> hd (sort_key (\<lambda>r. - rq_received_at r) ?xs) = r"
    by (rule hd_sort_key) (use assms in \<open>simp_all add: get_pending_requests_def\<close>)
  then obtain rs where "get_pending_requests m = r # rs"
    unfolding get_pending_requests_def by (cases "sort_key (\<lambda>r. - rq_received_at r) ?xs") auto
  then show ?thesis by (simp add: refresh_inbox_def selected_key_def)
qed

section \<open>Errors of the connect dialog\<close>

text \<open>The dialog catches \<open>EndpointError\<close> only, and the parser raises nothing else.\<close>

lemma validate_host_error: "validate_host h = Inl x \<Longrightarrow> \<exists>m. x = EndpointError m"
  by (auto simp: validate_host_def Let_def split: if_splits)

lemma validate_port_error: "validate_port (JInt i) = Inl x \<Longrightarrow> \<exists>m. x = ValueError m"
  by (auto simp: validate_port_def split: if_splits)

lemma endpoint_new_error: "endpoint_new (JStr h) (JInt i) = Inl x \<Longrightarrow> \<exists>m. x = EndpointError m"
  by (auto simp: endpoint_new_def bind_result_eq_Inl split: if_splits sum.splits exn.splits
      dest: validate_host_error validate_port_error)

lemma parse_port_error: "parse_port s = Inl x \<Longrightarrow> \<exists>m. x = EndpointError m"
  by (auto simp: parse_port_def split: if_splits sum.splits exn.splits dest: validate_port_error)

lemma endpoint_parse_error: "endpoint_parse s d = Inl x \<Longrightarrow> \<exists>m. x = EndpointError m"
  by (auto simp: endpoint_parse_def parse_bracketed_def Let_def bind_result_eq_Inl
      dest: parse_port_error endpoint_new_error split: if_splits option.splits list.splits)

lemma connect_dialog_error: "connect_dialog address name = Inl x \<Longrightarrow> \<exists>m. x = EndpointError m"
  by (auto simp: connect_dialog_def dest: endpoint_parse_error split: sum.splits)

end
