(* ===== verification/Slots.thy ===== *)
theory Slots
  imports Prelude Config
begin

text \<open>
  What the two pools of threads have in common: a step relation between interleaved atomic actions
  with an invariant, and a bounded semaphore whose slots are held by threads.
\<close>

section \<open>Step relations\<close>

locale transition_system =
  fixes step :: "'s \<Rightarrow> 's \<Rightarrow> bool"
    and inv :: "'s \<Rightarrow> bool"
  assumes step_inv: "inv s \<Longrightarrow> step s t \<Longrightarrow> inv t"
begin

lemma reach_inv: "step\<^sup>*\<^sup>* s t \<Longrightarrow> inv s \<Longrightarrow> inv t"
  by (induction rule: rtranclp_induct) (auto intro: step_inv)

text \<open>A property that every step from a consistent state keeps.\<close>

lemma reach_stable:
  assumes "step\<^sup>*\<^sup>* s t" "inv s" "P s" and stable: "\<And>s t. inv s \<Longrightarrow> P s \<Longrightarrow> step s t \<Longrightarrow> P t"
  shows "P t"
proof -
  from assms(1) have "inv t \<and> P t"
    by (induction rule: rtranclp_induct) (use assms(2,3) stable step_inv in blast)+
  then show ?thesis ..
qed

end

section \<open>A bounded semaphore\<close>

text \<open>
  \<open>threading.BoundedSemaphore(cap)\<close>: acquiring takes one of the free slots, releasing one too many raises.
  \<open>holders\<close> are the threads between the two.
\<close>

locale slot_pool = transition_system step inv
  for step :: "'s \<Rightarrow> 's \<Rightarrow> bool" and inv :: "'s \<Rightarrow> bool" +
  fixes free :: "'s \<Rightarrow> nat"
    and holders :: "'s \<Rightarrow> 't set"
    and cap :: nat
  assumes balance: "inv s \<Longrightarrow> finite (holders s) \<and> free s + card (holders s) = cap"
begin

lemma bounded: "step\<^sup>*\<^sup>* s t \<Longrightarrow> inv s \<Longrightarrow> card (holders t) \<le> cap"
  using balance [OF reach_inv] by fastforce

text \<open>A holder can always release.\<close>

lemma release_fits: "step\<^sup>*\<^sup>* s t \<Longrightarrow> inv s \<Longrightarrow> h \<in> holders t \<Longrightarrow> free t < cap"
  using balance [OF reach_inv] by (metis add_eq_self_zero card_gt_0_iff empty_iff le_add1 le_neq_implies_less less_irrefl)

text \<open>No slot is lost.\<close>

lemma none_lost: "step\<^sup>*\<^sup>* s t \<Longrightarrow> inv s \<Longrightarrow> holders t = {} \<Longrightarrow> free t = cap"
  using balance [OF reach_inv] by fastforce

text \<open>Refusing for lack of slots means that the full number is held.\<close>

lemma full: "step\<^sup>*\<^sup>* s t \<Longrightarrow> inv s \<Longrightarrow> free t = 0 \<Longrightarrow> card (holders t) = cap"
  using balance [OF reach_inv] by fastforce

end

text \<open>Threads by phase: one thread moves from one phase to the next.\<close>

definition in_phases :: "('t \<Rightarrow> 'p option) \<Rightarrow> 'p set \<Rightarrow> 't set" where
  "in_phases f P = {t. \<exists>p \<in> P. f t = Some p}"

lemma in_phases_move:
  "in_phases (f(t \<mapsto> p)) P = (if p \<in> P then insert t (in_phases f P) else in_phases f P - {t})"
  by (auto simp: in_phases_def split: if_splits)

lemma in_phases_iff: "t \<in> in_phases f P \<longleftrightarrow> (\<exists>p \<in> P. f t = Some p)"
  by (simp add: in_phases_def)

lemma give_back: "finite A \<Longrightarrow> t \<in> A \<Longrightarrow> Suc (n + card (A - {t})) = n + card A"
  using card_Suc_Diff1 [of A t] by simp

end
