(* ===== verification/SendPool.thy ===== *)
theory SendPool
  imports Slots
begin

text \<open>
  The threads of \<open>FileClient\<close> (\<open>core/transfer.py\<close>): callers of \<open>send_batch\<close>, the workers they start,
  \<open>cancel_transfer\<close> and \<open>shutdown\<close>, interleaved in any order. A step is one section under the lock, one
  operation on the semaphore or an event, or the start of a thread.
\<close>

section \<open>Model\<close>

text \<open>
  Where a call of \<open>send_batch\<close> and then its worker stands: past the shutdown check, holding a slot, with its
  event registered, with its thread registered, started, undoing a failed start, past the cleanup under
  the lock; then returned, or refused.
\<close>

datatype send_phase = Checked | Slotted | Registered | Listed | Working | Undoing | Leaving | Returned | Refused

text \<open>
  How far \<open>shutdown\<close> is: not begun, flag set, setting the events of its copy of \<open>_cancel_events\<close>, through with
  them, broken off by an exception of closing a socket. The sockets of its copy are closed after the events; the
  joins that follow wait a bounded time and change nothing.
\<close>

datatype stop_phase = Not_stopping | Flagged | Signalling "string set" | Signalled | Broken_off

text \<open>
  Calls and workers go by the transfer identifier, which \<open>uuid4\<close> makes unique, sockets by the order they are
  registered in: \<open>sp_sockets\<close> is the dictionary of the open ones, \<open>sp_to_close\<close> what \<open>shutdown\<close> has copied and
  not closed yet, \<open>sp_cut\<close> the sockets it has shut down and closed.
\<close>

record send_pool =
  sp_free :: nat
  sp_phase :: "string \<Rightarrow> send_phase option"
  sp_events :: "string set"
  sp_workers :: "string set"
  sp_sockets :: "string \<Rightarrow> nat option"
  sp_made :: nat
  sp_to_close :: "nat set"
  sp_cut :: "nat set"
  sp_set :: "string set"
  sp_stopping :: bool
  sp_stop :: stop_phase

definition send_pool_new :: send_pool where
  "send_pool_new =
     \<lparr>sp_free = MAX_CONCURRENT_TRANSFER_SESSIONS, sp_phase = (\<lambda>_. None), sp_events = {}, sp_workers = {},
      sp_sockets = (\<lambda>_. None), sp_made = 0, sp_to_close = {}, sp_cut = {}, sp_set = {}, sp_stopping = False, sp_stop = Not_stopping\<rparr>"

definition goes :: "string \<Rightarrow> send_phase \<Rightarrow> send_pool \<Rightarrow> send_pool" where
  "goes t p s = s\<lparr>sp_phase := (sp_phase s)(t \<mapsto> p)\<rparr>"

text \<open>\<open>send_batch\<close>. A failed start takes back what was registered, releases the slot and raises.\<close>

inductive send_batch_step :: "send_pool \<Rightarrow> send_pool \<Rightarrow> bool" where
  check: "sp_phase s t = None \<Longrightarrow> \<not> sp_stopping s \<Longrightarrow> send_batch_step s (goes t Checked s)"
| refuse: "sp_phase s t = None \<Longrightarrow> sp_stopping s \<Longrightarrow> send_batch_step s (goes t Refused s)"
| acquire: "sp_phase s t = Some Checked \<Longrightarrow> sp_free s = Suc n \<Longrightarrow> send_batch_step s (goes t Slotted s\<lparr>sp_free := n\<rparr>)"
| no_slot: "sp_phase s t = Some Checked \<Longrightarrow> sp_free s = 0 \<Longrightarrow> send_batch_step s (goes t Refused s)"
| enter: "sp_phase s t = Some Slotted \<Longrightarrow>
    send_batch_step s (goes t Registered s\<lparr>sp_events := insert t (sp_events s)\<rparr>)"
| enlist: "sp_phase s t = Some Registered \<Longrightarrow>
    send_batch_step s (goes t Listed s\<lparr>sp_workers := insert t (sp_workers s)\<rparr>)"
| start: "sp_phase s t = Some Listed \<Longrightarrow> send_batch_step s (goes t Working s)"
| start_fails: "sp_phase s t = Some Listed \<Longrightarrow>
    send_batch_step s (goes t Undoing s\<lparr>sp_workers := sp_workers s - {t}, sp_events := sp_events s - {t}\<rparr>)"
| undo: "sp_phase s t = Some Undoing \<Longrightarrow> send_batch_step s (goes t Refused s\<lparr>sp_free := Suc (sp_free s)\<rparr>)"

text \<open>
  \<open>_batch_worker_entry\<close>: sessions register their socket and take it out again; the body ends outside a
  session, by returning or by any exception; then the cleanup under the lock and the release.
\<close>

inductive worker_step :: "send_pool \<Rightarrow> send_pool \<Rightarrow> bool" where
  connect: "sp_phase s t = Some Working \<Longrightarrow> sp_sockets s t = None \<Longrightarrow>
    worker_step s (s\<lparr>sp_sockets := (sp_sockets s)(t \<mapsto> sp_made s), sp_made := Suc (sp_made s)\<rparr>)"
| disconnect: "sp_phase s t = Some Working \<Longrightarrow> worker_step s (s\<lparr>sp_sockets := (sp_sockets s)(t := None)\<rparr>)"
| leave: "sp_phase s t = Some Working \<Longrightarrow> sp_sockets s t = None \<Longrightarrow>
    worker_step s (goes t Leaving s\<lparr>sp_events := sp_events s - {t}, sp_workers := sp_workers s - {t}\<rparr>)"
| release: "sp_phase s t = Some Leaving \<Longrightarrow> worker_step s (goes t Returned s\<lparr>sp_free := Suc (sp_free s)\<rparr>)"

text \<open>
  \<open>cancel_transfer\<close>. Setting an event after its worker has taken it out has no reader, so the lookup and
  the \<open>set\<close> are one step.
\<close>

definition cancel_transfer :: "string \<Rightarrow> send_pool \<Rightarrow> bool \<times> send_pool" where
  "cancel_transfer t s = (if t \<in> sp_events s then (True, s\<lparr>sp_set := insert t (sp_set s)\<rparr>) else (False, s))"

inductive shutdown_step :: "send_pool \<Rightarrow> send_pool \<Rightarrow> bool" where
  flag: "sp_stop s = Not_stopping \<Longrightarrow> shutdown_step s (s\<lparr>sp_stopping := True, sp_stop := Flagged\<rparr>)"
| copy: "sp_stop s = Flagged \<Longrightarrow>
    shutdown_step s (s\<lparr>sp_stop := Signalling (sp_events s), sp_to_close := ran (sp_sockets s)\<rparr>)"
| signal: "sp_stop s = Signalling E \<Longrightarrow> t \<in> E \<Longrightarrow>
    shutdown_step s (s\<lparr>sp_set := insert t (sp_set s), sp_stop := Signalling (E - {t})\<rparr>)"
| signalled: "sp_stop s = Signalling {} \<Longrightarrow> shutdown_step s (s\<lparr>sp_stop := Signalled\<rparr>)"
| cut: "sp_stop s = Signalled \<Longrightarrow> n \<in> sp_to_close s \<Longrightarrow>
    shutdown_step s (s\<lparr>sp_cut := insert n (sp_cut s), sp_to_close := sp_to_close s - {n}\<rparr>)"
| cut_fails: "sp_stop s = Signalled \<Longrightarrow> n \<in> sp_to_close s \<Longrightarrow> shutdown_step s (s\<lparr>sp_stop := Broken_off\<rparr>)"

inductive send_step :: "send_pool \<Rightarrow> send_pool \<Rightarrow> bool" where
  caller: "send_batch_step s s' \<Longrightarrow> send_step s s'"
| worker: "worker_step s s' \<Longrightarrow> send_step s s'"
| canceller: "cancel_transfer t s = (b, s') \<Longrightarrow> send_step s s'"
| stopper: "shutdown_step s s' \<Longrightarrow> send_step s s'"

text \<open>\<open>active_worker_count\<close>.\<close>

definition active_worker_count :: "send_pool \<Rightarrow> nat" where
  "active_worker_count s = card (sp_workers s)"

lemmas send_rules = send_batch_step.intros worker_step.intros shutdown_step.intros

inductive_cases send_stepE: "send_step s s'"
inductive_cases send_batchE: "send_batch_step s s'"
inductive_cases workerE: "worker_step s s'"
inductive_cases shutdownE: "shutdown_step s s'"

lemma goes_simps [simp]:
  "sp_phase (goes t p s) = (sp_phase s)(t \<mapsto> p)" "sp_free (goes t p s) = sp_free s" "sp_events (goes t p s) = sp_events s"
  "sp_workers (goes t p s) = sp_workers s" "sp_set (goes t p s) = sp_set s" "sp_stopping (goes t p s) = sp_stopping s"
  "sp_stop (goes t p s) = sp_stop s" "sp_sockets (goes t p s) = sp_sockets s" "sp_made (goes t p s) = sp_made s"
  "sp_to_close (goes t p s) = sp_to_close s" "sp_cut (goes t p s) = sp_cut s"
  by (simp_all add: goes_def)

section \<open>Slots and registers follow the phases\<close>

definition slot_phases :: "send_phase set" where
  "slot_phases = {Slotted, Registered, Listed, Working, Undoing, Leaving}"

definition slot_holders :: "send_pool \<Rightarrow> string set" where
  "slot_holders s = in_phases (sp_phase s) slot_phases"

definition send_inv :: "send_pool \<Rightarrow> bool" where
  "send_inv s \<longleftrightarrow>
     finite (slot_holders s) \<and> sp_free s + card (slot_holders s) = MAX_CONCURRENT_TRANSFER_SESSIONS
     \<and> sp_events s = in_phases (sp_phase s) {Registered, Listed, Working}
     \<and> sp_workers s = in_phases (sp_phase s) {Listed, Working}
     \<and> (\<forall>t. sp_sockets s t \<noteq> None \<longrightarrow> sp_phase s t = Some Working)
     \<and> (sp_stop s \<noteq> Not_stopping \<longrightarrow> sp_stopping s)"

lemma send_pool_new_inv: "send_inv send_pool_new"
  by (simp add: send_inv_def send_pool_new_def slot_holders_def in_phases_def)

lemma batch_inv: "send_batch_step s s' \<Longrightarrow> send_inv s \<Longrightarrow> send_inv s'"
  by (induction rule: send_batch_step.induct)
     (auto simp: send_inv_def slot_holders_def slot_phases_def in_phases_move in_phases_iff card_insert_if give_back
       simp del: card_Diff_insert)

lemma worker_inv: "worker_step s s' \<Longrightarrow> send_inv s \<Longrightarrow> send_inv s'"
  by (induction rule: worker_step.induct)
     (auto simp: send_inv_def slot_holders_def slot_phases_def in_phases_move in_phases_iff card_insert_if give_back
       simp del: card_Diff_insert)

lemma shutdown_inv: "shutdown_step s s' \<Longrightarrow> send_inv s \<Longrightarrow> send_inv s'"
  by (induction rule: shutdown_step.induct) (auto simp: send_inv_def slot_holders_def)

lemma cancel_frame:
  "cancel_transfer t s = (b, s') \<Longrightarrow> s' = s\<lparr>sp_set := sp_set s'\<rparr> \<and> sp_set s \<subseteq> sp_set s'"
  by (auto simp: cancel_transfer_def split: if_splits)

lemma cancel_inv: "cancel_transfer t s = (b, s') \<Longrightarrow> send_inv s \<Longrightarrow> send_inv s'"
  by (simp add: cancel_transfer_def send_inv_def slot_holders_def split: if_splits)
    (auto simp: send_inv_def slot_holders_def)

lemma send_step_inv: "send_inv s \<Longrightarrow> send_step s s' \<Longrightarrow> send_inv s'"
  by (erule send_stepE) (blast intro: batch_inv worker_inv shutdown_inv cancel_inv)+

interpretation sends: slot_pool send_step send_inv sp_free slot_holders MAX_CONCURRENT_TRANSFER_SESSIONS
  by unfold_locales (rule send_step_inv, assumption+, simp add: send_inv_def)

section \<open>Bounds\<close>

lemma workers_hold_slots: "send_inv s \<Longrightarrow> sp_workers s \<subseteq> slot_holders s"
  by (auto simp: send_inv_def slot_holders_def slot_phases_def in_phases_def)

lemma workers_bounded:
  assumes "send_step\<^sup>*\<^sup>* send_pool_new s"
  shows "active_worker_count s \<le> MAX_CONCURRENT_TRANSFER_SESSIONS"
proof -
  have inv: "send_inv s" by (rule sends.reach_inv [OF assms send_pool_new_inv])
  have "card (sp_workers s) \<le> card (slot_holders s)"
    using workers_hold_slots [OF inv] inv by (intro card_mono) (auto simp: send_inv_def)
  with sends.bounded [OF assms send_pool_new_inv] show ?thesis by (simp add: active_worker_count_def)
qed

section \<open>Cancelling\<close>

text \<open>A transfer can be cancelled from the moment its event is registered until its worker ends.\<close>

lemma cancel_hits:
  assumes "send_step\<^sup>*\<^sup>* send_pool_new s"
  shows "fst (cancel_transfer t s) \<longleftrightarrow> sp_phase s t \<in> Some ` {Registered, Listed, Working}"
  using sends.reach_inv [OF assms send_pool_new_inv]
  by (auto simp: cancel_transfer_def send_inv_def in_phases_def)

section \<open>Shutting down\<close>

fun to_signal :: "stop_phase \<Rightarrow> string set" where
  "to_signal Flagged = UNIV"
| "to_signal (Signalling E) = E"
| "to_signal _ = {}"

text \<open>Once no call stands between the check and its registration, no worker escapes the signals.\<close>

definition all_covered :: "send_pool \<Rightarrow> bool" where
  "all_covered s \<longleftrightarrow>
     sp_stop s \<noteq> Not_stopping \<and> (\<forall>t. sp_phase s t \<noteq> Some Checked \<and> sp_phase s t \<noteq> Some Slotted) \<and> sp_events s \<subseteq> sp_set s \<union> to_signal (sp_stop s)"

lemma batch_covered: "send_batch_step s s' \<Longrightarrow> send_inv s \<Longrightarrow> all_covered s \<Longrightarrow> all_covered s'"
  by (induction rule: send_batch_step.induct)
     (auto simp: all_covered_def send_inv_def)

lemma worker_covered: "worker_step s s' \<Longrightarrow> all_covered s \<Longrightarrow> all_covered s'"
  by (induction rule: worker_step.induct) (auto simp: all_covered_def)

lemma shutdown_covered: "shutdown_step s s' \<Longrightarrow> all_covered s \<Longrightarrow> all_covered s'"
  by (induction rule: shutdown_step.induct) (auto simp: all_covered_def)

lemma send_step_covered: "send_inv s \<Longrightarrow> all_covered s \<Longrightarrow> send_step s s' \<Longrightarrow> all_covered s'"
  by (auto elim!: send_stepE intro: batch_covered worker_covered shutdown_covered)
     (auto simp: cancel_transfer_def all_covered_def split: if_splits)

lemma shutdown_signals:
  assumes "send_step\<^sup>*\<^sup>* send_pool_new s" "sp_stop s = Flagged" "\<forall>t. sp_phase s t \<noteq> Some Checked \<and> sp_phase s t \<noteq> Some Slotted"
    and "send_step\<^sup>*\<^sup>* s s'" "sp_stop s' = Signalled" "t \<in> sp_workers s'"
  shows "t \<in> sp_set s'"
proof -
  have inv: "send_inv s" by (rule sends.reach_inv [OF assms(1) send_pool_new_inv])
  have "all_covered s" using assms(2,3) by (simp add: all_covered_def)
  with assms(4) inv have "all_covered s'"
    by (rule sends.reach_stable) (rule send_step_covered)
  moreover have "send_inv s'" by (rule sends.reach_inv [OF assms(4) inv])
  ultimately show ?thesis
    using assms(5,6) by (auto simp: all_covered_def send_inv_def in_phases_def)
qed

text \<open>Every socket that was registered when \<open>shutdown\<close> copied them is closed in the end, or its session has taken it out.\<close>

definition cut_off :: "nat \<Rightarrow> send_pool \<Rightarrow> bool" where
  "cut_off m s \<longleftrightarrow>
     sp_stop s \<notin> {Not_stopping, Flagged} \<and> m \<le> sp_made s
     \<and> (\<forall>n \<in> ran (sp_sockets s). n < m \<longrightarrow> n \<in> sp_to_close s \<union> sp_cut s)"

lemma ran_clear: "n \<in> ran (f(t := None)) \<Longrightarrow> n \<in> ran f"
  by (auto simp: ran_def split: if_splits)

lemma send_step_cut_off: "cut_off m s \<Longrightarrow> send_step s s' \<Longrightarrow> cut_off m s'"
  by (erule send_stepE; (erule send_batch_step.cases worker_step.cases shutdown_step.cases)?)
     (auto simp: cut_off_def cancel_transfer_def dest!: ran_clear split: if_splits)

lemma shutdown_cuts:
  assumes "send_step\<^sup>*\<^sup>* send_pool_new s" "sp_stop s = Flagged"
    and "send_step\<^sup>*\<^sup>* (s\<lparr>sp_stop := Signalling (sp_events s), sp_to_close := ran (sp_sockets s)\<rparr>) s'"
    and "sp_to_close s' = {}" "sp_sockets s' t = Some n" "n < sp_made s"
  shows "n \<in> sp_cut s'"
proof -
  let ?s = "s\<lparr>sp_stop := Signalling (sp_events s), sp_to_close := ran (sp_sockets s)\<rparr>"
  have inv: "send_inv ?s"
    using sends.reach_inv [OF assms(1) send_pool_new_inv] shutdown_inv [OF copy [OF assms(2)]] by blast
  have "cut_off (sp_made s) ?s" by (simp add: cut_off_def)
  with assms(3) inv have "cut_off (sp_made s) s'"
    by (rule sends.reach_stable) (rule send_step_cut_off)
  then show ?thesis using assms(4-6) by (auto simp: cut_off_def ran_def)
qed

section \<open>Calls that come too late, and calls that slip through\<close>

text \<open>A call that begins after the flag is set is refused, so it never has a worker.\<close>

lemma latecomer_refused:
  assumes "send_step\<^sup>*\<^sup>* send_pool_new s" "sp_stop s \<noteq> Not_stopping" "sp_phase s t = None" "send_step\<^sup>*\<^sup>* s s'"
  shows "sp_phase s' t \<in> {None, Some Refused}"
proof -
  have inv: "send_inv s" by (rule sends.reach_inv [OF assms(1) send_pool_new_inv])
  have "sp_stop s \<noteq> Not_stopping \<and> sp_phase s t \<in> {None, Some Refused}" using assms(2,3) by simp
  with assms(4) inv have "sp_stop s' \<noteq> Not_stopping \<and> sp_phase s' t \<in> {None, Some Refused}"
    by (rule sends.reach_stable [where P = "\<lambda>s. sp_stop s \<noteq> Not_stopping \<and> sp_phase s t \<in> {None, Some Refused}"])
       (erule send_stepE; (erule send_batch_step.cases worker_step.cases shutdown_step.cases)?;
        auto simp: cancel_transfer_def send_inv_def split: if_splits)
  then show ?thesis ..
qed

text \<open>Nobody can have cancelled a call that is not registered yet.\<close>

fun copied_events :: "stop_phase \<Rightarrow> string set" where
  "copied_events (Signalling E) = E"
| "copied_events _ = {}"

definition early_unset :: "send_pool \<Rightarrow> bool" where
  "early_unset s \<longleftrightarrow>
     (\<forall>t. sp_phase s t \<in> {None, Some Checked, Some Slotted} \<longrightarrow> t \<notin> sp_set s \<union> copied_events (sp_stop s))"

lemma send_step_unset: "send_inv s \<Longrightarrow> early_unset s \<Longrightarrow> send_step s s' \<Longrightarrow> early_unset s'"
  by (erule send_stepE; (erule send_batch_step.cases worker_step.cases shutdown_step.cases)?)
     (auto simp: early_unset_def cancel_transfer_def send_inv_def in_phases_def split: if_splits)

lemma reached_unset:
  assumes "send_step\<^sup>*\<^sup>* send_pool_new s"
  shows "early_unset s"
proof -
  have "early_unset send_pool_new" by (simp add: early_unset_def send_pool_new_def)
  with assms send_pool_new_inv show ?thesis by (rule sends.reach_stable) (rule send_step_unset)
qed

text \<open>
  A call that stands between the check and its registration when the signals are through goes on: its worker can
  run on, and its event is not set.
\<close>

lemma slotted_goes_on:
  assumes "sp_phase s t = Some Slotted"
  shows "\<exists>s'. send_step\<^sup>*\<^sup>* s s' \<and> sp_phase s' t = Some Working \<and> sp_set s' = sp_set s \<and> sp_stop s' = sp_stop s"
proof -
  let ?s1 = "goes t Registered s\<lparr>sp_events := insert t (sp_events s)\<rparr>"
  let ?s2 = "goes t Listed ?s1\<lparr>sp_workers := insert t (sp_workers ?s1)\<rparr>"
  let ?s3 = "goes t Working ?s2"
  have "send_step s ?s1" by (intro caller enter assms)
  moreover have "send_step ?s1 ?s2" by (intro caller enlist) simp
  moreover have "send_step ?s2 ?s3" by (intro caller start) simp
  ultimately have "send_step\<^sup>*\<^sup>* s ?s3" by (meson rtranclp.rtrancl_into_rtrancl rtranclp.rtrancl_refl)
  then show ?thesis by (intro exI [of _ ?s3]) simp
qed

lemma slips_through:
  assumes "send_step\<^sup>*\<^sup>* send_pool_new s" "sp_stop s = Signalled"
    and "sp_phase s t = Some Slotted \<or> sp_phase s t = Some Checked \<and> 0 < sp_free s"
  shows "\<exists>s'. send_step\<^sup>*\<^sup>* s s' \<and> sp_stop s' = Signalled \<and> sp_phase s' t = Some Working \<and> t \<notin> sp_set s'"
proof -
  have unset: "t \<notin> sp_set s" using reached_unset [OF assms(1)] assms(3) by (auto simp: early_unset_def)
  from assms(3) show ?thesis
  proof
    assume "sp_phase s t = Some Slotted"
    from slotted_goes_on [OF this] unset assms(2) show ?thesis by metis
  next
    assume c: "sp_phase s t = Some Checked \<and> 0 < sp_free s"
    then obtain n where n: "sp_free s = Suc n" by (meson gr0_implies_Suc)
    let ?s1 = "goes t Slotted s\<lparr>sp_free := n\<rparr>"
    have "send_step s ?s1" using c n by (intro caller acquire) simp_all
    moreover obtain s' where "send_step\<^sup>*\<^sup>* ?s1 s'" "sp_phase s' t = Some Working" "sp_set s' = sp_set s" "sp_stop s' = sp_stop s"
      using slotted_goes_on [of ?s1 t] by auto
    ultimately show ?thesis using unset assms(2) by (metis converse_rtranclp_into_rtranclp)
  qed
qed

text \<open>Such a call exists: it passed the check before the flag was set.\<close>

lemma caught_in_between:
  "\<exists>s. send_step\<^sup>*\<^sup>* send_pool_new s \<and> sp_stop s = Signalled \<and> sp_phase s t = Some Checked \<and> 0 < sp_free s"
proof -
  let ?s0 = send_pool_new
  let ?s1 = "goes t Checked ?s0"
  let ?s2 = "?s1\<lparr>sp_stopping := True, sp_stop := Flagged\<rparr>"
  let ?s3 = "?s2\<lparr>sp_stop := Signalling {}, sp_to_close := {}\<rparr>"
  let ?s4 = "?s3\<lparr>sp_stop := Signalled\<rparr>"
  note new = send_pool_new_def MAX_CONCURRENT_TRANSFER_SESSIONS_def
  have "send_step ?s0 ?s1" by (intro caller check) (simp_all add: new)
  moreover have "send_step ?s1 ?s2" by (intro stopper flag) (simp add: new)
  moreover have "send_step ?s2 ?s3" using copy [of ?s2] by (intro stopper) (simp add: new)
  moreover have "send_step ?s3 ?s4" by (intro stopper signalled) simp
  ultimately have "send_step\<^sup>*\<^sup>* ?s0 ?s4" by (meson rtranclp.rtrancl_into_rtrancl rtranclp.rtrancl_refl)
  then show ?thesis by (intro exI [of _ ?s4]) (simp add: new)
qed

lemma late_worker:
  "\<exists>s. send_step\<^sup>*\<^sup>* send_pool_new s \<and> sp_stop s = Signalled \<and> sp_phase s t = Some Working \<and> t \<notin> sp_set s"
proof -
  obtain s where "send_step\<^sup>*\<^sup>* send_pool_new s" "sp_stop s = Signalled" "sp_phase s t = Some Checked" "0 < sp_free s"
    using caught_in_between by blast
  then show ?thesis using slips_through [of s t] by (meson rtranclp_trans)
qed

end
