(* ===== verification/ListenPool.thy ===== *)
theory ListenPool
  imports Slots
begin

text \<open>
  The threads of \<open>FileServer\<close> (\<open>core/transfer.py\<close>): the accept loop of \<open>run\<close>, the session workers it starts and
  \<open>shutdown\<close>, interleaved in any order, with the sockets of the listener.
\<close>

section \<open>Binding\<close>

datatype listener_family = Inet6 | Inet4

text \<open>
  \<open>_bind_listener\<close>: what \<open>has_ipv6\<close>, the IPv6 attempt (the answer to \<open>IPV6_V6ONLY\<close>, where the option exists)
  and the IPv4 attempt give; the family and whether the listener serves both.
\<close>

definition bind_listener ::
  "bool \<Rightarrow> int option result \<Rightarrow> unit result \<Rightarrow> (listener_family \<times> bool) result" where
  "bind_listener has_ipv6 v6 v4 =
     (let fallback = (case v4 of Inr _ \<Rightarrow> Inr (Inet4, False) | Inl x \<Rightarrow> Inl x)
      in if has_ipv6
         then (case v6 of
                 Inr only \<Rightarrow> Inr (Inet6, case only of None \<Rightarrow> True | Some n \<Rightarrow> n = 0)
               | Inl x \<Rightarrow> if is_OSError x then fallback else Inl x)
         else fallback)"

section \<open>Model\<close>

datatype server_state = STARTING | LISTENING | STOPPED | FAILED_TO_BIND

text \<open>
  Where \<open>run\<close> stands: before the bind, at the loop test, in \<open>accept\<close>, with a connection, with a slot for it, with
  connection and thread registered, past the loop; ended; or ended by an exception of \<open>start\<close>.
\<close>

datatype loop_phase =
    Binding
  | Testing
  | Waiting
  | Accepted nat
  | Admitted nat
  | Tracked nat
  | Closing
  | Ended
  | Crashed nat

text \<open>A session worker: serving, its connection closed, past the cleanup under the lock, gone.\<close>

datatype session_phase = Serving | Hung_up | Cleaned | Gone

text \<open>
  \<open>shutdown\<close>: not begun, flag cleared, connections copied and still to close, done, broken off by an exception of
  a close. Closing the listening socket makes \<open>accept\<close> fail, which it may at any time; the joins wait a bounded time.
\<close>

datatype closing_phase = Not_closing | Cleared | Closing_down "nat set" | Closed_down | Given_up

text \<open>Connections are numbered in the order they are accepted.\<close>

record listen_pool =
  lp_free :: nat
  lp_loop :: loop_phase
  lp_next :: nat
  lp_sessions :: "nat \<Rightarrow> session_phase option"
  lp_connections :: "nat set"
  lp_handlers :: "nat set"
  lp_closed :: "nat set"
  lp_running :: bool
  lp_state :: server_state
  lp_error :: "exn option"
  lp_shut :: closing_phase

definition listen_pool_new :: listen_pool where
  "listen_pool_new =
     \<lparr>lp_free = MAX_CONCURRENT_TRANSFER_SESSIONS, lp_loop = Binding, lp_next = 0, lp_sessions = (\<lambda>_. None),
      lp_connections = {}, lp_handlers = {}, lp_closed = {}, lp_running = True, lp_state = STARTING, lp_error = None,
      lp_shut = Not_closing\<rparr>"

text \<open>
  \<open>run\<close>; only \<open>TimeoutError\<close> and \<open>OSError\<close> are caught, a failing \<open>start\<close> raises \<open>RuntimeError\<close>. An \<open>OSError\<close> of
  closing a connection turned away ends the loop; the descriptor is given up all the same.
\<close>

inductive run_step :: "listen_pool \<Rightarrow> listen_pool \<Rightarrow> bool" where
  bind_fails: "lp_loop s = Binding \<Longrightarrow> is_OSError x \<Longrightarrow>
    run_step s (s\<lparr>lp_loop := Ended, lp_state := FAILED_TO_BIND, lp_error := Some x\<rparr>)"
| bound: "lp_loop s = Binding \<Longrightarrow> run_step s (s\<lparr>lp_loop := Testing, lp_state := LISTENING\<rparr>)"
| go_on: "lp_loop s = Testing \<Longrightarrow> lp_running s \<Longrightarrow> run_step s (s\<lparr>lp_loop := Waiting\<rparr>)"
| stop: "lp_loop s = Testing \<Longrightarrow> \<not> lp_running s \<Longrightarrow> run_step s (s\<lparr>lp_loop := Closing\<rparr>)"
| time_out: "lp_loop s = Waiting \<Longrightarrow> run_step s (s\<lparr>lp_loop := Testing\<rparr>)"
| accept_fails: "lp_loop s = Waiting \<Longrightarrow> run_step s (s\<lparr>lp_loop := Closing\<rparr>)"
| accept: "lp_loop s = Waiting \<Longrightarrow> lp_next s = c \<Longrightarrow> run_step s (s\<lparr>lp_loop := Accepted c, lp_next := Suc c\<rparr>)"
| turn_away: "lp_loop s = Accepted c \<Longrightarrow> lp_free s = 0 \<Longrightarrow>
    run_step s (s\<lparr>lp_loop := Testing, lp_closed := insert c (lp_closed s)\<rparr>)"
| turn_away_fails: "lp_loop s = Accepted c \<Longrightarrow> lp_free s = 0 \<Longrightarrow>
    run_step s (s\<lparr>lp_loop := Closing, lp_closed := insert c (lp_closed s)\<rparr>)"
| admit: "lp_loop s = Accepted c \<Longrightarrow> lp_free s = Suc n \<Longrightarrow> run_step s (s\<lparr>lp_loop := Admitted c, lp_free := n\<rparr>)"
| track: "lp_loop s = Admitted c \<Longrightarrow>
    run_step s (s\<lparr>lp_loop := Tracked c, lp_connections := insert c (lp_connections s), lp_handlers := insert c (lp_handlers s)\<rparr>)"
| started: "lp_loop s = Tracked c \<Longrightarrow>
    run_step s (s\<lparr>lp_loop := Testing, lp_sessions := (lp_sessions s)(c \<mapsto> Serving)\<rparr>)"
| start_fails: "lp_loop s = Tracked c \<Longrightarrow> run_step s (s\<lparr>lp_loop := Crashed c\<rparr>)"
| closed: "lp_loop s = Closing \<Longrightarrow> run_step s (s\<lparr>lp_loop := Ended, lp_state := STOPPED\<rparr>)"

text \<open>
  \<open>_session_worker\<close>: the session ends, by returning or by any exception, and closes its connection; then the
  cleanup under the lock, then the release.
\<close>

inductive session_step :: "listen_pool \<Rightarrow> listen_pool \<Rightarrow> bool" where
  hang_up: "lp_sessions s c = Some Serving \<Longrightarrow>
    session_step s (s\<lparr>lp_sessions := (lp_sessions s)(c \<mapsto> Hung_up), lp_closed := insert c (lp_closed s)\<rparr>)"
| discard: "lp_sessions s c = Some Hung_up \<Longrightarrow>
    session_step s (s\<lparr>lp_sessions := (lp_sessions s)(c \<mapsto> Cleaned),
      lp_connections := lp_connections s - {c}, lp_handlers := lp_handlers s - {c}\<rparr>)"
| release: "lp_sessions s c = Some Cleaned \<Longrightarrow>
    session_step s (s\<lparr>lp_sessions := (lp_sessions s)(c \<mapsto> Gone), lp_free := Suc (lp_free s)\<rparr>)"

inductive close_step :: "listen_pool \<Rightarrow> listen_pool \<Rightarrow> bool" where
  clear: "lp_shut s = Not_closing \<Longrightarrow> close_step s (s\<lparr>lp_running := False, lp_shut := Cleared\<rparr>)"
| copy: "lp_shut s = Cleared \<Longrightarrow> close_step s (s\<lparr>lp_shut := Closing_down (lp_connections s)\<rparr>)"
| close: "lp_shut s = Closing_down C \<Longrightarrow> c \<in> C \<Longrightarrow>
    close_step s (s\<lparr>lp_closed := insert c (lp_closed s), lp_shut := Closing_down (C - {c})\<rparr>)"
| close_fails: "lp_shut s = Closing_down C \<Longrightarrow> c \<in> C \<Longrightarrow>
    close_step s (s\<lparr>lp_closed := insert c (lp_closed s), lp_shut := Given_up\<rparr>)"
| finished: "lp_shut s = Closing_down {} \<Longrightarrow> close_step s (s\<lparr>lp_shut := Closed_down\<rparr>)"

inductive listen_step :: "listen_pool \<Rightarrow> listen_pool \<Rightarrow> bool" where
  looping: "run_step s s' \<Longrightarrow> listen_step s s'"
| session: "session_step s s' \<Longrightarrow> listen_step s s'"
| closer: "close_step s s' \<Longrightarrow> listen_step s s'"

text \<open>\<open>active_session_count\<close>.\<close>

definition active_session_count :: "listen_pool \<Rightarrow> nat" where
  "active_session_count s = card (lp_connections s)"

text \<open>\<open>start_server\<close>: what it answers, and whether it starts the thread; \<open>waited\<close> is the answer of \<open>wait_for_startup\<close>.\<close>

definition start_server :: "bool \<Rightarrow> server_state \<Rightarrow> server_state \<Rightarrow> server_state \<times> bool" where
  "start_server alive state waited =
     (if alive then (waited, False)
      else if state \<in> {FAILED_TO_BIND, STOPPED} then (state, False)
      else (waited, True))"

inductive_cases listen_stepE: "listen_step s s'"

section \<open>Slots and registers\<close>

text \<open>The connection \<open>run\<close> holds a slot for, before the worker has it; a failed start keeps it for ever.\<close>

fun loop_slot :: "loop_phase \<Rightarrow> nat set" where
  "loop_slot (Admitted c) = {c}"
| "loop_slot (Tracked c) = {c}"
| "loop_slot (Crashed c) = {c}"
| "loop_slot _ = {}"

fun loop_registered :: "loop_phase \<Rightarrow> nat set" where
  "loop_registered (Tracked c) = {c}"
| "loop_registered (Crashed c) = {c}"
| "loop_registered _ = {}"

fun loop_connection :: "loop_phase \<Rightarrow> nat set" where
  "loop_connection (Accepted c) = {c}"
| "loop_connection p = loop_slot p"

definition session_holders :: "listen_pool \<Rightarrow> nat set" where
  "session_holders s = loop_slot (lp_loop s) \<union> in_phases (lp_sessions s) {Serving, Hung_up, Cleaned}"

fun state_fits :: "loop_phase \<Rightarrow> server_state \<Rightarrow> bool" where
  "state_fits Binding st \<longleftrightarrow> st = STARTING"
| "state_fits Ended st \<longleftrightarrow> st \<in> {STOPPED, FAILED_TO_BIND}"
| "state_fits _ st \<longleftrightarrow> st = LISTENING"

definition listen_inv :: "listen_pool \<Rightarrow> bool" where
  "listen_inv s \<longleftrightarrow>
     finite (session_holders s) \<and> lp_free s + card (session_holders s) = MAX_CONCURRENT_TRANSFER_SESSIONS
     \<and> lp_connections s = loop_registered (lp_loop s) \<union> in_phases (lp_sessions s) {Serving, Hung_up}
     \<and> lp_handlers s = lp_connections s
     \<and> (\<forall>c \<in> loop_connection (lp_loop s). lp_sessions s c = None \<and> c < lp_next s)
     \<and> (\<forall>c. lp_sessions s c \<noteq> None \<longrightarrow> c < lp_next s)
     \<and> state_fits (lp_loop s) (lp_state s)
     \<and> (lp_shut s \<noteq> Not_closing \<longrightarrow> \<not> lp_running s)"

lemma listen_pool_new_inv: "listen_inv listen_pool_new"
  by (simp add: listen_inv_def listen_pool_new_def session_holders_def in_phases_def)

lemma run_step_inv: "run_step s s' \<Longrightarrow> listen_inv s \<Longrightarrow> listen_inv s'"
  by (induction rule: run_step.induct)
     (auto simp: listen_inv_def session_holders_def in_phases_move in_phases_iff card_insert_if give_back insert_absorb
       simp del: card_Diff_insert)

lemma not_in_loop:
  assumes "listen_inv s" "lp_sessions s c = Some p"
  shows "c \<notin> loop_slot (lp_loop s)" "c \<notin> loop_registered (lp_loop s)" "c \<notin> loop_connection (lp_loop s)"
  using assms by (cases "lp_loop s"; auto simp: listen_inv_def)+

lemma session_inv: "session_step s s' \<Longrightarrow> listen_inv s \<Longrightarrow> listen_inv s'"
proof (induction rule: session_step.induct)
  case (hang_up s c)
  note out = not_in_loop [OF hang_up(2,1)]
  have "in_phases ((lp_sessions s)(c \<mapsto> Hung_up)) {Serving, Hung_up, Cleaned} = in_phases (lp_sessions s) {Serving, Hung_up, Cleaned}"
    "in_phases ((lp_sessions s)(c \<mapsto> Hung_up)) {Serving, Hung_up} = in_phases (lp_sessions s) {Serving, Hung_up}"
    using hang_up(1) by (auto simp: in_phases_def)
  then show ?case
    using hang_up out by (auto simp: listen_inv_def session_holders_def)
next
  case (discard s c)
  note out = not_in_loop [OF discard(2,1)]
  have "in_phases ((lp_sessions s)(c \<mapsto> Cleaned)) {Serving, Hung_up, Cleaned} = in_phases (lp_sessions s) {Serving, Hung_up, Cleaned}"
    using discard(1) by (auto simp: in_phases_def)
  then show ?case
    using discard out by (auto simp: listen_inv_def session_holders_def in_phases_move in_phases_iff)
next
  case (release s c)
  note out = not_in_loop [OF release(2,1)]
  let ?A = "session_holders s"
  have "c \<in> ?A" using release(1) by (simp add: session_holders_def in_phases_iff)
  moreover have "loop_slot (lp_loop s) \<union> in_phases ((lp_sessions s)(c \<mapsto> Gone)) {Serving, Hung_up, Cleaned} = ?A - {c}"
    using out(1) by (auto simp: session_holders_def in_phases_move)
  moreover have "in_phases ((lp_sessions s)(c \<mapsto> Gone)) {Serving, Hung_up} = in_phases (lp_sessions s) {Serving, Hung_up}"
    using release(1) by (auto simp: in_phases_def)
  ultimately have "session_holders (s\<lparr>lp_sessions := (lp_sessions s)(c \<mapsto> Gone), lp_free := Suc (lp_free s)\<rparr>) = ?A - {c}"
    "Suc (lp_free s) + card (?A - {c}) = MAX_CONCURRENT_TRANSFER_SESSIONS"
    and same: "in_phases ((lp_sessions s)(c \<mapsto> Gone)) {Serving, Hung_up} = in_phases (lp_sessions s) {Serving, Hung_up}"
    using release(2) give_back [of ?A c "lp_free s"] by (simp_all add: listen_inv_def session_holders_def del: card_Diff_insert)
  moreover have "c < lp_next s" using release by (simp add: listen_inv_def)
  ultimately show ?case
    using release(2) out(3) by (simp add: listen_inv_def del: card_Diff_insert) blast
qed

lemma close_inv: "close_step s s' \<Longrightarrow> listen_inv s \<Longrightarrow> listen_inv s'"
  by (induction rule: close_step.induct) (auto simp: listen_inv_def session_holders_def)

lemma listen_step_inv: "listen_inv s \<Longrightarrow> listen_step s s' \<Longrightarrow> listen_inv s'"
  by (auto elim!: listen_stepE intro: run_step_inv session_inv close_inv)

interpretation sessions: slot_pool listen_step listen_inv lp_free session_holders MAX_CONCURRENT_TRANSFER_SESSIONS
  by unfold_locales (rule listen_step_inv, assumption+, simp add: listen_inv_def)

lemma connections_hold_slots: "listen_inv s \<Longrightarrow> lp_connections s \<subseteq> session_holders s"
  by (cases "lp_loop s") (auto simp: listen_inv_def session_holders_def in_phases_def)

lemma sessions_bounded:
  assumes "listen_step\<^sup>*\<^sup>* listen_pool_new s"
  shows "active_session_count s \<le> MAX_CONCURRENT_TRANSFER_SESSIONS"
proof -
  have inv: "listen_inv s" by (rule sessions.reach_inv [OF assms listen_pool_new_inv])
  have "card (lp_connections s) \<le> card (session_holders s)"
    using connections_hold_slots [OF inv] inv by (intro card_mono) (auto simp: listen_inv_def)
  with sessions.bounded [OF assms listen_pool_new_inv] show ?thesis by (simp add: active_session_count_def)
qed

section \<open>The end of the listener\<close>

text \<open>A listener that has ended stays so, and \<open>start_server\<close> starts no new thread.\<close>

lemma ended_for_good:
  assumes "listen_step\<^sup>*\<^sup>* listen_pool_new s" "lp_state s \<in> {STOPPED, FAILED_TO_BIND}" "listen_step\<^sup>*\<^sup>* s s'"
  shows "lp_state s' = lp_state s \<and> lp_loop s' = Ended"
proof -
  have inv: "listen_inv s" by (rule sessions.reach_inv [OF assms(1) listen_pool_new_inv])
  have "lp_loop s = Ended" using inv assms(2) by (cases "lp_loop s") (auto simp: listen_inv_def)
  then have "lp_state s = lp_state s \<and> lp_loop s = Ended" by simp
  with assms(3) inv show ?thesis
    by (rule sessions.reach_stable [where P = "\<lambda>t. lp_state t = lp_state s \<and> lp_loop t = Ended"])
       (auto elim!: listen_stepE run_step.cases session_step.cases close_step.cases)
qed

text \<open>
  A worker thread that cannot be started ends the accept loop: the state still says LISTENING, the slot and
  the register entries of the connection are never given back.
\<close>

lemma crash_is_final:
  assumes "listen_inv s" "lp_loop s = Crashed c" "listen_step\<^sup>*\<^sup>* s s'"
  shows "lp_loop s' = Crashed c \<and> lp_state s' = LISTENING \<and> c \<in> lp_connections s'
    \<and> lp_free s' < MAX_CONCURRENT_TRANSFER_SESSIONS"
proof -
  have crashed: "lp_loop s' = Crashed c"
    using assms(3,1,2)
    by (rule sessions.reach_stable) (auto elim!: listen_stepE run_step.cases session_step.cases close_step.cases)
  have "listen_inv s'" by (rule sessions.reach_inv [OF assms(3,1)])
  moreover have "c \<in> session_holders s'" using crashed by (simp add: session_holders_def)
  ultimately show ?thesis
    using crashed sessions.release_fits [OF assms(3,1)] by (auto simp: listen_inv_def)
qed

text \<open>Nothing but that start has to fail.\<close>

lemma crash_happens: "\<exists>s. listen_step\<^sup>*\<^sup>* listen_pool_new s \<and> lp_loop s = Crashed 0"
proof -
  let ?s0 = listen_pool_new
  let ?s1 = "?s0\<lparr>lp_loop := Testing, lp_state := LISTENING\<rparr>"
  let ?s2 = "?s1\<lparr>lp_loop := Waiting\<rparr>"
  let ?s3 = "?s2\<lparr>lp_loop := Accepted 0, lp_next := Suc 0\<rparr>"
  let ?s4 = "?s3\<lparr>lp_loop := Admitted 0, lp_free := 7\<rparr>"
  let ?s5 = "?s4\<lparr>lp_loop := Tracked 0, lp_connections := insert 0 (lp_connections ?s4),
    lp_handlers := insert 0 (lp_handlers ?s4)\<rparr>"
  let ?s6 = "?s5\<lparr>lp_loop := Crashed 0\<rparr>"
  note new = listen_pool_new_def MAX_CONCURRENT_TRANSFER_SESSIONS_def
  have "listen_step ?s0 ?s1" by (intro looping bound) (simp add: new)
  moreover have "listen_step ?s1 ?s2" by (intro looping go_on) (simp_all add: new)
  moreover have "listen_step ?s2 ?s3" by (intro looping accept) (simp_all add: new)
  moreover have "listen_step ?s3 ?s4" by (intro looping admit) (simp_all add: new)
  moreover have "listen_step ?s4 ?s5" by (intro looping track) simp
  moreover have "listen_step ?s5 ?s6" by (intro looping run_step.start_fails) simp
  ultimately have "listen_step\<^sup>*\<^sup>* ?s0 ?s6" by (meson rtranclp.rtrancl_into_rtrancl rtranclp.rtrancl_refl)
  then show ?thesis by (intro exI [of _ ?s6]) simp
qed

section \<open>Shutting down\<close>

text \<open>
  After \<open>shutdown\<close> is through, a session is still served on an open connection only if its connection was
  accepted but not yet registered when \<open>shutdown\<close> copied the connections.
\<close>

fun to_close :: "closing_phase \<Rightarrow> nat set" where
  "to_close Cleared = UNIV"
| "to_close (Closing_down C) = C"
| "to_close Given_up = UNIV"
| "to_close _ = {}"

definition all_closed :: "listen_pool \<Rightarrow> bool" where
  "all_closed s \<longleftrightarrow>
     lp_shut s \<noteq> Not_closing \<and> lp_loop s \<in> {Testing, Closing, Ended} \<and> lp_connections s \<subseteq> lp_closed s \<union> to_close (lp_shut s)"

lemma listen_step_closed: "listen_inv s \<Longrightarrow> all_closed s \<Longrightarrow> listen_step s s' \<Longrightarrow> all_closed s'"
  by (erule listen_stepE; erule run_step.cases session_step.cases close_step.cases)
     (auto simp: all_closed_def listen_inv_def)

lemma shutdown_closes:
  assumes "listen_step\<^sup>*\<^sup>* listen_pool_new s" "lp_shut s = Cleared" "lp_loop s \<in> {Testing, Closing, Ended}"
    and "listen_step\<^sup>*\<^sup>* s s'" "lp_shut s' = Closed_down"
  shows "lp_connections s' \<subseteq> lp_closed s'"
proof -
  have inv: "listen_inv s" by (rule sessions.reach_inv [OF assms(1) listen_pool_new_inv])
  have "all_closed s" using assms(2,3) by (simp add: all_closed_def)
  with assms(4) inv have "all_closed s'" by (rule sessions.reach_stable) (rule listen_step_closed)
  then show ?thesis using assms(5) by (simp add: all_closed_def)
qed

section \<open>Connections that slip through\<close>

text \<open>Nobody has closed a connection that \<open>run\<close> has accepted and not registered.\<close>

fun copied_connections :: "closing_phase \<Rightarrow> nat set" where
  "copied_connections (Closing_down C) = C"
| "copied_connections _ = {}"

fun loop_unregistered :: "loop_phase \<Rightarrow> nat set" where
  "loop_unregistered (Accepted c) = {c}"
| "loop_unregistered (Admitted c) = {c}"
| "loop_unregistered _ = {}"

definition early_open :: "listen_pool \<Rightarrow> bool" where
  "early_open s \<longleftrightarrow>
     (\<forall>c. c \<in> loop_unregistered (lp_loop s) \<or> lp_next s \<le> c \<longrightarrow> c \<notin> lp_closed s \<union> copied_connections (lp_shut s))"

lemma unregistered_connection: "c \<in> loop_unregistered p \<Longrightarrow> c \<in> loop_connection p \<and> c \<notin> loop_registered p"
  by (cases p) auto

lemma connections_below: "listen_inv s \<Longrightarrow> c \<in> lp_connections s \<Longrightarrow> c < lp_next s \<and> c \<notin> loop_unregistered (lp_loop s)"
  by (cases "lp_loop s") (auto simp: listen_inv_def in_phases_def)

lemma run_step_open: "run_step s s' \<Longrightarrow> listen_inv s \<Longrightarrow> early_open s \<Longrightarrow> early_open s'"
  by (induction rule: run_step.induct) (auto simp: early_open_def listen_inv_def)

lemma session_step_open: "session_step s s' \<Longrightarrow> listen_inv s \<Longrightarrow> early_open s \<Longrightarrow> early_open s'"
  by (induction rule: session_step.induct)
     (auto simp: early_open_def listen_inv_def dest!: unregistered_connection)

lemma close_step_open: "close_step s s' \<Longrightarrow> listen_inv s \<Longrightarrow> early_open s \<Longrightarrow> early_open s'"
  by (induction rule: close_step.induct) (auto simp: early_open_def dest: connections_below)

lemma reached_open:
  assumes "listen_step\<^sup>*\<^sup>* listen_pool_new s"
  shows "early_open s"
proof -
  have "early_open listen_pool_new" by (simp add: early_open_def listen_pool_new_def)
  with assms listen_pool_new_inv show ?thesis
    by (rule sessions.reach_stable) (auto elim!: listen_stepE intro: run_step_open session_step_open close_step_open)
qed

text \<open>
  Such a connection goes on when \<open>shutdown\<close> is through: its session can be served, and nothing has closed it.
\<close>

lemma admitted_goes_on:
  assumes "lp_loop s = Admitted c"
  shows "\<exists>s'. listen_step\<^sup>*\<^sup>* s s' \<and> lp_sessions s' c = Some Serving \<and> lp_closed s' = lp_closed s \<and> lp_shut s' = lp_shut s"
proof -
  let ?s1 = "s\<lparr>lp_loop := Tracked c, lp_connections := insert c (lp_connections s), lp_handlers := insert c (lp_handlers s)\<rparr>"
  let ?s2 = "?s1\<lparr>lp_loop := Testing, lp_sessions := (lp_sessions ?s1)(c \<mapsto> Serving)\<rparr>"
  have "listen_step s ?s1" by (intro looping track assms)
  moreover have "listen_step ?s1 ?s2" by (intro looping started) simp
  ultimately have "listen_step\<^sup>*\<^sup>* s ?s2" by (meson rtranclp.rtrancl_into_rtrancl rtranclp.rtrancl_refl)
  then show ?thesis by (intro exI [of _ ?s2]) simp
qed

lemma accepted_slips_through:
  assumes "listen_step\<^sup>*\<^sup>* listen_pool_new s" "lp_shut s = Closed_down"
    and "lp_loop s = Admitted c \<or> lp_loop s = Accepted c \<and> 0 < lp_free s"
  shows "\<exists>s'. listen_step\<^sup>*\<^sup>* s s' \<and> lp_shut s' = Closed_down \<and> lp_sessions s' c = Some Serving \<and> c \<notin> lp_closed s'"
proof -
  have unclosed: "c \<notin> lp_closed s" using reached_open [OF assms(1)] assms(3) by (auto simp: early_open_def)
  from assms(3) show ?thesis
  proof
    assume "lp_loop s = Admitted c"
    from admitted_goes_on [OF this] unclosed assms(2) show ?thesis by metis
  next
    assume c: "lp_loop s = Accepted c \<and> 0 < lp_free s"
    then obtain n where n: "lp_free s = Suc n" by (meson gr0_implies_Suc)
    let ?s1 = "s\<lparr>lp_loop := Admitted c, lp_free := n\<rparr>"
    have "listen_step s ?s1" using c n by (intro looping admit) simp_all
    moreover obtain s' where "listen_step\<^sup>*\<^sup>* ?s1 s'" "lp_sessions s' c = Some Serving" "lp_closed s' = lp_closed s"
      "lp_shut s' = lp_shut s"
      using admitted_goes_on [of ?s1 c] by auto
    ultimately show ?thesis using unclosed assms(2) by (metis converse_rtranclp_into_rtranclp)
  qed
qed

text \<open>Such a connection exists.\<close>

lemma accepted_in_between:
  "\<exists>s. listen_step\<^sup>*\<^sup>* listen_pool_new s \<and> lp_shut s = Closed_down \<and> lp_loop s = Accepted 0 \<and> 0 < lp_free s"
proof -
  let ?s0 = listen_pool_new
  let ?s1 = "?s0\<lparr>lp_loop := Testing, lp_state := LISTENING\<rparr>"
  let ?s2 = "?s1\<lparr>lp_loop := Waiting\<rparr>"
  let ?s3 = "?s2\<lparr>lp_loop := Accepted 0, lp_next := Suc 0\<rparr>"
  let ?s4 = "?s3\<lparr>lp_running := False, lp_shut := Cleared\<rparr>"
  let ?s5 = "?s4\<lparr>lp_shut := Closing_down (lp_connections ?s4)\<rparr>"
  let ?s6 = "?s5\<lparr>lp_shut := Closed_down\<rparr>"
  note new = listen_pool_new_def MAX_CONCURRENT_TRANSFER_SESSIONS_def
  have "listen_step ?s0 ?s1" by (intro looping bound) (simp add: new)
  moreover have "listen_step ?s1 ?s2" by (intro looping go_on) (simp_all add: new)
  moreover have "listen_step ?s2 ?s3" by (intro looping accept) (simp_all add: new)
  moreover have "listen_step ?s3 ?s4" by (intro closer clear) (simp add: new)
  moreover have "listen_step ?s4 ?s5" by (intro closer close_step.copy) simp
  moreover have "listen_step ?s5 ?s6" by (intro closer finished) (simp add: new)
  ultimately have "listen_step\<^sup>*\<^sup>* ?s0 ?s6" by (meson rtranclp.rtrancl_into_rtrancl rtranclp.rtrancl_refl)
  then show ?thesis by (intro exI [of _ ?s6]) (simp add: new)
qed

end
