(* ===== verification/LocalAddress.thy ===== *)
theory LocalAddress
  imports Prelude Ipaddress "HOL-Library.Product_Lexorder"
begin

text \<open>
  \<open>core/local_address.py\<close>: the choice of the IPv4 address that is shown to the user. What \<open>psutil\<close> says about
  the interfaces and what the operating system would route are arguments. The ranges are those of
  \<open>ipaddress\<close> in CPython 3.12.
\<close>

section \<open>Ranges\<close>

fun usable_octets :: "nat list \<Rightarrow> bool" where
  "usable_octets [a, b, c, d] \<longleftrightarrow> a \<noteq> 127 \<and> \<not> (a = 169 \<and> b = 254) \<and> [a, b, c, d] \<noteq> [0, 0, 0, 0]"
| "usable_octets _ \<longleftrightarrow> False"

definition is_usable :: "string \<Rightarrow> bool" where
  "is_usable s \<longleftrightarrow> (case ipv4_parse s of None \<Rightarrow> False | Some os \<Rightarrow> usable_octets os)"

text \<open>\<open>IPv4Address.is_private\<close>.\<close>

fun private_octets :: "nat list \<Rightarrow> bool" where
  "private_octets [a, b, c, d] \<longleftrightarrow>
     a \<in> {0, 10, 127} \<or> (a = 169 \<and> b = 254) \<or> (a = 172 \<and> 16 \<le> b \<and> b \<le> 31) \<or> (a = 192 \<and> b = 168)
     \<or> (a = 192 \<and> b = 0 \<and> c = 0 \<and> d \<notin> {9, 10}) \<or> (a = 192 \<and> b = 0 \<and> c = 2) \<or> (a = 198 \<and> b \<in> {18, 19})
     \<or> (a = 198 \<and> b = 51 \<and> c = 100) \<or> (a = 203 \<and> b = 0 \<and> c = 113) \<or> 240 \<le> a"
| "private_octets _ \<longleftrightarrow> False"

definition is_private :: "string \<Rightarrow> bool" where
  "is_private s \<longleftrightarrow> (case ipv4_parse s of None \<Rightarrow> False | Some os \<Rightarrow> private_octets os)"

section \<open>Interfaces\<close>

record local_ipv4 =
  li_interface :: string
  li_address :: string

text \<open>
  \<open>net_if_addrs\<close>: per interface whether each address is of the family AF_INET, and its text;
  \<open>net_if_stats\<close>: whether the interface is up, when there is an entry.
\<close>

definition add_address :: "string \<Rightarrow> bool \<times> string \<Rightarrow> (string, local_ipv4) dict \<Rightarrow> (string, local_ipv4) dict" where
  "add_address name entry found =
     (if \<not> fst entry \<or> \<not> is_usable (snd entry) \<or> dict_get found (snd entry) \<noteq> None then found
      else found @ [(snd entry, \<lparr>li_interface = name, li_address = snd entry\<rparr>)])"

definition add_interface ::
  "(string \<Rightarrow> bool option) \<Rightarrow> string \<times> (bool \<times> string) list \<Rightarrow> (string, local_ipv4) dict \<Rightarrow> (string, local_ipv4) dict" where
  "add_interface stats i found =
     (if stats (fst i) = Some False then found else fold (add_address (fst i)) (snd i) found)"

definition usable_local_ipv4_interfaces ::
  "(string \<times> (bool \<times> string) list) list \<Rightarrow> (string \<Rightarrow> bool option) \<Rightarrow> local_ipv4 list" where
  "usable_local_ipv4_interfaces addrs stats =
     sort_key (\<lambda>i. (li_interface i, li_address i)) (map snd (fold (add_interface stats) addrs []))"

section \<open>Choice\<close>

definition address_rank :: "local_ipv4 \<Rightarrow> nat \<times> string \<times> string" where
  "address_rank i = (if is_private (li_address i) then 0 else 1, li_interface i, li_address i)"

definition select_local_ipv4 :: "local_ipv4 list \<Rightarrow> string option \<Rightarrow> string option" where
  "select_local_ipv4 candidates preferred =
     (let usable = filter (is_usable \<circ> li_address) candidates in
      case preferred of
        Some p \<Rightarrow>
          if p \<noteq> [] \<and> is_usable p \<and> p \<in> set (map li_address usable) then Some p
          else if usable = [] then None else Some (li_address (arg_min_list address_rank usable))
      | None \<Rightarrow> if usable = [] then None else Some (li_address (arg_min_list address_rank usable)))"

text \<open>The address of a connected datagram socket, \<open>None\<close> where that fails.\<close>

definition default_route_ipv4 :: "string option \<Rightarrow> string option" where
  "default_route_ipv4 probe = (case probe of Some a \<Rightarrow> if is_usable a then Some a else None | None \<Rightarrow> None)"

definition primary_local_ipv4 ::
  "(string \<times> (bool \<times> string) list) list \<Rightarrow> (string \<Rightarrow> bool option) \<Rightarrow> string option \<Rightarrow> string option" where
  "primary_local_ipv4 addrs stats probe =
     select_local_ipv4 (usable_local_ipv4_interfaces addrs stats) (default_route_ipv4 probe)"

section \<open>The interfaces that are found\<close>

definition found_ok :: "(string \<times> (bool \<times> string) list) list \<Rightarrow> (string \<Rightarrow> bool option) \<Rightarrow> (string, local_ipv4) dict \<Rightarrow> bool" where
  "found_ok addrs stats found \<longleftrightarrow>
     distinct (map fst found)
     \<and> (\<forall>(a, i) \<in> set found. li_address i = a \<and> is_usable a \<and> stats (li_interface i) \<noteq> Some False
          \<and> (\<exists>es. (li_interface i, es) \<in> set addrs \<and> (True, a) \<in> set es))"

lemma add_address_ok:
  "found_ok addrs stats found \<Longrightarrow> stats name \<noteq> Some False \<Longrightarrow> (name, es) \<in> set addrs \<Longrightarrow> e \<in> set es \<Longrightarrow>
   found_ok addrs stats (add_address name e found)"
  by (cases e) (auto simp: found_ok_def add_address_def map_of_eq_None_iff)

lemma add_addresses_ok:
  "found_ok addrs stats found \<Longrightarrow> stats name \<noteq> Some False \<Longrightarrow> (name, es) \<in> set addrs \<Longrightarrow> set xs \<subseteq> set es \<Longrightarrow>
   found_ok addrs stats (fold (add_address name) xs found)"
  by (induction xs arbitrary: found) (simp_all add: add_address_ok)

lemma interfaces_ok:
  "found_ok addrs stats found \<Longrightarrow> set xs \<subseteq> set addrs \<Longrightarrow> found_ok addrs stats (fold (add_interface stats) xs found)"
proof (induction xs arbitrary: found)
  case (Cons x xs)
  then have "found_ok addrs stats (add_interface stats x found)"
    using add_addresses_ok [of addrs stats found "fst x" "snd x" "snd x"] by (simp add: add_interface_def)
  then show ?case using Cons by simp
qed simp

lemma usable_interfaces:
  assumes "i \<in> set (usable_local_ipv4_interfaces addrs stats)"
  shows "is_usable (li_address i) \<and> stats (li_interface i) \<noteq> Some False
    \<and> (\<exists>es. (li_interface i, es) \<in> set addrs \<and> (True, li_address i) \<in> set es)"
proof -
  have "found_ok addrs stats (fold (add_interface stats) addrs [])"
    by (rule interfaces_ok) (simp_all add: found_ok_def)
  then show ?thesis using assms by (fastforce simp: usable_local_ipv4_interfaces_def found_ok_def)
qed

lemma added_addresses:
  "fst ` set (fold (add_address name) xs found) = fst ` set found \<union> {a. (True, a) \<in> set xs \<and> is_usable a}"
proof (induction xs arbitrary: found)
  case (Cons x xs)
  have "fst ` set (add_address name x found) = fst ` set found \<union> {a. x = (True, a) \<and> is_usable a}"
    by (cases x) (auto simp: add_address_def map_of_eq_None_iff image_iff)
  then show ?case by (auto simp: Cons)
qed simp

lemma found_addresses:
  "fst ` set (fold (add_interface stats) addrs found) =
   fst ` set found \<union> {a. is_usable a \<and> (\<exists>name es. (name, es) \<in> set addrs \<and> stats name \<noteq> Some False \<and> (True, a) \<in> set es)}"
proof (induction addrs arbitrary: found)
  case (Cons i addrs)
  have "fst ` set (add_interface stats i found) =
      fst ` set found \<union> {a. is_usable a \<and> stats (fst i) \<noteq> Some False \<and> (True, a) \<in> set (snd i)}"
    by (auto simp: add_interface_def added_addresses)
  then show ?case by (auto simp: Cons) (metis prod.collapse)+
qed simp

lemma usable_addresses:
  "li_address ` set (usable_local_ipv4_interfaces addrs stats) =
   {a. is_usable a \<and> (\<exists>name es. (name, es) \<in> set addrs \<and> stats name \<noteq> Some False \<and> (True, a) \<in> set es)}"
proof -
  have "found_ok addrs stats (fold (add_interface stats) addrs [])"
    by (rule interfaces_ok) (simp_all add: found_ok_def)
  then have "li_address ` snd ` set (fold (add_interface stats) addrs []) = fst ` set (fold (add_interface stats) addrs [])"
    by (force simp: found_ok_def image_iff)
  then show ?thesis by (simp add: usable_local_ipv4_interfaces_def found_addresses)
qed

section \<open>The choice that is made\<close>

lemma select_cases:
  "select_local_ipv4 cs p =
     (let usable = filter (is_usable \<circ> li_address) cs in
      if p \<in> Some ` set (map li_address usable) \<and> p \<noteq> Some [] then p
      else if usable = [] then None else Some (li_address (arg_min_list address_rank usable)))"
  by (cases p) (auto simp: select_local_ipv4_def Let_def)

text \<open>The rank tells two candidates apart, so the order in which they are listed does not matter.\<close>

lemma rank_inj: "address_rank (i :: local_ipv4) = address_rank j \<Longrightarrow> i = j"
  by (simp add: address_rank_def)

lemma least_unique:
  assumes "xs \<noteq> []" "set xs = set ys"
  shows "arg_min_list address_rank xs = arg_min_list address_rank (ys :: local_ipv4 list)"
proof -
  have "ys \<noteq> []" using assms by auto
  then have "address_rank (arg_min_list address_rank xs) = address_rank (arg_min_list address_rank ys)"
    using assms arg_min_list_in [of xs address_rank] arg_min_list_in [of ys address_rank]
    by (simp add: f_arg_min_list_f)
  then show ?thesis by (rule rank_inj)
qed

lemma least_rank:
  fixes xs :: "local_ipv4 list"
  assumes "xs \<noteq> []"
  shows "arg_min_list address_rank xs \<in> set xs"
    and "i \<in> set xs \<Longrightarrow> address_rank (arg_min_list address_rank xs) \<le> address_rank i"
  by (rule arg_min_list_in [OF assms]) (simp add: f_arg_min_list_f [OF assms, of address_rank])

lemma select_by_set: "set cs = set ds \<Longrightarrow> select_local_ipv4 cs p = select_local_ipv4 (ds :: local_ipv4 list) p"
proof -
  assume eq: "set cs = set ds"
  let ?u = "filter (is_usable \<circ> li_address)"
  have u: "set (?u cs) = set (?u ds)" using eq by auto
  then have "?u cs = [] \<longleftrightarrow> ?u ds = []" by (metis set_empty)
  with u least_unique [OF _ u] show ?thesis
    unfolding select_cases Let_def list.set_map by (cases "?u cs = []") simp_all
qed

lemma select_sound:
  assumes "select_local_ipv4 cs p = Some a"
  shows "is_usable a \<and> a \<in> set (map li_address cs)
    \<and> (p \<noteq> Some a \<longrightarrow> is_private a \<or> (\<forall>i \<in> set cs. is_usable (li_address i) \<longrightarrow> \<not> is_private (li_address i)))"
proof -
  let ?u = "filter (is_usable \<circ> li_address) cs"
  show ?thesis
  proof (cases "p = Some a")
    case True
    then show ?thesis using assms least_rank(1) [of ?u] by (auto simp: select_cases Let_def split: if_splits)
  next
    case False
    then have u: "?u \<noteq> []" "a = li_address (arg_min_list address_rank ?u)"
      using assms by (auto simp: select_cases Let_def split: if_splits)
    have "\<not> is_private (li_address i)" if "i \<in> set ?u" "\<not> is_private a" for i
      using least_rank(2) [OF u(1) that(1)] that(2) u(2) by (auto simp: address_rank_def split: if_splits)
    with least_rank(1) [OF u(1)] u(2) show ?thesis by auto
  qed
qed

lemma select_complete: "select_local_ipv4 cs p = None \<longleftrightarrow> (\<forall>i \<in> set cs. \<not> is_usable (li_address i))"
  by (auto simp: select_cases Let_def filter_empty_conv)

lemma select_prefers: "is_usable a \<Longrightarrow> a \<in> set (map li_address cs) \<Longrightarrow> select_local_ipv4 cs (Some a) = Some a"
  by (cases "a = []") (auto simp: select_cases is_usable_def ipv4_parse_def)

end
