(* ===== verification/AtomicWrite.thy ===== *)
theory AtomicWrite
  imports Slots AddressBook Session
begin

text \<open>
  How the small documents reach the disk: \<open>_atomic_write\<close> of \<open>core/identity.py\<close> and the same sequence of calls at the
  end of \<open>TrustStore._save\<close> and \<open>AddressBook._save\<close>, one system call at a time, so that a crash may fall
  between any two of them. The stores are then reloaded from what is left, and the identity from what a start
  that did not finish has written.
\<close>

section \<open>Replacing a file\<close>

record stored_file =
  sf_mode :: nat
  sf_data :: bytes

type_synonym directory = "string \<Rightarrow> stored_file option"

text \<open>
  Before the temporary file, writing it, synced, restricted to \<open>mode\<close>, in the handler of \<open>OSError\<close>; returned, raised
  with the temporary file removed, raised by the removal itself.
\<close>

datatype write_phase =
    To_create
  | Filling
  | Synced
  | Restricted
  | Removing
  | Replaced
  | Given_up
  | Not_removed

record file_writer =
  fw_phase :: write_phase
  fw_temp :: "string option"
  fw_dir :: directory

definition writer_start :: "directory \<Rightarrow> file_writer" where
  "writer_start d = \<lparr>fw_phase = To_create, fw_temp = None, fw_dir = d\<rparr>"

text \<open>\<open>mkstemp(prefix=f".{path.name}.")\<close>: \<open>rnd\<close> is the random part; the file is created exclusively, with mode 0600.\<close>

definition temporary_name :: "string \<Rightarrow> string \<Rightarrow> string" where
  "temporary_name name rnd = CHR ''.'' # name @ CHR ''.'' # rnd"

definition OWNER_ONLY :: nat where
  "OWNER_ONLY = 6 * 64"

text \<open>
  One call of the routine, each with its failure; \<open>other_file\<close> is another thread or process at work in the same
  directory on files that are neither the target nor the temporary file. A crash, or an exception that is
  no \<open>OSError\<close>, is a run that goes no further.
\<close>

inductive atomic_write_step :: "string \<Rightarrow> bytes \<Rightarrow> nat \<Rightarrow> file_writer \<Rightarrow> file_writer \<Rightarrow> bool"
  for name :: string and data :: bytes and mode :: nat where
  cannot_create:
    "fw_phase w = To_create \<Longrightarrow> atomic_write_step name data mode w (w\<lparr>fw_phase := Given_up\<rparr>)"
| create:
    "fw_phase w = To_create \<Longrightarrow> t = temporary_name name rnd \<Longrightarrow> fw_dir w t = None \<Longrightarrow>
     atomic_write_step name data mode w
       \<lparr>fw_phase = Filling, fw_temp = Some t, fw_dir = (fw_dir w)(t \<mapsto> \<lparr>sf_mode = OWNER_ONLY, sf_data = []\<rparr>)\<rparr>"
| fill:
    "fw_phase w = Filling \<Longrightarrow> fw_temp w = Some t \<Longrightarrow> fw_dir w t = Some f \<Longrightarrow> length (sf_data f) \<le> k \<Longrightarrow>
     atomic_write_step name data mode w (w\<lparr>fw_dir := (fw_dir w)(t \<mapsto> f\<lparr>sf_data := take k data\<rparr>)\<rparr>)"
| sync:
    "fw_phase w = Filling \<Longrightarrow> fw_temp w = Some t \<Longrightarrow> fw_dir w t = Some f \<Longrightarrow> length data \<le> length (sf_data f) \<Longrightarrow>
     atomic_write_step name data mode w (w\<lparr>fw_phase := Synced\<rparr>)"
| restrict:
    "fw_phase w = Synced \<Longrightarrow> fw_temp w = Some t \<Longrightarrow> fw_dir w t = Some f \<Longrightarrow>
     atomic_write_step name data mode w
       (w\<lparr>fw_phase := Restricted, fw_dir := (fw_dir w)(t \<mapsto> f\<lparr>sf_mode := mode\<rparr>)\<rparr>)"
| replace:
    "fw_phase w = Restricted \<Longrightarrow> fw_temp w = Some t \<Longrightarrow> fw_dir w t = Some f \<Longrightarrow>
     atomic_write_step name data mode w
       (w\<lparr>fw_phase := Replaced, fw_dir := (fw_dir w)(t := None, name \<mapsto> f)\<rparr>)"
| os_error:
    "fw_phase w \<in> {Filling, Synced, Restricted} \<Longrightarrow>
     atomic_write_step name data mode w (w\<lparr>fw_phase := Removing\<rparr>)"
| unlink:
    "fw_phase w = Removing \<Longrightarrow> fw_temp w = Some t \<Longrightarrow>
     atomic_write_step name data mode w (w\<lparr>fw_phase := Given_up, fw_dir := (fw_dir w)(t := None)\<rparr>)"
| cannot_unlink:
    "fw_phase w = Removing \<Longrightarrow> atomic_write_step name data mode w (w\<lparr>fw_phase := Not_removed\<rparr>)"
| other_file:
    "n \<noteq> name \<Longrightarrow> fw_temp w \<noteq> Some n \<Longrightarrow>
     atomic_write_step name data mode w (w\<lparr>fw_dir := (fw_dir w)(n := v)\<rparr>)"

section \<open>Old or new, never torn\<close>

text \<open>What is under the temporary name in each phase.\<close>

definition temporary_ok :: "bytes \<Rightarrow> nat \<Rightarrow> write_phase \<Rightarrow> stored_file option \<Rightarrow> bool" where
  "temporary_ok data mode p v \<longleftrightarrow>
     (case p of
        Filling \<Rightarrow> (\<exists>k. v = Some \<lparr>sf_mode = OWNER_ONLY, sf_data = take k data\<rparr>)
      | Synced \<Rightarrow> v = Some \<lparr>sf_mode = OWNER_ONLY, sf_data = data\<rparr>
      | Restricted \<Rightarrow> v = Some \<lparr>sf_mode = mode, sf_data = data\<rparr>
      | Removing \<Rightarrow> (\<exists>f. v = Some f \<and> sf_mode f \<in> {OWNER_ONLY, mode})
      | Not_removed \<Rightarrow> (\<exists>f. v = Some f \<and> sf_mode f \<in> {OWNER_ONLY, mode})
      | _ \<Rightarrow> v = None)"

definition writer_inv :: "string \<Rightarrow> bytes \<Rightarrow> nat \<Rightarrow> stored_file option \<Rightarrow> file_writer \<Rightarrow> bool" where
  "writer_inv name data mode old w \<longleftrightarrow>
     (case fw_temp w of
        None \<Rightarrow> fw_phase w \<in> {To_create, Given_up}
      | Some t \<Rightarrow> t \<noteq> name \<and> fw_phase w \<noteq> To_create \<and> temporary_ok data mode (fw_phase w) (fw_dir w t))
     \<and> fw_dir w name = (if fw_phase w = Replaced then Some \<lparr>sf_mode = mode, sf_data = data\<rparr> else old)"

lemma temporary_not_name [simp]: "temporary_name name rnd \<noteq> name" "name \<noteq> temporary_name name rnd"
proof -
  have "length (temporary_name name rnd) \<noteq> length name" by (simp add: temporary_name_def)
  then show "temporary_name name rnd \<noteq> name" "name \<noteq> temporary_name name rnd" by force+
qed

lemma writer_start_inv: "writer_inv name data mode (d name) (writer_start d)"
  by (simp add: writer_inv_def writer_start_def)

lemma atomic_write_step_inv:
  "atomic_write_step name data mode w w' \<Longrightarrow> writer_inv name data mode old w \<Longrightarrow> writer_inv name data mode old w'"
proof (induction rule: atomic_write_step.induct)
  case (create w t rnd)
  then show ?case by (auto simp: writer_inv_def temporary_ok_def intro: exI [of _ 0] split: option.splits)
next
  case (os_error w)
  then show ?case by (auto simp: writer_inv_def temporary_ok_def split: option.splits)
next
  case (other_file n w v)
  then show ?case by (auto simp: writer_inv_def split: option.splits)
qed (auto simp: writer_inv_def temporary_ok_def split: option.splits)

interpretation writes: transition_system "atomic_write_step name data mode" "writer_inv name data mode old"
  for name data mode old
  by unfold_locales (rule atomic_write_step_inv)

text \<open>At every moment the name shows the old file or the complete new one.\<close>

lemma old_or_new:
  "(atomic_write_step name data mode)\<^sup>*\<^sup>* (writer_start d) w \<Longrightarrow>
   fw_dir w name = (if fw_phase w = Replaced then Some \<lparr>sf_mode = mode, sf_data = data\<rparr> else d name)"
  using writes.reach_inv [OF _ writer_start_inv] by (auto simp: writer_inv_def)

section \<open>The stores on such a file\<close>

text \<open>
  The text of a document is a parameter, as is what reading it gives; \<open>json.dumps(..., sort_keys=True)\<close> is only used
  through what \<open>json.loads\<close> makes of its result, the document with sorted keys.
\<close>

definition shown_document :: "(bytes \<Rightarrow> json file_read) \<Rightarrow> string \<Rightarrow> directory \<Rightarrow> json file_read" where
  "shown_document parse name d = (case d name of None \<Rightarrow> Missing | Some f \<Rightarrow> parse (sf_data f))"

lemma interrupted_document:
  "(atomic_write_step name data mode)\<^sup>*\<^sup>* (writer_start d) w \<Longrightarrow>
   shown_document parse name (fw_dir w) = (if fw_phase w = Replaced then parse data else shown_document parse name d)"
  by (simp add: shown_document_def old_or_new)

text \<open>The loaders look fields up by name, so the order of the keys does not matter.\<close>

lemma sorted_flat:
  "dict_ok d \<Longrightarrow> sort_keys_fields d = d \<Longrightarrow> oget (sorted_doc d) = oget d \<and> fst ` set (sorted_doc d) = fst ` set d"
proof -
  assume *: "dict_ok d" "sort_keys_fields d = d"
  have "dict_get (sorted_doc d) = dict_get d"
    using * by (intro dict_get_same_set dict_ok_sorted) (simp_all add: sorted_doc_def)
  then show ?thesis using * by (auto simp: oget_def sorted_doc_def fun_eq_iff)
qed

lemma load_device_sorted: "load_device c k (sort_keys (device_json r)) = load_device c k (device_json r)"
proof -
  obtain d where d: "device_json r = JObj d" "dict_ok d" "sort_keys_fields d = d"
    by (simp add: device_json_def dict_ok_def)
  show ?thesis
    using sorted_flat [OF d(2,3)] by (simp add: d(1) sort_keys_sorted load_device_def as_dict_def del: sort_keys.simps)
qed

lemma load_devices_sorted:
  "load_devices c (sort_keys_fields (map (\<lambda>(k, r). (k, device_json r)) devs))
    = load_devices c (map (\<lambda>(k, r). (k, device_json r)) devs)"
  by (induction devs) (auto simp: load_device_sorted split: sum.splits exn.splits)

lemma load_entry_sorted: "load_entry c k (sort_keys (JObj (entry_fields e))) = load_entry c k (JObj (entry_fields e))"
  if "sort_keys (ab_transfer_port e) = ab_transfer_port e"
proof -
  have "dict_ok (entry_fields e)" "sort_keys_fields (entry_fields e) = entry_fields e"
    using that by (simp_all add: entry_fields_def dict_ok_def opt_json_def split: option.split)
  note * = sorted_flat [OF this]
  show ?thesis
    using * by (simp add: sort_keys_sorted load_entry_def as_dict_def validate_entry_def del: sort_keys.simps)
qed

lemma endpoint_new_scalar: "endpoint_new hv pv = Inr e \<Longrightarrow> sort_keys pv = pv"
  by (auto simp: endpoint_new_def validate_port_def split: json.splits if_splits sum.splits exn.splits)

lemma load_entries_sorted:
  "\<forall>(k, e) \<in> set es. sort_keys (ab_transfer_port e) = ab_transfer_port e \<Longrightarrow>
   load_entries c (sort_keys_fields (map (\<lambda>(k, e). (k, JObj (entry_fields e))) es))
    = load_entries c (map (\<lambda>(k, e). (k, JObj (entry_fields e))) es)"
proof (induction es)
  case (Cons ke es)
  obtain k e where ke: "ke = (k, e)" by force
  with Cons.prems have "sort_keys (ab_transfer_port e) = ab_transfer_port e" by auto
  from load_entry_sorted [OF this, of c k] Cons show ?case
    by (auto simp: ke simp del: sort_keys.simps split: sum.splits exn.splits)
qed simp

text \<open>What a start makes of the document a save wrote: the same entries as of the document of the model.\<close>

lemma sort_fields_pairs: "sort_keys_fields (map (\<lambda>(k, v). (k, f v)) d) = map (\<lambda>(k, v). (k, sort_keys (f v))) d"
  by (induction d) auto

lemma sorted_member:
  "sort_keys (JObj (map (\<lambda>(k, v). (k, f v)) (sort_key fst (d :: (string \<times> 'a) list))))
    = JObj (sort_keys_fields (map (\<lambda>(k, v). (k, f v)) (sort_key fst d)))"
  by (simp add: sort_fields_pairs sort_map_values [of "\<lambda>v. sort_keys (f v)"] sort_sorted)

lemma trust_load_sorted:
  "bind_result (trust_load c (Content (sort_keys (trust_document devs)))) (\<lambda>s. Inr (ts_devices s))
    = bind_result (trust_load c (Content (trust_document devs))) (\<lambda>s. Inr (ts_devices s))"
proof -
  have "sort_keys (trust_document devs)
      = JObj [(''devices'', JObj (sort_keys_fields (map (\<lambda>(k, r). (k, device_json r)) (sort_key fst devs)))), (''version'', JInt 1)]"
    using sorted_member [of device_json devs] by (simp add: trust_document_def)
  then show ?thesis
    using load_devices_sorted [of c "sort_key fst devs"]
    by (simp add: trust_load_def trust_document_def bind_result_def split: sum.split)
qed

lemma book_load_sorted:
  assumes "book_inv c b"
  shows "bind_result (book_load c (Content (sort_keys (book_document (bk_entries b))))) (\<lambda>s. Inr (bk_entries s))
    = bind_result (book_load c (Content (book_document (bk_entries b)))) (\<lambda>s. Inr (bk_entries s))"
proof -
  let ?es = "sort_key fst (bk_entries b)"
  have "\<forall>(k, e) \<in> set ?es. sort_keys (ab_transfer_port e) = ab_transfer_port e"
    using assms by (auto simp: book_inv_def port_ok_def dest!: dict_in_get endpoint_new_scalar)
  note * = load_entries_sorted [OF this, of c]
  have "sort_keys (book_document (bk_entries b))
      = JObj [(''devices'', JObj (sort_keys_fields (map (\<lambda>(k, e). (k, JObj (entry_fields e))) ?es))), (''version'', JInt 1)]"
    using sorted_member [of "\<lambda>e. JObj (entry_fields e)" "bk_entries b"] by (simp add: book_document_def)
  then show ?thesis
    using * by (simp add: book_load_def book_document_def bind_result_def split: sum.split)
qed

section \<open>Saves with a crash anywhere\<close>

text \<open>
  The saves of the stores as they are modelled there, with one outcome for the whole routine, are what the calls amount
  to at any moment: a start after a crash reads what it would read after a save that succeeded if
  \<open>os.replace\<close> has been done, and after one that failed otherwise.
\<close>

lemma trust_save_refined:
  assumes "(atomic_write_step name data mode)\<^sup>*\<^sup>* (writer_start d) w"
    and "parse data = Content (sort_keys (trust_document (ts_devices s)))" "ts_disk s = shown_document parse name d"
  shows "bind_result (trust_load c (shown_document parse name (fw_dir w))) (\<lambda>s. Inr (ts_devices s))
    = bind_result (trust_load c (ts_disk (snd (trust_save (fw_phase w = Replaced) s)))) (\<lambda>s. Inr (ts_devices s))"
  using assms(2,3) by (simp add: interrupted_document [OF assms(1)] trust_save_def trust_load_sorted)

lemma book_save_refined:
  assumes "(atomic_write_step name data mode)\<^sup>*\<^sup>* (writer_start d) w"
    and "parse data = Content (sort_keys (book_document (bk_entries b)))" "bk_disk b = shown_document parse name d"
    and "book_inv c b"
  shows "bind_result (book_load c (shown_document parse name (fw_dir w))) (\<lambda>b. Inr (bk_entries b))
    = bind_result (book_load c (bk_disk (snd (book_save (fw_phase w = Replaced) b)))) (\<lambda>b. Inr (bk_entries b))"
  using assms(2-4) by (simp add: interrupted_document [OF assms(1)] book_save_def book_load_sorted)

lemma bind_result_InrD: "bind_result r f = Inr y \<Longrightarrow> \<exists>x. r = Inr x \<and> f x = Inr y"
  by (cases r) (simp_all add: bind_result_def)

lemma trust_crash_reload:
  assumes "(atomic_write_step name data mode)\<^sup>*\<^sup>* (writer_start d) w"
    and "parse data = Content (sort_keys (trust_document (ts_devices s)))" "trust_inv c s"
    and "trust_load c (shown_document parse name d) = Inr s0"
  shows "\<exists>s1. trust_load c (shown_document parse name (fw_dir w)) = Inr s1
    \<and> dict_get (ts_devices s1) = (if fw_phase w = Replaced then loadable_record s else dict_get (ts_devices s0))"
proof (cases "fw_phase w = Replaced")
  case True
  obtain s' where "trust_load c (Content (trust_document (ts_devices s))) = Inr s'"
    "dict_get (ts_devices s') = loadable_record s"
    using trust_reload_loadable [OF assms(3)] by (auto simp: trust_save_def)
  moreover from this(1) have "bind_result (trust_load c (parse data)) (\<lambda>s. Inr (ts_devices s)) = Inr (ts_devices s')"
    using trust_load_sorted [of c "ts_devices s"] by (simp add: assms(2))
  ultimately show ?thesis
    using True by (auto simp: interrupted_document [OF assms(1)] dest!: bind_result_InrD)
next
  case False
  then show ?thesis using assms(4) by (simp add: interrupted_document [OF assms(1)])
qed

lemma book_crash_reload:
  assumes "(atomic_write_step name data mode)\<^sup>*\<^sup>* (writer_start d) w"
    and "parse data = Content (sort_keys (book_document (bk_entries b)))"
    and "book_inv c b" "\<forall>(k, e) \<in> set (bk_entries b). entry_loadable e"
    and "book_load c (shown_document parse name d) = Inr b0"
  shows "\<exists>b1. book_load c (shown_document parse name (fw_dir w)) = Inr b1
    \<and> dict_get (bk_entries b1) = dict_get (bk_entries (if fw_phase w = Replaced then b else b0))"
proof (cases "fw_phase w = Replaced")
  case True
  obtain b' where "book_load c (Content (book_document (bk_entries b))) = Inr b'"
    "dict_get (bk_entries b') = dict_get (bk_entries b)"
    using book_reload [OF assms(3,4)] by (auto simp: book_save_def)
  moreover from this(1) have "bind_result (book_load c (parse data)) (\<lambda>b. Inr (bk_entries b)) = Inr (bk_entries b')"
    using book_load_sorted [OF assms(3)] by (simp add: assms(2))
  ultimately show ?thesis
    using True by (auto simp: interrupted_document [OF assms(1)] dest!: bind_result_InrD)
next
  case False
  then show ?thesis using assms(5) by (simp add: interrupted_document [OF assms(1)])
qed

text \<open>Left alone, the routine gets there, and leaves nothing else behind.\<close>

lemma undisturbed_write:
  assumes "d (temporary_name name rnd) = None"
  shows "\<exists>w. (atomic_write_step name data mode)\<^sup>*\<^sup>* (writer_start d) w \<and> fw_phase w = Replaced
    \<and> fw_dir w = d(name \<mapsto> \<lparr>sf_mode = mode, sf_data = data\<rparr>)"
proof -
  let ?t = "temporary_name name rnd"
  let ?w = "\<lambda>p m x. \<lparr>fw_phase = p, fw_temp = Some ?t, fw_dir = d(?t \<mapsto> \<lparr>sf_mode = m, sf_data = x\<rparr>)\<rparr>"
  let ?step = "atomic_write_step name data mode"
  have "?step (writer_start d) (?w Filling OWNER_ONLY [])"
    using create [of "writer_start d" ?t name rnd data mode] assms by (simp add: writer_start_def)
  moreover have "?step (?w Filling OWNER_ONLY []) (?w Filling OWNER_ONLY data)"
    using fill [of "?w Filling OWNER_ONLY []" ?t _ "length data" name data mode] by simp
  moreover have "?step (?w Filling OWNER_ONLY data) (?w Synced OWNER_ONLY data)"
    using sync [of "?w Filling OWNER_ONLY data" ?t _ data name mode] by simp
  moreover have "?step (?w Synced OWNER_ONLY data) (?w Restricted mode data)"
    using restrict [of "?w Synced OWNER_ONLY data" ?t _ name data mode] by simp
  moreover have "?step (?w Restricted mode data)
      \<lparr>fw_phase = Replaced, fw_temp = Some ?t, fw_dir = d(name \<mapsto> \<lparr>sf_mode = mode, sf_data = data\<rparr>)\<rparr>"
    using replace [of "?w Restricted mode data" ?t _ name data mode] assms by (simp add: fun_upd_idem)
  ultimately have "?step\<^sup>*\<^sup>* (writer_start d)
      \<lparr>fw_phase = Replaced, fw_temp = Some ?t, fw_dir = d(name \<mapsto> \<lparr>sf_mode = mode, sf_data = data\<rparr>)\<rparr>"
    by (meson converse_rtranclp_into_rtranclp rtranclp.rtrancl_refl)
  then show ?thesis by fastforce
qed

text \<open>A file that is for its owner only is so under the temporary name too, from its creation on.\<close>

lemma owner_only_throughout:
  assumes "(atomic_write_step name data OWNER_ONLY)\<^sup>*\<^sup>* (writer_start d) w"
    and "fw_temp w = Some t" "fw_dir w t = Some f"
  shows "sf_mode f = OWNER_ONLY"
  using writes.reach_inv [OF assms(1) writer_start_inv] assms(2,3)
  by (cases "fw_phase w") (auto simp: writer_inv_def temporary_ok_def)

section \<open>Starts that do not finish\<close>

text \<open>
  What a start of the program, whose \<open>load_or_create\<close> may stop between its two writes, leaves in the directory of the identity;
  each write is all or nothing. \<open>fresh\<close> is what \<open>generate()\<close> returns.
\<close>

inductive start_leaves :: "crypto \<Rightarrow> (string \<Rightarrow> pyfloat option) \<Rightarrow> identity_dir \<Rightarrow> identity_dir \<Rightarrow> bool"
  for c :: crypto and fl :: "string \<Rightarrow> pyfloat option" where
  key_written:
    "load_private_key (key_file dir) = None \<Longrightarrow>
     start_leaves c fl dir (dir\<lparr>key_file := Content (b64encode fresh @ [CHR 0x0A])\<rparr>)"
| run_through: "start_leaves c fl dir (snd (load_or_create c fl fresh now dir))"

text \<open>The directory a finished start leaves for the identity it returned.\<close>

definition identity_stored :: "crypto \<Rightarrow> device_identity \<Rightarrow> identity_dir \<Rightarrow> bool" where
  "identity_stored c i dir \<longleftrightarrow>
     identity_ok c i \<and> load_private_key (key_file dir) = Some (di_private i)
     \<and> meta_file dir = Content (identity_metadata i)"

lemma stored_identity_loaded:
  "identity_stored c i dir \<Longrightarrow> load_or_create c fl fresh now dir = (Inr i, dir)"
  by (cases i) (simp add: identity_stored_def identity_ok_def load_or_create_def load_metadata_def identity_metadata_def
      to_float_def Let_def)

lemma start_keeps_identity: "start_leaves c fl dir dir' \<Longrightarrow> identity_stored c i dir \<Longrightarrow> identity_stored c i dir'"
proof (induction rule: start_leaves.induct)
  case (key_written dir fresh)
  then show ?case by (simp add: identity_stored_def)
next
  case (run_through dir fresh now)
  then show ?case by (simp add: stored_identity_loaded)
qed

interpretation starts: transition_system "start_leaves c fl" "identity_stored c i" for c fl i
  by unfold_locales (rule start_keeps_identity)

lemma load_or_create_stores:
  assumes "load_or_create c fl fresh now dir = (Inr i, dir')" "length fresh = 32"
  shows "identity_stored c i dir'"
proof -
  have "load_private_key (key_file dir') = Some (di_private i) \<and> meta_file dir' = Content (identity_metadata i)"
    using assms load_stored_key [OF assms(2)]
    by (auto simp: load_or_create_def Let_def split: sum.splits option.splits exn.splits)
  with load_or_create_ok [OF assms(1)] show ?thesis by (simp add: identity_stored_def)
qed

text \<open>A key generated by a start that went no further is the key of the next one.\<close>

lemma interrupted_start_keeps_key:
  assumes "length sk = 32"
    and "load_or_create c fl fresh now (dir\<lparr>key_file := Content (b64encode sk @ [CHR 0x0A])\<rparr>) = (Inr i, dir')"
  shows "di_private i = sk"
  using assms(2) load_stored_key [OF assms(1)]
  by (auto simp: load_or_create_def Let_def split: sum.splits exn.splits)

text \<open>
  A key file that cannot be read, or whose mode cannot be set, is taken for no key at all: a new one is written over it.
\<close>

lemma unreadable_key_replaced:
  assumes "key_file dir \<in> {Unreadable, BadUtf8, Malformed}" "load_or_create c fl fresh now dir = (Inr i, dir')"
  shows "di_private i = fresh \<and> key_file dir' = Content (b64encode fresh @ [CHR 0x0A])"
  using assms by (auto simp: load_or_create_def load_private_key_def Let_def split: sum.splits exn.splits)

end
