(* ===== verification/Panels.thy ===== *)
theory Panels
  imports Screens ListenPool History
begin

text \<open>
  What the tables and panels of \<open>tui/\<close> show: the contacts and the device a transfer is addressed to, the details of
  an incoming offer, the history, sizes as text, the line about the listener, and what an event refreshes. An em
  dash for ``nothing'' is \<open>None\<close>.
\<close>

section \<open>Sizes\<close>

text \<open>Rounding as \<open>format\<close> does it, half to even.\<close>

definition round_even :: "rat \<Rightarrow> int" where
  "round_even x =
     (let f = \<lfloor>x\<rfloor>; r = x - of_int f
      in if r < 1 / 2 \<or> (r = 1 / 2 \<and> even f) then f else f + 1)"

text \<open>The formats \<open>.0f\<close> and \<open>.1f\<close> of an amount that is not negative.\<close>

definition fixed0 :: "rat \<Rightarrow> string" where
  "fixed0 x = show_int (round_even x)"

definition fixed1 :: "rat \<Rightarrow> string" where
  "fixed1 x = (let n = round_even (x * 10) in show_int (n div 10) @ ''.'' @ show_int (n mod 10))"

fun size_in :: "string list \<Rightarrow> rat \<Rightarrow> string" where
  "size_in [] a = fixed0 a"
| "size_in (unit # units) a =
     (if a < 1024 \<or> unit = ''TB''
      then (if unit = ''B'' then fixed0 a else fixed1 a) @ '' '' @ unit
      else size_in units (a / 1024))"

definition size_text :: "int \<Rightarrow> string" where
  "size_text v = size_in [''B'', ''KB'', ''MB'', ''GB'', ''TB''] (of_int v)"

section \<open>Contacts\<close>

text \<open>The upper half of \<open>refresh_data\<close>: every contact is a row, and the cursor goes back by its row number.\<close>

definition refresh_peers :: "nat \<Rightarrow> address_book \<Rightarrow> key_table \<Rightarrow> key_table" where
  "refresh_peers cleared b t =
     (let rows = map ab_device_id (book_all b)
      in \<lparr>kt_rows = rows, kt_cursor = (if rows = [] then cleared else min (kt_cursor t) (length rows - 1))\<rparr>)"

section \<open>An incoming offer\<close>

definition text_or_none :: "string option \<Rightarrow> string option" where
  "text_or_none m = (case m of None \<Rightarrow> None | Some s \<Rightarrow> or_none s)"

record offer_view =
  ov_fingerprint :: "string option"
  ov_source :: string
  ov_files :: "(string \<times> string) list"
  ov_more :: nat
  ov_message :: "string option"

datatype offer_detail = No_offers | Not_selected | Offer_shown offer_view

definition offer_view_of :: "trust_store \<Rightarrow> incoming_request \<Rightarrow> offer_view" where
  "offer_view_of tr r =
     \<lparr>ov_fingerprint = map_option td_fingerprint (trust_get tr (rq_peer_device_id r)),
      ov_source = rq_peer_ip r,
      ov_files = map (\<lambda>f. (ifile_name f, size_text (int (ifile_size f)))) (take 20 (rq_files r)),
      ov_more = length (rq_files r) - 20,
      ov_message = text_or_none (rq_message r)\<rparr>"

definition show_selected :: "trust_store \<Rightarrow> request_manager \<Rightarrow> key_table \<Rightarrow> offer_detail" where
  "show_selected tr m t =
     (case selected_key t of
        None \<Rightarrow> No_offers
      | Some tid \<Rightarrow>
          (case find (\<lambda>r. rq_transfer_id r = tid) (get_pending_requests m) of
             None \<Rightarrow> Not_selected
           | Some r \<Rightarrow> Offer_shown (offer_view_of tr r)))"

section \<open>The history\<close>

record history_line =
  hl_direction :: string
  hl_peer :: string
  hl_files :: string
  hl_bytes :: string
  hl_resume :: "string option"
  hl_status :: string
  hl_error :: "string option"

definition history_line_of :: "transfer_row \<Rightarrow> history_line" where
  "history_line_of r =
     \<lparr>hl_direction = tr_direction r,
      hl_peer = (case text_or_none (tr_peer_hostname r) of None \<Rightarrow> tr_peer_ip r | Some h \<Rightarrow> h),
      hl_files = show_int (tr_file_count r), hl_bytes = size_text (tr_bytes_transferred r),
      hl_resume = (if tr_resumed r then Some (size_text (tr_resume_offset r)) else None),
      hl_status = tr_status r, hl_error = text_or_none (tr_error r)\<rparr>"

text \<open>\<open>get_history\<close> and the rows made of it.\<close>

definition history_rows ::
  "bool \<Rightarrow> (transfer_row list \<Rightarrow> transfer_row list) \<Rightarrow> history \<Rightarrow> history_line list" where
  "history_rows db scan h = map history_line_of (list_transfers db scan None None None 500 h)"

section \<open>The listener and events\<close>

datatype listener_line = Listening_on "string option" int | Unable_to_listen int | Startup_timed_out

definition mount_line :: "server_state \<Rightarrow> string option \<Rightarrow> int \<Rightarrow> listener_line \<times> bool" where
  "mount_line st address p =
     (case st of
        LISTENING \<Rightarrow> (Listening_on (text_or_none address) p, False)
      | FAILED_TO_BIND \<Rightarrow> (Unable_to_listen p, True)
      | _ \<Rightarrow> (Startup_timed_out, True))"

datatype app_screen = Dashboard_screen | Inbox_screen | History_screen | Trusted_screen

text \<open>\<open>_apply_core_event\<close>: the title of a notification, whether the contacts are refreshed, and whether the rows of the screen in front are.\<close>

definition apply_core_event :: "app_screen \<Rightarrow> core_event \<Rightarrow> string option \<times> bool \<times> bool" where
  "apply_core_event scr e =
     (case e of
        Incoming_transfer_offered r \<Rightarrow> (Some ''Incoming transfer'', False, scr = Inbox_screen)
      | Pairing_offered p \<Rightarrow> (Some ''New pairing request'', False, scr = Trusted_screen)
      | Peer_state_changed did \<Rightarrow> (None, True, scr = Trusted_screen)
      | _ \<Rightarrow> (None, False, False))"

section \<open>Lemmas\<close>

text \<open>The row under the cursor is the device a transfer goes to, whatever was connected to last.\<close>

lemma send_goes_to_row:
  assumes "kt_rows t \<noteq> []"
  shows "da_selected (snd (action_send t d)) = Some (kt_rows t ! kt_cursor t)"
  using assms by (simp add: action_send_def selected_key_def Let_def)

lemma refreshed_rows: "kt_rows (refresh_peers cleared b t) = map ab_device_id (book_all b)"
  by (simp add: refresh_peers_def Let_def)

lemma refreshed_cursor:
  "kt_rows (refresh_peers cleared b t) \<noteq> [] \<Longrightarrow>
   kt_cursor (refresh_peers cleared b t) < length (kt_rows (refresh_peers cleared b t))"
  by (cases "book_all b") (simp_all add: refresh_peers_def Let_def)

lemma connected_not_addressed:
  assumes "book_all b = e # es" "kt_cursor t = 0"
  shows "da_selected (snd (action_send (refresh_peers cleared b t) (connected r d))) = Some (ab_device_id e)"
  using assms by (subst send_goes_to_row) (simp_all add: refresh_peers_def Let_def)

text \<open>Every row has its own key, and the device that is addressed has a contact.\<close>

lemma addressed_has_contact:
  assumes "book_inv c b" "book_all b \<noteq> []"
  shows "distinct (kt_rows (refresh_peers cleared b t))
    \<and> (\<exists>did e. da_selected (snd (action_send (refresh_peers cleared b t) d)) = Some did \<and> book_get b did = Some e)"
proof -
  let ?t = "refresh_peers cleared b t"
  have rows: "kt_rows ?t \<noteq> []" using assms(2) by (simp add: refreshed_rows)
  then have "kt_rows ?t ! kt_cursor ?t \<in> set (kt_rows ?t)" by (intro nth_mem refreshed_cursor)
  then obtain x where "x \<in> set (book_all b)" "kt_rows ?t ! kt_cursor ?t = ab_device_id x"
    by (auto simp: refreshed_rows)
  then obtain k where "(k, x) \<in> set (bk_entries b)" by (auto simp: book_all_def)
  moreover then have "dict_get (bk_entries b) k = Some x" "ab_device_id x = k"
    using assms(1) by (auto simp: book_inv_def entry_bound_def dest!: dict_in_get)
  ultimately show ?thesis
    using send_goes_to_row [OF rows] \<open>kt_rows ?t ! kt_cursor ?t = ab_device_id x\<close> contacts_distinct(1) [OF assms(1)]
    by (auto simp: refreshed_rows book_get_def)
qed

text \<open>The offer whose details are shown is the one that accept and reject act on, and it is pending.\<close>

lemma shown_offer_decided:
  assumes "show_selected tr m t = Offer_shown v"
  shows "\<exists>r \<in> set (get_pending_requests m). v = offer_view_of tr r \<and> selected_key t = Some (rq_transfer_id r)
    \<and> (rq_transfer_id r \<noteq> [] \<longrightarrow> snd (action_accept cleared (t, m)) = snd (accept_request (rq_transfer_id r) m))"
proof -
  obtain tid r where sel: "selected_key t = Some tid" "find (\<lambda>r. rq_transfer_id r = tid) (get_pending_requests m) = Some r"
    "v = offer_view_of tr r"
    using assms by (auto simp: show_selected_def split: option.splits)
  then have "r \<in> set (get_pending_requests m)" "rq_transfer_id r = tid" by (auto simp: find_Some_iff)
  then show ?thesis
    using sel by (intro bexI [of _ r]) (auto simp: action_accept_def decide_offer_def split: prod.splits)
qed

text \<open>No file is left out silently.\<close>

lemma files_accounted_for:
  "length (ov_files (offer_view_of tr r)) + ov_more (offer_view_of tr r) = length (rq_files r)"
  by (simp add: offer_view_of_def)

lemma history_rows_bounded: "length (history_rows db scan h) \<le> 500"
  by (simp add: history_rows_def list_transfers_def query_transfers_def)

text \<open>Rounding stays within half a unit.\<close>

lemma round_even_near: "\<bar>of_int (round_even x) - x\<bar> \<le> 1 / 2"
proof -
  have "of_int \<lfloor>x\<rfloor> \<le> x" "x < of_int \<lfloor>x\<rfloor> + 1" by linarith+
  then show ?thesis unfolding round_even_def Let_def by (auto simp: abs_le_iff)
qed

lemma size_text_samples:
  "size_text 0 = ''0 B''" "size_text 1023 = ''1023 B''" "size_text 1024 = ''1.0 KB''"
  "size_text 1280 = ''1.2 KB''" "size_text 1792 = ''1.8 KB''" "size_text 1048575 = ''1024.0 KB''"
  by code_simp+

end
