(* ===== verification/SampleNet.thy ===== *)
theory SampleNet
  imports Samples EndToEnd Aggregate Screens SendPool ListenPool LocalAddress AtomicWrite Panels
begin

text \<open>
  Concrete inputs for the properties of the handshakes, of the listener, of the two ends together and
  of the history: a device with its identity under the toy primitives, connections that carry its
  frames, and the rows of a small history.
\<close>

section \<open>A device and its connections\<close>

definition sample_secret :: bytes where "sample_secret = replicate 32 0"

definition sample_floats :: "pyfloat \<Rightarrow> string" where "sample_floats = (\<lambda>_. ''0.0'')"

definition sample_identity :: device_identity where
  "sample_identity =
     \<lparr>di_device_id = device_id_of_raw toy_crypto sample_secret, di_public_key = encode_public_key sample_secret,
      di_fingerprint = fingerprint_of_raw toy_crypto sample_secret, di_created_at = Fin 1, di_private = sample_secret\<rparr>"

definition conn_with :: "net \<Rightarrow> connection" where
  "conn_with n = \<lparr>cn_net = n, cn_sends = [], cn_sent = []\<rparr>"

lemma conn_with_simps [simp]:
  "cn_net (conn_with n) = n" "cn_sends (conn_with n) = []" "cn_sent (conn_with n) = []"
  by (simp_all add: conn_with_def)

lemma arrive_simps [simp]: "arrivals [Arrive bs]" "stream_of [Arrive bs] = bs"
  by (simp_all add: arrivals_def)

lemma sample_secret_length [simp]: "length sample_secret = 32"
  by (simp add: sample_secret_def)

lemma fit_full: "length bs = n \<Longrightarrow> fit n bs = bs"
  by (simp add: fit_def)

lemma sample_identity_ok: "identity_ok toy_crypto sample_identity"
  by (simp add: identity_ok_def sample_identity_def toy_crypto_def fit_full)

lemma ascii_primitives_ok: "primitives_ok toy_crypto ascii_parser"
  by (simp add: primitives_ok_def toy_crypto_ok ascii_parser_reads)

text \<open>A store that trusts the device, and the record it has of it.\<close>

lemma sample_trusts: "trusted (sample_trust h) (di_device_id sample_identity) (di_public_key sample_identity)"
  using trust_takes_effect [OF sample_key_bound, of True 1 "\<lparr>ts_devices = [], ts_disk = Missing\<rparr>" h None]
  by (simp add: sample_trust_def sample_identity_def sample_secret_def trusted_def)

definition sample_peer :: trusted_device where
  "sample_peer =
     \<lparr>td_device_id = di_device_id sample_identity, td_hostname = ''pc'', td_public_key = di_public_key sample_identity,
      td_fingerprint = di_fingerprint sample_identity, td_first_trusted_at = 1, td_last_seen_at = 1,
      td_status = trust_value TRUSTED\<rparr>"

definition sample_client_hello where
  "sample_client_hello = client_hello toy_crypto sample_floats sample_secret sample_secret sample_identity"

definition sample_server_hello where
  "sample_server_hello =
     server_hello toy_crypto sample_floats sample_secret sample_secret sample_identity sample_client_hello"

lemma sample_client_session:
  "\<exists>sess k'. client_handshake toy_crypto sample_floats ascii_parser sample_secret sample_secret sample_identity
     sample_peer (conn_with [Arrive (framed (canonical sample_floats sample_server_hello))]) = (Inr sess, k')"
  using handshake_agreement [OF ascii_primitives_ok sample_identity_ok sample_identity_ok, of sample_secret sample_secret
    "sample_trust ''pc''" sample_peer sample_client_hello sample_floats sample_secret sample_server_hello sample_secret
    "conn_with [Arrive (framed (canonical sample_floats sample_client_hello))]" "[]"
    "conn_with [Arrive (framed (canonical sample_floats sample_server_hello))]" "[]"]
  by (auto simp: NONCE_BYTES_def sample_trusts sample_peer_def sample_client_hello_def sample_server_hello_def)

section \<open>A listener that serves the device\<close>

definition sample_listen :: listen_env where
  "sample_listen =
     \<lparr>le_crypto = toy_crypto, le_fr = sample_floats, le_loads = sample_loads, le_identity = sample_identity,
      le_trust = sample_trust ''pc'', le_port = 5000, le_priv = sample_secret, le_nonce = sample_secret,
      le_now = 100, le_monotonic = (0, 0), le_peer_ip = ''10.0.0.2'', le_peer_name = (\<lambda>_. None),
      le_commit = re_commit sample_env\<rparr>"

definition sample_listener :: listener where
  "sample_listener =
     \<lparr>ls_conn = conn_with (Arrive (framed (canonical sample_floats sample_client_hello)) # rc_net sample_receiver),
      ls_recv = sample_receiver, ls_pairings = sample_pairings\<rparr>"

lemma ascii_tags: "b \<in> {1, 2, 3, 4, 5, 6} \<Longrightarrow> ascii_loads [b] = None"
proof -
  have "parse_value 2 = parse_value (Suc 1)" by (simp add: numeral_2_eq_2)
  then show "b \<in> {1, 2, 3, 4, 5, 6} \<Longrightarrow> ascii_loads [b] = None"
    by (auto simp: ascii_loads_def is_json_ws_def parse_value.simps(2) parse_int_def parse_digits_def
        is_decimal_def starts_with_def Let_def)
qed

lemma sample_loads_reads: "reads_ascii sample_loads"
  using ascii_tags by (auto simp: reads_ascii_def sample_loads_def ascii_parser_def)

lemma sample_primitives_ok: "primitives_ok toy_crypto sample_loads"
  by (simp add: primitives_ok_def toy_crypto_ok sample_loads_reads)

lemma digit_zero: "digit_char 0 = CHR ''0''"
proof -
  have "code (digit_char 0) = code (CHR ''0'')" by (simp add: code_digit_char)
  then show ?thesis by (simp only: code_eq_iff)
qed

lemma hexdigest_zeros: "hexdigest (replicate n 0) = replicate (2 * n) (CHR ''0'')"
  by (induction n) (simp_all add: hexdigest_def hex_char_def digit_zero)

lemma sample_device_id: "di_device_id sample_identity = ''mp-00000000''"
  by (simp add: sample_identity_def sample_secret_def device_id_of_raw_def toy_crypto_def fit_full hexdigest_zeros)
     (simp add: numeral_eq_Suc)

text \<open>All keys are zero, so the toy exchange gives the key of the sample session.\<close>

lemma sample_derive:
  "derive_key toy_crypto sample_floats sample_secret (x_public toy_crypto sample_secret) ch sh cn sn = Inr sample_key"
  by (simp add: derive_key_def toy_crypto_def fit_full sample_secret_def sample_key_def map2_map_map zip_replicate)

definition sample_session_result :: authenticated_session where
  "sample_session_result = \<lparr>au_key = sample_key, au_peer_device_id = ''mp-00000000''\<rparr>"

lemma sample_session_env: "session_env sample_listen sample_session_result = sample_env"
  by (simp add: session_env_def sample_listen_def sample_session_result_def sample_env_def)

lemma sample_first_frame:
  "receive_json sample_loads (ls_conn sample_listener) =
     (Inr (JObj (sorted_doc sample_client_hello)), conn_with (rc_net sample_receiver))"
proof -
  let ?d = "canonical sample_floats sample_client_hello"
  note ready = hello_ready [OF sample_primitives_ok sample_identity_ok, of sample_secret "''client''" None
      sample_client_hello sample_floats sample_secret, unfolded sample_client_hello_def client_hello_def, simplified]
  have "flat sample_client_hello" "length ?d \<le> MAX_HANDSHAKE_SIZE"
    using ready by (simp_all add: sample_client_hello_def client_hello_def NONCE_BYTES_def)
  then have d: "sample_loads ?d = Parsed (JObj (sorted_doc sample_client_hello))" "length ?d \<le> MAX_HANDSHAKE_SIZE"
    "length ?d < 2 ^ 32"
    using flat_reads [OF sample_loads_reads] by (simp_all add: MAX_HANDSHAKE_SIZE_def)
  have "sample_loads [] = Unparsable" by (simp add: sample_loads_def ascii_parser_def ascii_loads_def)
  with d(1) have "?d \<noteq> []" by auto
  then show ?thesis
    using unpack_piece [OF _ d(2,3), of "rc_net sample_receiver"] d(1)
    by (simp add: receive_json_def io_bind_def on_net_def sample_listener_def parsed_object_def conn_with_def)
qed

lemma sample_server_accepts:
  "server_handshake toy_crypto sample_floats sample_loads sample_secret sample_secret sample_identity (sample_trust ''pc'')
     (Some (JObj (sorted_doc sample_client_hello))) (conn_with n)
   = (Inr sample_session_result,
      (conn_with n)\<lparr>cn_sent := [framed (canonical sample_floats sample_server_hello)]\<rparr>)"
  using server_accepts [OF sample_primitives_ok sample_identity_ok sample_identity_ok, of sample_secret sample_secret
      "sample_trust ''pc''" sample_client_hello sample_floats sample_secret sample_server_hello sample_secret sample_key
      "conn_with n"]
  by (simp add: NONCE_BYTES_def sample_trusts [unfolded sample_device_id] sample_derive sample_client_hello_def sample_server_hello_def
      sample_session_result_def sample_device_id)

text \<open>The whole connection: handshake, offer, decision, file.\<close>

lemma sample_connection:
  "\<exists>s'. handle_connection sample_listen sample_polls sample_listener = (Inr (), s')
     \<and> received_files s' ''a (1).txt'' = Some [7] \<and> received_files sample_listener ''a (1).txt'' = None"
proof -
  let ?cn = "(conn_with (rc_net sample_receiver))\<lparr>cn_sent := [framed (canonical sample_floats sample_server_hello)]\<rparr>"
  obtain rv where rv: "recv_session sample_env sample_offer after_decision = (Inr (), rv)"
    "files_of rv ''a (1).txt'' = Some [7]" using sample_session by blast
  have "hand_over ?cn sample_receiver = sample_receiver"
    by (simp add: hand_over_def sample_receiver_def)
  then have offer: "serve_offer sample_env None sample_polls (hand_over ?cn sample_receiver) = (Inr (), rv)"
    using rv(1) by (simp only: sample_decision)
  have kind: "\<not> json_eq (ojget (JObj (sorted_doc sample_client_hello)) ''type'') (JStr ''pair_hello'')"
    using hello_gets(1) [OF sample_client_hello_def [unfolded client_hello_def]]
      hello_dict_ok [of toy_crypto sample_floats "''client''" sample_identity]
    by (simp add: ojget_def oget_sorted sample_client_hello_def client_hello_def)
  have conn: "ls_conn sample_listener = conn_with (Arrive (framed (canonical sample_floats sample_client_hello)) # rc_net sample_receiver)"
    "ls_recv sample_listener = sample_receiver" by (simp_all add: sample_listener_def)
  have env: "le_crypto sample_listen = toy_crypto" "le_fr sample_listen = sample_floats"
    "le_loads sample_listen = sample_loads" "le_priv sample_listen = sample_secret"
    "le_nonce sample_listen = sample_secret" "le_identity sample_listen = sample_identity"
    "le_trust sample_listen = sample_trust ''pc''" "le_peer_name sample_listen = (\<lambda>_. None)"
    by (simp_all add: sample_listen_def)
  have "receive_session sample_listen sample_polls sample_listener = (Inr (), sample_listener\<lparr>ls_conn := ?cn, ls_recv := rv\<rparr>)"
    using kind offer
    by (simp add: receive_session_def serve_transfer_def env conn sample_first_frame [unfolded conn] sample_server_accepts
        sample_session_env)
  then show ?thesis
    using rv(2) by (auto simp: handle_connection_def conn received_files_def files_of_def file_at_def sample_receiver_def)
qed

section \<open>Pairing\<close>

definition sample_pair_client where
  "sample_pair_client =
     pairing_hello toy_crypto sample_floats sample_identity ''client'' sample_secret 5000 None"

definition sample_pair_server where
  "sample_pair_server =
     pairing_hello toy_crypto sample_floats sample_identity ''server'' sample_secret 5001
       (Some (hello_hash toy_crypto sample_floats sample_pair_client))"

definition sample_paired :: pairing_identity where
  "sample_paired = identity_of toy_crypto sample_identity ''10.0.0.2'' 7 5000"

lemma sample_server_pairs:
  "server_pair toy_crypto sample_floats sample_secret 7 sample_identity ''10.0.0.2''
     (JObj (sorted_doc sample_pair_client)) 5001 (conn_with [])
   = (Inr sample_paired, (conn_with [])\<lparr>cn_sent := [framed (canonical sample_floats sample_pair_server)]\<rparr>)"
  unfolding sample_paired_def
  using server_pairs [OF ascii_primitives_ok sample_identity_ok sample_identity_ok sample_secret_length sample_secret_length
      _ _ _ _ sample_pair_client_def sample_pair_server_def, of "conn_with []"] by simp

section \<open>The chunks of the sample file\<close>

definition sample_worker :: sender where
  "sample_worker = \<lparr>sn_net = [], sn_sends = [], sn_sent = [], sn_cancels = [], sn_infos = []\<rparr>"

lemma sample_worker_simps [simp]: "sn_sends sample_worker = []" "sn_cancels sample_worker = []" "sn_sent sample_worker = []"
  by (simp_all add: sample_worker_def)

text \<open>A receiver that has opened the partial file; the network delivers one byte more than half first.\<close>

definition sample_stream :: bytes where
  "sample_stream =
     wired toy_crypto sample_floats sample_key [sample_nonce, sample_nonce]
       [Control (chunk_header sample_tid ''file-0'' 0 0 1), Data [7]]"

definition sample_half :: receiver where
  "sample_half =
     sample_receiver\<lparr>rc_net := [Arrive (take 101 sample_stream), Arrive (drop 101 sample_stream)],
       rc_fs := (rc_fs sample_receiver)\<lparr>fs_parts := [((sample_tid, ''file-0''), [])]\<rparr>\<rparr>"

lemma sample_half_simps:
  "part_of (rc_fs sample_half) sample_tid ''file-0'' = Some []" "arrivals (rc_net sample_half)"
  "stream_of (rc_net sample_half) = sample_stream"
  by (simp_all add: sample_half_def sample_receiver_def part_of_def arrivals_def)

lemma sample_link_ok: "link_ok sample_env"
  by (simp add: link_ok_def sample_env_def toy_crypto_ok sample_loads_reads)

lemma sample_chunk_frames:
  "chunk_frames sample_tid ''file-0'' [7] 0 0 = [Control (chunk_header sample_tid ''file-0'' 0 0 1), Data [7]]"
  by (simp add: chunk_frames.simps [of _ _ _ 0] chunk_frames.simps [of _ _ _ "Suc 0"] next_chunk_def CHUNK_SIZE_def
      Let_def)

section \<open>A history\<close>

definition sample_row :: "string \<Rightarrow> string \<Rightarrow> transfer_row" where
  "sample_row tid st =
     \<lparr>tr_transfer_id = tid, tr_peer_device_id = None, tr_peer_ip = ''10.0.0.2'', tr_peer_hostname = None,
      tr_direction = ''recv'', tr_status = st, tr_message = None, tr_file_count = 1, tr_total_size = 1,
      tr_bytes_transferred = 1, tr_started_at = 1, tr_completed_at = None, tr_error = None, tr_resumed = False,
      tr_resume_offset = 0\<rparr>"

definition sample_file_row :: file_row where
  "sample_file_row =
     \<lparr>fr_id = 1, fr_transfer_id = ''t'', fr_file_id = ''file-0'', fr_filename = ''a.txt'', fr_final_path = None,
      fr_filesize = 1, fr_sha256 = None, fr_bytes_transferred = 1, fr_status = ''complete''\<rparr>"

definition sample_db :: db_file where
  "sample_db =
     \<lparr>db_version = 1, db_transfers = [(''t'', sample_row ''t'' ''complete''), (''u'', sample_row ''u'' ''active'')],
      db_files = [sample_file_row], db_next = 2\<rparr>"

definition sample_history :: history where
  "sample_history =
     \<lparr>hs_available = True, hs_transfers = [(''t'', sample_row ''t'' ''complete''), (''u'', sample_row ''u'' ''active'')],
      hs_files = [sample_file_row], hs_next = 2\<rparr>"

lemma sample_history_inv: "history_inv sample_history"
  by (simp add: history_inv_def rows_ok_def dict_ok_def sample_history_def sample_row_def sample_file_row_def)

lemma sample_db_ok: "db_ok sample_db"
  using sample_history_inv by (simp add: db_ok_def sample_db_def sample_history_def)

definition sample_facade :: facade where
  "sample_facade = \<lparr>fc_history = sample_history, fc_progress = [], fc_terminal = {}, fc_events = []\<rparr>"

lemma sample_facade_inv: "facade_inv sample_facade"
  by (simp add: facade_inv_def events_once_def sample_facade_def sample_history_inv)

definition sample_info :: "transfer_status \<Rightarrow> string \<Rightarrow> transfer_info" where
  "sample_info st tid =
     \<lparr>filename = ''a.txt'', filesize = 1, direction = RECV, peer_ip = ''10.0.0.2'', status = st, bytes_transferred = 1,
      started_at = 1, error = None, retry_count = 0, peer_device_id = None, transfer_id = tid, file_id = Some ''file-0'',
      resume_offset = 0, bytes_this_attempt = 1, completed_at = None, message = None, sha256 = None, final_path = None\<rparr>"

section \<open>A service that knows the device\<close>

definition sample_address :: resolved_address where
  "sample_address = \<lparr>ra_family = AF_INET, ra_type = 1, ra_protocol = 6, ra_address = (''10.0.0.3'', [5001])\<rparr>"

definition sample_dial :: "bytes \<Rightarrow> dial" where
  "sample_dial answer =
     \<lparr>dl_records = Some [sample_address], dl_connect = (\<lambda>_. Inr (conn_with [Arrive answer])), dl_nonce = sample_secret,
      dl_priv = sample_secret, dl_now = 8\<rparr>"

definition pair_dial :: dial where
  "pair_dial = sample_dial (framed (canonical sample_floats sample_pair_server))"

definition auth_dial :: dial where
  "auth_dial = sample_dial (framed (canonical sample_floats sample_server_hello))"

definition sample_service_env :: service_env where
  "sample_service_env =
     \<lparr>se_primitives = toy_crypto, se_floats = sample_floats, se_parser = ascii_parser, se_identity = sample_identity,
      se_port = 5000\<rparr>"

definition sample_endpoint :: endpoint where "sample_endpoint = \<lparr>host = ''10.0.0.3'', port = 5001\<rparr>"

definition sample_contact :: address_entry where
  "sample_contact =
     \<lparr>ab_device_id = di_device_id sample_identity, ab_friendly_name = ''pc'', ab_fingerprint = di_fingerprint sample_identity,
      ab_public_key = di_public_key sample_identity, ab_last_hostname = ''10.0.0.3'', ab_last_resolved_ip = None,
      ab_transfer_port = JInt 5001, ab_last_success = None, ab_last_error = None\<rparr>"

definition sample_book :: address_book where
  "sample_book = \<lparr>bk_entries = [(''mp-00000000'', sample_contact)], bk_disk = Missing\<rparr>"

definition sample_service :: "trust_store \<Rightarrow> address_book \<Rightarrow> service" where
  "sample_service t b =
     \<lparr>sv_trust = t, sv_book = b, sv_pairings = sample_pairings, sv_outbound = [], sv_resolved = [], sv_events = []\<rparr>"

definition sample_found :: pairing_identity where
  "sample_found = identity_of toy_crypto sample_identity ''10.0.0.3'' 8 5001"

definition sample_answered :: "connection_state \<Rightarrow> connection_result" where
  "sample_answered st =
     \<lparr>cr_endpoint = sample_endpoint, cr_resolved_ip = ''10.0.0.3'', cr_identity = sample_found, cr_state = st\<rparr>"

lemma sample_open: "open_connection (sample_dial bs) = Inr (conn_with [Arrive bs], sample_address)"
  by (simp add: open_connection_def sample_dial_def resolve_candidates_def add_candidate_def sample_address_def)

lemma sample_dial_simps [simp]:
  "dl_nonce (sample_dial bs) = sample_secret" "dl_priv (sample_dial bs) = sample_secret" "dl_now (sample_dial bs) = 8"
  by (simp_all add: sample_dial_def)

lemma sample_found_simps [simp]:
  "pr_device_id sample_found = ''mp-00000000''" "pr_public_key sample_found = di_public_key sample_identity"
  "pr_peer_ip sample_found = ''10.0.0.3''" "pr_transfer_port sample_found = 5001"
  by (simp_all add: sample_found_def identity_of_def sample_device_id)

lemma sample_client_pairs:
  "fst (client_pair toy_crypto sample_floats ascii_parser sample_secret 8 sample_identity ''10.0.0.3'' 5000
     (conn_with [Arrive (framed (canonical sample_floats sample_pair_server))])) = Inr sample_found"
  using client_pairs [OF ascii_primitives_ok sample_identity_ok sample_identity_ok sample_secret_length sample_secret_length
      _ _ _ _ sample_pair_client_def sample_pair_server_def,
      of "conn_with [Arrive (framed (canonical sample_floats sample_pair_server))]" "[]" 8 "''10.0.0.3''"]
  by (auto simp: sample_found_def)

lemma sample_pair:
  assumes "find_endpoint b ''10.0.0.3'' 5001 \<in> {None, Some sample_contact}"
  shows "\<exists>st. service_pair sample_service_env pair_dial sample_endpoint (sample_service (sample_trust ''pc'') b)
    = (Inr (sample_answered Identity_received),
       (sample_service (sample_trust ''pc'') b)\<lparr>sv_outbound := [(''mp-00000000'', (sample_found, sample_endpoint))],
         sv_resolved := [(''10.0.0.3'', st)]\<rparr>)"
  using assms sample_trusts [of "''pc''"]
  by (auto simp: service_pair_def pair_dial_def sample_open sample_service_env_def sample_address_def sample_client_pairs
      trusted_def sample_device_id sample_service_def sample_answered_def sample_endpoint_def pair_state_def
      sample_contact_def)

lemma sample_trusted_record:
  assumes "trust_get (sample_trust ''pc'') ''mp-00000000'' = Some peer"
  shows "td_device_id peer = ''mp-00000000''" "td_public_key peer = di_public_key sample_identity"
    "td_status peer = trust_value TRUSTED"
  using assms sample_trusts [of "''pc''"] trust_record(1) [OF sample_trust_inv assms]
  by (auto simp: trusted_iff trust_get_def sample_device_id)

lemma sample_authenticates:
  assumes "trust_get (sample_trust ''pc'') ''mp-00000000'' = Some peer"
  shows "authenticate sample_service_env auth_dial peer = Inr ''10.0.0.3''"
proof -
  note [simp] = sample_trusted_record [OF assms]
  have "fst (client_handshake toy_crypto sample_floats ascii_parser sample_secret sample_secret sample_identity peer
      (conn_with [Arrive (framed (canonical sample_floats sample_server_hello))])) =
      Inr \<lparr>au_key = sample_key, au_peer_device_id = ''mp-00000000''\<rparr>"
    using client_accepts [OF ascii_primitives_ok sample_identity_ok sample_identity_ok, of sample_secret sample_secret peer
        sample_client_hello sample_floats sample_secret sample_server_hello sample_secret sample_key
        "conn_with [Arrive (framed (canonical sample_floats sample_server_hello))]" "[]"]
    by (auto simp: NONCE_BYTES_def sample_client_hello_def sample_server_hello_def sample_device_id sample_derive)
  then show ?thesis
    by (simp add: authenticate_def auth_dial_def sample_open sample_service_env_def sample_address_def)
qed

lemma sample_is_trusted: "trusted (sample_trust ''pc'') ''mp-00000000'' (di_public_key sample_identity)"
  using sample_trusts [of "''pc''"] by (simp add: sample_device_id)

lemma sample_find: "find_endpoint sample_book ''10.0.0.3'' 5001 = Some sample_contact"
  by (simp add: find_endpoint_def sample_book_def sample_contact_def)

lemma sample_entry: "book_get sample_book ''mp-00000000'' = Some sample_contact"
  by (simp add: book_get_def sample_book_def)

text \<open>Sending to the device by its identifier, over a pairing and a handshake.\<close>

lemma sample_send:
  "\<exists>s'. service_send sample_service_env pair_dial auth_dial True (Named ''mp-00000000'') [''f''] None
     (sample_service (sample_trust ''pc'') sample_book)
   = (Inr \<lparr>br_peer_ip = ''10.0.0.3'', br_paths = [''f''], br_message = None, br_port = JInt 5001\<rparr>, s')"
proof -
  let ?s = "sample_service (sample_trust ''pc'') sample_book"
  obtain peer where peer: "trust_get (sample_trust ''pc'') ''mp-00000000'' = Some peer"
    using sample_is_trusted by (auto simp: trusted_iff trust_get_def)
  obtain s1 where s1: "service_pair sample_service_env pair_dial sample_endpoint ?s = (Inr (sample_answered Identity_received), s1)"
    "sv_trust s1 = sample_trust ''pc''" "sv_book s1 = sample_book"
    using sample_pair [of sample_book] by (auto simp: sample_find sample_service_def)
  have fields: "cr_state (sample_answered st) = st" "cr_identity (sample_answered st) = sample_found"
    "cr_endpoint (sample_answered st) = sample_endpoint" for st
    by (simp_all add: sample_answered_def)
  have "\<exists>s2. service_connect sample_service_env pair_dial auth_dial True sample_endpoint ?s
      = (Inr (sample_answered Authenticated), s2)"
    using sample_is_trusted
    by (simp add: service_connect_def io_bind_def s1 fields Let_def trusted_def peer finish_connect_def
        sample_authenticates [OF peer] on_book_def record_success_def book_save_def sample_entry [unfolded book_get_def])
       (simp add: sample_answered_def)
  moreover have "endpoint_new (JStr ''10.0.0.3'') (JInt 5001) = Inr sample_endpoint"
    unfolding sample_endpoint_def by code_simp
  moreover have "ab_last_hostname sample_contact = ''10.0.0.3''" "ab_transfer_port sample_contact = JInt 5001"
    by (simp_all add: sample_contact_def)
  ultimately show ?thesis
    using peer
    by (auto simp: service_send_def io_bind_def first_connection_named sample_service_def sample_entry fields starts_with_def)
       (simp add: sample_answered_def)
qed

lemma sample_service_env_primitives: "se_primitives sample_service_env = toy_crypto"
  by (simp add: sample_service_env_def)

lemma sample_bound: "key_bound toy_crypto ''mp-00000000'' (di_public_key sample_identity)"
  using sample_key_bound sample_device_id by (simp add: sample_identity_def sample_secret_def)

lemma sample_names_key:
  "device_id_from_public_key toy_crypto (di_public_key sample_identity) = Inr ''mp-00000000''"
  "fingerprint_from_public_key toy_crypto (di_public_key sample_identity) = Inr (di_fingerprint sample_identity)"
  using device_id_from_decoded [OF decode_encode_public_key [OF sample_secret_length], of toy_crypto] sample_device_id
  by (simp_all add: sample_identity_def)

lemma sample_contact_ok: "entry_bound toy_crypto ''mp-00000000'' sample_contact" "port_ok sample_contact"
proof -
  have "device_id_ok ''mp-00000000''" "friendly_name_ok ''pc''" by code_simp+
  moreover have "endpoint_new (JStr ''10.0.0.3'') (JInt 5001) = Inr \<lparr>host = ''10.0.0.3'', port = 5001\<rparr>" by code_simp
  ultimately show "entry_bound toy_crypto ''mp-00000000'' sample_contact" "port_ok sample_contact"
    using sample_names_key by (simp_all add: entry_bound_def port_ok_def sample_contact_def sample_device_id)
qed

lemma sample_book_inv: "book_inv toy_crypto sample_book"
  using sample_contact_ok by (simp add: book_inv_def sample_book_def dict_ok_def)

lemma sample_service_inv: "service_inv toy_crypto (sample_service (sample_trust ''pc'') sample_book)"
  using sample_book_inv sample_trust_inv
  by (simp add: service_inv_def outbound_ok_def sample_service_def pairing_inv_def sample_pairings_def dict_ok_def)

lemma sample_forgotten:
  "\<exists>s'. forget_device True True ''mp-00000000'' (sample_service (sample_trust ''pc'') sample_book) = (Inr True, s')"
proof -
  have "\<exists>t. untrust True (sample_trust ''pc'') ''mp-00000000'' = (Inr True, t)"
    using sample_is_trusted by (auto simp: untrust_def trusted_iff trust_save_def)
  moreover have "\<exists>b. forget_entry True sample_book ''mp-00000000'' = (Inr True, b)"
    by (simp add: forget_entry_def sample_book_def book_save_def)
  ultimately show ?thesis
    by (auto simp: forget_device_def io_bind_def on_trust_def on_book_def sample_service_def)
qed

text \<open>A service that has paired with the device and not decided yet.\<close>

definition sample_new :: service where
  "sample_new =
     (sample_service \<lparr>ts_devices = [], ts_disk = Missing\<rparr> \<lparr>bk_entries = [], bk_disk = Missing\<rparr>)
       \<lparr>sv_outbound := [(''mp-00000000'', (sample_found, sample_endpoint))]\<rparr>"

lemma sample_new_decided:
  "decided_identity clk ''mp-00000000'' sample_new = (Inr (sample_found, sample_endpoint), sample_new)"
  by (simp add: decided_identity_def sample_new_def)

lemma sample_new_bound: "key_bound toy_crypto ''mp-00000000'' (pr_public_key sample_found)"
  by (simp add: sample_bound)

lemma sample_decided:
  "\<exists>entry s'. service_trust sample_service_env True True 0 1 ''mp-00000000'' None sample_new = (Inr entry, s')
     \<and> trusted (sv_trust s') ''mp-00000000'' (di_public_key sample_identity)"
proof -
  let ?n = "decision_name None sample_endpoint"
  obtain rec t where rec: "trust_device toy_crypto True 1 \<lparr>ts_devices = [], ts_disk = Missing\<rparr> ''mp-00000000'' ?n
      (di_public_key sample_identity) None = (Inr rec, t)" "td_fingerprint rec = di_fingerprint sample_identity"
    by (simp add: trust_device_def trust_validate_eq [THEN iffD2, OF conjI [OF refl conjI [OF refl sample_bound]]]
        sample_names_key trust_save_def Let_def)
  note r = trust_device_result [OF rec(1)]
  have ip: "is_ip ''10.0.0.3''" by code_simp
  have ep: "endpoint_new (JStr ''10.0.0.3'') (JInt 5001) = Inr \<lparr>host = ''10.0.0.3'', port = 5001\<rparr>" by code_simp
  have ok: "device_id_ok ''mp-00000000''" "friendly_name_ok ''10.0.0.3''" by code_simp+
  have "validate_entry toy_crypto (entry_fields (new_contact ''mp-00000000'' ?n rec sample_endpoint ''10.0.0.3''))
      = Inr (new_contact ''mp-00000000'' ?n rec sample_endpoint ''10.0.0.3'')"
    using ok ip ep r(3,4) rec(2) sample_names_key
    by (auto simp: validate_entry_fields entry_bound_def new_contact_def port_ok_def entry_loadable_def
        sample_endpoint_def decision_name_def)
  then obtain b where put: "book_put toy_crypto True \<lparr>bk_entries = [], bk_disk = Missing\<rparr>
      (new_contact ''mp-00000000'' ?n rec sample_endpoint ''10.0.0.3'') = (Inr (), b)"
    by (simp add: book_put_def book_save_def)
  have fields: "sv_trust sample_new = \<lparr>ts_devices = [], ts_disk = Missing\<rparr>"
    "sv_book sample_new = \<lparr>bk_entries = [], bk_disk = Missing\<rparr>"
    by (simp_all add: sample_new_def sample_service_def)
  obtain s' where "service_trust sample_service_env True True 0 1 ''mp-00000000'' None sample_new =
      (Inr (new_contact ''mp-00000000'' ?n rec sample_endpoint ''10.0.0.3''), s')" "sv_trust s' = t"
    using decision_returns [OF sample_new_decided, of sample_service_env True 1 None rec t True "()" b 0]
    by (auto simp: sample_service_env_primitives fields rec(1) put)
  then show ?thesis using r(1) by blast
qed

section \<open>Screens\<close>

text \<open>Another key with the identifier of the device: the toy digest keeps the first bytes of a key.\<close>

definition other_secret :: bytes where "other_secret = replicate 31 0 @ [1]"

definition sample_other :: pairing_identity where
  "sample_other = sample_found\<lparr>pr_public_key := encode_public_key other_secret\<rparr>"

definition sample_both :: service where
  "sample_both = sample_new\<lparr>sv_pairings := \<lparr>pi_max_pending = 1, pi_ttl = 100, pi_items = [(''mp-00000000'', (sample_other, 100))]\<rparr>\<rparr>"

definition sample_table :: key_table where
  "sample_table = \<lparr>kt_rows = [pending_key ''mp-00000000''], kt_cursor = 0\<rparr>"

lemma sample_table_selected: "selected_key sample_table = Some (pending_key ''mp-00000000'')"
  by (simp add: sample_table_def selected_key_def)

lemma other_bound: "key_bound toy_crypto ''mp-00000000'' (pr_public_key sample_other)"
proof -
  have "length other_secret = 32" by (simp add: other_secret_def)
  then have "decode_public_key (JStr (encode_public_key other_secret)) = Inr other_secret"
    by (rule decode_encode_public_key)
  moreover have "device_id_of_raw toy_crypto other_secret = ''mp-00000000''"
    using hexdigest_zeros [of 31]
    by (simp add: device_id_of_raw_def toy_crypto_def fit_full other_secret_def hexdigest_def) (simp add: numeral_eq_Suc)
  moreover have "device_id_ok ''mp-00000000''" by code_simp
  ultimately show ?thesis by (simp add: key_bound_def sample_other_def)
qed

lemma other_differs: "pr_public_key sample_other \<noteq> pr_public_key sample_found"
proof
  assume "pr_public_key sample_other = pr_public_key sample_found"
  then have "encode_public_key other_secret = encode_public_key sample_secret"
    by (simp add: sample_other_def sample_identity_def)
  then have "other_secret = sample_secret"
    using decode_encode_public_key [of other_secret] decode_encode_public_key [of sample_secret]
    by (simp add: other_secret_def sample_secret_def)
  then show False by (simp add: other_secret_def sample_secret_def numeral_eq_Suc)
qed

text \<open>A service on whose screen an older request is under the cursor, and a new one that arrives.\<close>

definition sample_waiting :: service where
  "sample_waiting =
     (sample_service \<lparr>ts_devices = [], ts_disk = Missing\<rparr> \<lparr>bk_entries = [], bk_disk = Missing\<rparr>)
       \<lparr>sv_pairings := \<lparr>pi_max_pending = 2, pi_ttl = 100,
          pi_items = [(''mp-11111111'', (sample_found\<lparr>pr_device_id := ''mp-11111111'', pr_received_at := 1\<rparr>, 50))]\<rparr>\<rparr>"

lemma sample_arrives: "\<exists>s'. publish_pairing 8 8 sample_found sample_waiting = (Inr (), s')"
  by (simp add: publish_pairing_def sample_waiting_def pairing_publish_def pairing_prune_def sample_service_def)

section \<open>Pools\<close>

lemma sample_shutdown:
  "\<exists>s s'. send_step\<^sup>*\<^sup>* send_pool_new s \<and> sp_stop s = Flagged \<and> (\<forall>t. sp_phase s t \<noteq> Some Checked \<and> sp_phase s t \<noteq> Some Slotted)
     \<and> send_step\<^sup>*\<^sup>* s s' \<and> sp_stop s' = Signalled \<and> ''t'' \<in> sp_workers s'"
proof -
  let ?t = "''t''"
  let ?s0 = send_pool_new
  let ?s1 = "goes ?t Checked ?s0"
  let ?s2 = "goes ?t Slotted ?s1\<lparr>sp_free := 7\<rparr>"
  let ?s3 = "goes ?t Registered ?s2\<lparr>sp_events := insert ?t (sp_events ?s2)\<rparr>"
  let ?s4 = "goes ?t Listed ?s3\<lparr>sp_workers := insert ?t (sp_workers ?s3)\<rparr>"
  let ?s5 = "goes ?t Working ?s4"
  let ?s6 = "?s5\<lparr>sp_stopping := True, sp_stop := Flagged\<rparr>"
  let ?s7 = "?s6\<lparr>sp_stop := Signalling (sp_events ?s6), sp_to_close := ran (sp_sockets ?s6)\<rparr>"
  let ?s8 = "?s7\<lparr>sp_set := insert ?t (sp_set ?s7), sp_stop := Signalling (sp_events ?s6 - {?t})\<rparr>"
  let ?s9 = "?s8\<lparr>sp_stop := Signalled\<rparr>"
  note new = send_pool_new_def MAX_CONCURRENT_TRANSFER_SESSIONS_def
  have "send_step ?s0 ?s1" by (intro caller check) (simp_all add: new)
  moreover have "send_step ?s1 ?s2" by (intro caller acquire) (simp_all add: new)
  moreover have "send_step ?s2 ?s3" by (intro caller enter) simp
  moreover have "send_step ?s3 ?s4" by (intro caller enlist) simp
  moreover have "send_step ?s4 ?s5" by (intro caller send_batch_step.start) simp
  moreover have "send_step ?s5 ?s6" by (intro stopper flag) (simp add: new)
  ultimately have "send_step\<^sup>*\<^sup>* ?s0 ?s6" by (meson rtranclp.rtrancl_into_rtrancl rtranclp.rtrancl_refl)
  moreover have "send_step\<^sup>*\<^sup>* ?s6 ?s9"
  proof -
    have "send_step ?s6 ?s7" by (intro stopper shutdown_step.copy) simp_all
    moreover have "send_step ?s7 ?s8" by (intro stopper signal) simp_all
    moreover have "send_step ?s8 ?s9" by (intro stopper signalled) (simp add: new)
    ultimately show ?thesis by (meson rtranclp.rtrancl_into_rtrancl rtranclp.rtrancl_refl)
  qed
  ultimately show ?thesis by (intro exI [of _ ?s6] exI [of _ ?s9] conjI) (simp_all add: new)
qed

text \<open>The text of that store, and the parser that reads just this text.\<close>

definition sample_document :: "bytes \<Rightarrow> json file_read" where
  "sample_document data =
     (if data = [1] then Content (sort_keys (trust_document (ts_devices (sample_trust ''pc'')))) else Malformed)"

lemma sample_trust_loadable: "\<forall>(k, d) \<in> set (ts_devices (sample_trust ''pc'')). device_loadable d"
  using sample_trust_devices [of "''pc''"] by (auto simp: device_loadable_def hostname_ok_def is_printable_def)

end
