(* ===== verification/Further.thy ===== *)
theory Further
  imports SampleNet
begin

text \<open>
  More properties of the components, on the model's own definitions, each with its application to concrete
  inputs: limits and expiry of the inboxes, round trips of single frames, and inputs on which the program does
  not do what it means to.
\<close>

text \<open>
  A receive timeout in the middle of a frame loses the bytes already read: after part of a
  length prefix and a timeout, the next read starts in the middle of the frame.
\<close>

theorem timeout_loses_bytes:
  assumes "bs \<noteq> []" "length bs < 4"
  shows "unpack_frame max_size (Arrive bs # Fail TimeoutError # s) = (Inl TimeoutError, s)"
proof (cases bs)
  case (Cons b bs')
  with assms(2) have "recv_exact 4 [] (Arrive bs # Fail TimeoutError # s) = (Inl TimeoutError, s)"
    by (subst recv_exact.simps, simp) (subst recv_exact.simps, simp)
  then show ?thesis by (simp add: unpack_frame_def io_bind_def)
qed (use assms in simp)

theorem timeout_loses_bytes_witness:
  "unpack_frame 10 (Arrive [0, 0] # Fail TimeoutError # [Arrive [0, 2, 5, 6]]) = (Inl TimeoutError, [Arrive [0, 2, 5, 6]])"
  by (rule timeout_loses_bytes) simp_all

text \<open>
  A file whose name has 252 to 255 bytes and is already taken cannot be exposed: the first
  numbered candidate is too long for the file system, the commit raises OSError and the verified
  partial file stays where it is.
\<close>

theorem long_name_collision_fails:
  assumes "sanitize_filename name = Inr name" "252 \<le> utf8_length name" "file_at fs name = Some old"
    and "part_of fs tid fid = Some content"
  shows "commit_partial_file env tid fid name fs = (Inl name_too_long, fs)"
proof -
  have taken: "name \<in> set (map fst (fs_files fs))"
    using assms(3) dict_get_in [of "fs_files fs" name old] by (force simp: file_at_def)
  have len: "utf8_length (candidate name (Suc 0)) = utf8_length name + 3 + length (show_nat (Suc 0))"
    using arg_cong [OF stem_suffix [of name], of utf8_length]
    by (simp add: candidate_def utf8_length_def show_nat.simps digit_one [simplified])
  have "1 \<le> length (show_nat (Suc 0))" by (simp add: Suc_le_eq)
  moreover have short: "utf8_length name \<le> 255"
    using sanitize_filename_safe [OF assms(1)] by (simp add: safe_name_def)
  ultimately have "resolve_destination fs name = Inl name_too_long"
    using assms(1,2) taken len short
    by (simp add: resolve_destination_def validate_filename_def first_free.simps [of _ _ 0]
        first_free.simps [of _ _ "Suc 0"] candidate_def [of _ 0])
  then have "claim_name races name bs fs = (Inl name_too_long, fs)" for races bs
    by (cases races) simp_all
  with \<open>resolve_destination fs name = Inl name_too_long\<close> assms(4) show ?thesis
    by (simp add: commit_partial_file_def)
qed

theorem long_name_collision_fails_witness:
  "sanitize_filename (replicate 252 (CHR ''x'')) = Inr (replicate 252 (CHR ''x''))
   \<and> commit_partial_file (re_commit sample_env ''f'') ''t'' ''f'' (replicate 252 (CHR ''x''))
       (write_part ''t'' ''f'' [7] (write_file (replicate 252 (CHR ''x'')) [1] (rc_fs sample_receiver)))
     = (Inl name_too_long, write_part ''t'' ''f'' [7] (write_file (replicate 252 (CHR ''x'')) [1] (rc_fs sample_receiver)))"
  using long_name_collision_fails [of "replicate 252 (CHR ''x'')"
      "write_part ''t'' ''f'' [7] (write_file (replicate 252 (CHR ''x'')) [1] (rc_fs sample_receiver))" "[1]" "''t''" "''f''" "[7]"
      "re_commit sample_env ''f''"] sample_long_name
  by simp

text \<open>
  Every resume state the sender accepts gives each offered file an offset, and no offset exceeds
  the file's size.
\<close>

theorem accepted_offsets_bounded:
  assumes "validate_resume_state payload offer = Inr offsets" "offer_wf offer" "f \<in> set (offer_files offer)"
  shows "\<exists>off. dict_get offsets (ifile_id f) = Some off \<and> off \<le> ifile_size f"
  using validate_resume_state_sound [OF assms(1,3)] assms(2) by (simp add: offer_wf_def)

theorem accepted_offsets_bounded_witness:
  "\<exists>off. dict_get [(''file-0'', 0)] (ifile_id sample_file) = Some off \<and> off \<le> ifile_size sample_file"
proof (rule accepted_offsets_bounded)
  show "validate_resume_state (resume_state_json sample_offer [(''file-0'', \<lparr>rs_offset = 0, rs_final = None\<rparr>)]) sample_offer
      = Inr [(''file-0'', 0)]"
    by (simp add: validate_resume_state_def resume_state_json_def resume_item_def Let_def)
qed (use sample_offer_ok in \<open>simp_all add: offer_sendable_def\<close>)

text \<open>
  Every run of trust-store operations keeps the store consistent: one record per identifier,
  each identifier derived from the record's key, the stored fingerprint that of the key, and the
  status a known one.
\<close>

theorem trust_store_invariant:
  assumes "trust_inv c s"
  shows "trust_inv c (fold (trust_step c) cmds s)"
  by (rule trust_machine.run_inv [OF assms])

theorem trust_store_invariant_witness:
  "trust_inv toy_crypto (fold (trust_step toy_crypto) [(Untrust ''mp-00000000'', True)] \<lparr>ts_devices = [], ts_disk = Missing\<rparr>)"
  by (rule trust_store_invariant) (simp add: trust_inv_def)

text \<open>
  The trust operation does not check the host name the loader demands: a device trusted under an
  empty or unprintable name is rejected by the loader's record check after a restart.
\<close>

theorem unprintable_name_loses_trust:
  assumes "key_bound c did key" "\<not> hostname_ok (take 255 h)"
  shows "\<exists>r. dict_get (ts_devices (snd (trust_device c io now s did h key t))) did = Some r
    \<and> trusted (snd (trust_device c io now s did h key t)) did key
    \<and> load_device c did (device_json r) = Inl (ValueError ''Invalid trusted hostname'')"
proof -
  obtain fp where fp: "fingerprint_from_public_key c key = Inr fp"
    using assms(1) by (auto simp: key_bound_def dest: device_id_from_decoded)
  have v: "trust_validate c (JStr did) (JStr key) = Inr (did, key)"
    using assms(1) by (simp add: trust_validate_eq)
  obtain r where r: "dict_get (ts_devices (snd (trust_device c io now s did h key t))) did = Some r"
    "device_ok c did r" "td_hostname r = take 255 h"
    by (simp add: trust_device_def v fp Let_def prod.case_eq_if device_ok_def assms(1))
  from load_device_bad_hostname [OF r(2)] r assms(2) trust_takes_effect [OF assms(1)] show ?thesis by auto
qed

theorem unprintable_name_loses_trust_witness:
  "\<exists>r. dict_get (ts_devices (sample_trust [])) (device_id_of_raw toy_crypto (replicate 32 0)) = Some r
     \<and> load_device toy_crypto (device_id_of_raw toy_crypto (replicate 32 0)) (device_json r)
       = Inl (ValueError ''Invalid trusted hostname'')"
  using unprintable_name_loses_trust [OF sample_key_bound, of "[]" True 1 "\<lparr>ts_devices = [], ts_disk = Missing\<rparr>" None]
  by (auto simp: sample_trust_def hostname_ok_def)

text \<open>
  The public-key text is not canonical: every 32-byte key has a second accepted spelling with
  the same device identifier, and a device trusted under one spelling is reported as CHANGED
  when it presents the other.
\<close>

theorem respelled_key_reported_changed:
  assumes "length raw = 32" "key_bound c (device_id_of_raw c raw) (encode_public_key raw)"
  shows "decode_public_key (JStr (b64respell raw)) = Inr raw
    \<and> assess (snd (trust_device c io now s (device_id_of_raw c raw) h (encode_public_key raw) t))
        (Some (device_id_of_raw c raw)) (Some (b64respell raw)) = Inr CHANGED"
proof -
  let ?did = "device_id_of_raw c raw" and ?s = "snd (trust_device c io now s (device_id_of_raw c raw) h (encode_public_key raw) t)"
  note spell = respelled_key [OF assms(1)]
  have bound: "key_bound c ?did (b64respell raw)"
    using spell assms by (auto simp: key_bound_def decode_encode_public_key)
  have "trusted ?s ?did (encode_public_key raw)" by (rule trust_takes_effect [OF assms(2)])
  then obtain r where "dict_get (ts_devices ?s) ?did = Some r" "td_public_key r = encode_public_key raw"
    by (auto simp: trusted_iff)
  then show ?thesis
    using spell key_bound_nonempty [OF bound] by (auto simp: assess_def)
qed

theorem respelled_key_reported_changed_witness:
  "decode_public_key (JStr (b64respell (replicate 32 0))) = Inr (replicate 32 0)"
  using respelled_key_reported_changed [of "replicate 32 0" toy_crypto]
    device_id_of_raw_ok [OF toy_crypto_ok(1)] decode_encode_public_key [of "replicate 32 0"]
  by (simp add: key_bound_def)

text \<open>
  Once a transfer record is complete, failed, rejected or cancelled, no sequence of attempted
  status changes alters its status.
\<close>

theorem terminal_status_absorbing:
  assumes "is_terminal (status i)"
  shows "status (fold apply_call cs i) = status i"
  using info_decided.run_final [where s = i and cs = cs and v = "status i"] assms by (simp add: list_all_iff)

theorem terminal_status_absorbing_witness:
  "status (fold apply_call [(1, ACTIVE, None), (2, FAILED, Some ''x'')]
     ((batch_info 0 ''10.0.0.3'' None sample_offer sample_file)\<lparr>status := COMPLETE\<rparr>)) = COMPLETE"
  using terminal_status_absorbing [of "(batch_info 0 ''10.0.0.3'' None sample_offer sample_file)\<lparr>status := COMPLETE\<rparr>"
      "[(1, ACTIVE, None), (2, FAILED, Some ''x'')]"]
  by simp

text \<open>
  The answer the receiver builds to an offer is accepted by the sender with the same decision; a
  reason longer than 512 characters is cut and an empty one is dropped.
\<close>

theorem response_roundtrips:
  assumes "transfer_id_ok tid"
  shows "bind_result (build_response tid acc reason) (\<lambda>r. validate_response r tid) =
    Inr (acc, case reason of None \<Rightarrow> None | Some r \<Rightarrow> if r = [] then None else Some (take 512 r))"
  using assms by (rule response_roundtrip)

theorem response_roundtrips_witness:
  "bind_result (build_response sample_tid False (Some ''Receiver is busy'')) (\<lambda>r. validate_response r sample_tid)
     = Inr (False, Some ''Receiver is busy'')"
  using response_roundtrips [OF sample_tid_ok, of False "Some ''Receiver is busy''"] by simp

text \<open>
  The strict Base64 decoder inverts the encoder on every byte string.
\<close>

theorem base64_roundtrip: "b64decode (b64encode bs) = Some bs"
  by (rule b64decode_encode)

text \<open>
  A bracketed IPv6 address without a port is never accepted, although the default port is at
  hand: the parser demands a colon after the closing bracket.
\<close>

theorem bracketed_address_needs_port:
  "\<exists>x. endpoint_parse (CHR ''['' # h @ [CHR '']'']) d = Inl x"
  using parse_bracketed_alone [of h d] by blast

text \<open>
  A published pairing request is returned unchanged until its time to live has passed and never
  afterwards.
\<close>

theorem pairing_request_expires:
  assumes "pairing_inv b" "fst (pairing_publish now stamp p b) = Inr ()"
  shows "fst (pairing_get later (pr_device_id p) (snd (pairing_publish now stamp p b))) =
    (if stamp + pi_ttl b \<le> later then None else Some p)"
  by (rule publish_then_get [OF assms])

theorem pairing_request_expires_witness:
  "fst (pairing_get 95 ''mp-00000000'' (snd (pairing_publish 1 2 sample_pairing sample_pairings))) = None
   \<and> fst (pairing_get 50 ''mp-00000000'' (snd (pairing_publish 1 2 sample_pairing sample_pairings))) = Some sample_pairing"
proof -
  have inv: "pairing_inv sample_pairings" by (simp add: pairing_inv_def sample_pairings_def)
  have pub: "fst (pairing_publish 1 2 sample_pairing sample_pairings) = Inr ()"
    by (simp add: pairing_publish_def pairing_prune_def sample_pairings_def Let_def)
  show ?thesis
    using pairing_request_expires [OF inv pub, of 95] pairing_request_expires [OF inv pub, of 50]
    by (simp add: sample_pairing_def sample_pairings_def PAIRING_REQUEST_TTL_def)
qed

text \<open>
  Every run of pairing-inbox operations keeps at most the configured number of requests, each
  filed under its own device identifier.
\<close>

theorem pairing_inbox_bounded:
  assumes "pairing_inv b"
  shows "pairing_inv (fold pairing_step cs b) \<and> length (pi_items (fold pairing_step cs b)) \<le> pi_max_pending (fold pairing_step cs b)"
  using pairing_machine.run_inv [OF assms, of cs] by (simp add: pairing_inv_def)

theorem pairing_inbox_bounded_witness:
  "length (pi_items (fold pairing_step [PPublish 1 2 sample_pairing, PPrune 100] sample_pairings))
     \<le> pi_max_pending (fold pairing_step [PPublish 1 2 sample_pairing, PPrune 100] sample_pairings)"
  by (rule pairing_inbox_bounded [THEN conjunct2]) (simp add: pairing_inv_def sample_pairings_def)

text \<open>
  A device is never trusted automatically: after any sequence of trust-store operations, failing
  saves included, a pair of identifier and key is assessed TRUSTED only if it was before or an
  explicit trust operation for exactly that pair occurred.
\<close>

theorem trust_only_by_decision:
  assumes "assess (fold (trust_step c) cmds s) (Some did) (Some key) = Inr TRUSTED"
  shows "assess s (Some did) (Some key) = Inr TRUSTED \<or> list_ex (is_trust_of did key) cmds"
  using trusted_run [of c cmds s did key] assms by (simp add: trusted_def)

theorem trust_only_by_decision_witness:
  "\<exists>key. list_ex (is_trust_of (device_id_of_raw toy_crypto (replicate 32 0)) key)
     [(Trust 1 (device_id_of_raw toy_crypto (replicate 32 0)) ''pc'' (encode_public_key (replicate 32 0)) None, True)]"
proof -
  let ?d = "device_id_of_raw toy_crypto (replicate 32 0)" and ?k = "encode_public_key (replicate 32 0)"
  let ?s = "\<lparr>ts_devices = [], ts_disk = Missing\<rparr>"
  have "key_bound toy_crypto ?d ?k"
    using device_id_of_raw_ok [OF toy_crypto_ok(1)] decode_encode_public_key [of "replicate 32 0"]
    by (simp add: key_bound_def)
  then have "assess (fold (trust_step toy_crypto) [(Trust 1 ?d ''pc'' ?k None, True)] ?s) (Some ?d) (Some ?k) = Inr TRUSTED"
    using trust_takes_effect [of toy_crypto ?d ?k True 1 ?s "''pc''" None] by (simp add: trusted_def)
  from trust_only_by_decision [OF this] show ?thesis by (auto simp: assess_def)
qed

text \<open>
  The receive directory changes only for an offer that was accepted: an accept command ran while
  exactly this offer was pending, or the same offer of the same peer had been accepted before.
\<close>

theorem serve_requires_acceptance:
  assumes "serve_offer e pn polls s = (r, s')" "files_of s' \<noteq> files_of s" "inbox_inv (rc_inbox s)"
    and "list_all (\<lambda>c. fresh_cmd c \<and> not_prune c) (concat (map fst polls))"
  shows "\<exists>offer. offer_of e s = Some offer
    \<and> (accepted_as (rc_inbox s) (offer_id offer) (request_key e offer)
        \<or> (\<exists>pre post. concat (map fst polls) = pre @ Accept (offer_id offer) # post
            \<and> pending_as (fold inbox_step (Publish (make_request e pn offer) # pre) (rc_inbox s))
                (offer_id offer) (request_key e offer)))"
  by (rule serve_needs_offer [OF assms])

theorem serve_requires_acceptance_witness:
  "\<exists>offer. offer_of sample_env sample_receiver = Some offer
    \<and> (accepted_as (rc_inbox sample_receiver) (offer_id offer) (request_key sample_env offer)
        \<or> (\<exists>pre post. concat (map fst sample_polls) = pre @ Accept (offer_id offer) # post
            \<and> pending_as (fold inbox_step (Publish (make_request sample_env None offer) # pre) (rc_inbox sample_receiver))
                (offer_id offer) (request_key sample_env offer)))"
proof -
  obtain s' where s': "serve_offer sample_env None sample_polls sample_receiver = (Inr (), s')"
    "files_of s' ''a (1).txt'' = Some [7]"
    using sample_session sample_decision by auto
  have "files_of s' \<noteq> files_of sample_receiver"
  proof
    assume "files_of s' = files_of sample_receiver"
    with s'(2) have "files_of sample_receiver ''a (1).txt'' = Some [7]" by simp
    then show False by (simp add: files_of_def file_at_def sample_receiver_def)
  qed
  then show ?thesis
    by (rule serve_requires_acceptance [OF s'(1)])
       (simp_all add: sample_receiver_def inbox_inv_def pending_count_def sample_polls_def fresh_cmd_def not_prune_def)
qed

text \<open>
  An offer whose message has the maximal accepted length of 4096 characters is never read: its
  control frame exceeds the receiver's frame limit and is refused by size before the offer is
  looked at.
\<close>

theorem longest_message_offer_refused:
  assumes "aead_ok c" "length nonce = NONCE_SIZE" "offer_wf offer"
    and "offer_message offer = Some m" "length m = MAX_TRANSFER_MESSAGE_LENGTH"
    and "length (payload_bytes fr (Control (offer_json offer))) < 2 ^ 32 - 28"
    and "arrivals s" "stream_of s = sealed c key nonce (payload_bytes fr (Control (offer_json offer))) @ rest"
  shows "fst (receive_control_frame c ld key s) = Inl frame_too_big"
  using assms long_offer_bytes [of offer m fr]
  by (intro receive_control_too_big [of c nonce _ s key rest]) (simp_all add: offer_wf_def)

theorem longest_message_offer_refused_witness:
  "fst (receive_control_frame toy_crypto sample_loads sample_key
      [Arrive (sealed toy_crypto sample_key sample_nonce (payload_bytes (\<lambda>_. []) (Control (offer_json sample_long))))])
     = Inl frame_too_big"
  by (rule longest_message_offer_refused [where m = "replicate 4096 (CHR ''x'')" and rest = "[]",
        OF toy_crypto_ok(4) sample_sizes(2) sample_long_offer(1) _ _ sample_long_offer(2)])
     (simp_all add: sample_long_def MAX_TRANSFER_MESSAGE_LENGTH_def)

text \<open>
  Whatever the stored metadata say, a loaded or created identity's identifier, public key and
  fingerprint are those derived from its private key, so the pair is accepted by every check of
  the protocol.
\<close>

theorem identity_bound_to_key:
  assumes "load_or_create c fl fresh now dir = (Inr i, dir')" "hash_ok c" "signatures_ok c"
  shows "identity_ok c i \<and> key_bound c (di_device_id i) (di_public_key i)"
  using load_or_create_ok [OF assms(1)] identity_key_bound assms(2,3) by blast

theorem identity_bound_to_key_witness:
  "\<exists>i dir'. load_or_create toy_crypto (\<lambda>_. None) (replicate 32 1) 5
        \<lparr>key_file = Missing, meta_file = Content (JObj [(''device_id'', JStr ''mp-ffffffff'')])\<rparr> = (Inr i, dir')
     \<and> key_bound toy_crypto (di_device_id i) (di_public_key i)"
proof -
  let ?r = "load_or_create toy_crypto (\<lambda>_. None) (replicate 32 1) 5
      \<lparr>key_file = Missing, meta_file = Content (JObj [(''device_id'', JStr ''mp-ffffffff'')])\<rparr>"
  obtain i dir' where "?r = (Inr i, dir')"
    by (simp add: load_or_create_def load_private_key_def load_metadata_def to_float_def Let_def)
  with identity_bound_to_key [OF this toy_crypto_ok(1,2)] show ?thesis by blast
qed

text \<open>
  Reading a frame depends only on the bytes of the connection, not on how the network cut them:
  unpack_frame agrees with a pure parser of the concatenated stream and leaves exactly the rest
  of it.
\<close>

theorem framing_independent_of_pieces:
  assumes "arrivals s"
  shows "fst (unpack_frame max_size s) = bind_result (parse_frame max_size (stream_of s)) (Inr \<circ> fst)
    \<and> (\<forall>d rest. parse_frame max_size (stream_of s) = Inr (d, rest) \<longrightarrow>
         stream_of (snd (unpack_frame max_size s)) = rest)"
  using unpack_frame_stream [OF assms, of max_size] by blast

theorem framing_independent_of_pieces_witness:
  "fst (unpack_frame 10 [Arrive [0, 0], Arrive [0], Arrive [2, 5], Arrive [6, 7]])
     = bind_result (parse_frame 10 [0, 0, 0, 2, 5, 6, 7]) (Inr \<circ> fst)
   \<and> parse_frame 10 [0, 0, 0, 2, 5, 6, 7] = Inr ([5, 6], [7])"
  using framing_independent_of_pieces [of "[Arrive [0, 0], Arrive [0], Arrive [2, 5], Arrive [6, 7]]" 10]
  by (simp add: parse_frame_def of_be_def Let_def)

text \<open>
  The text form of every accepted endpoint (IPv4, host name or bracketed IPv6) parses back to
  the same host and port, unless an IPv6 scope identifier contains a closing bracket.
\<close>

theorem endpoint_text_roundtrip:
  assumes "endpoint_new hv pv = Inr ep" "CHR '']'' \<notin> set (host ep)"
  shows "endpoint_parse (endpoint_str ep) d = Inr ep"
  using assms endpoint_new_ok by (intro endpoint_codec.dec_enc) (auto simp: endpoint_printable_def)

theorem endpoint_text_roundtrip_witness:
  "endpoint_parse (endpoint_str \<lparr>host = ''::1'', port = 5000\<rparr>) 1 = Inr \<lparr>host = ''::1'', port = 5000\<rparr>"
proof (rule endpoint_text_roundtrip)
  show "endpoint_new (JStr ''::1'') (JInt 5000) = Inr \<lparr>host = ''::1'', port = 5000\<rparr>"
    using sample_ipv6 by (simp add: endpoint_new_eq endpoint_ok_def validate_host_def is_space_def)
qed simp

text \<open>
  A filename accepted from a peer is returned unchanged and is a plain basename on every
  platform: not empty, at most 255 bytes, printable, without slash, backslash or NUL, not a dot
  name, without trailing dot or space, without a drive, and not a reserved Windows device name.
\<close>

theorem accepted_filename_safe:
  assumes "sanitize_filename v = Inr w"
  shows "w = v \<and> safe_name v"
  by (rule sanitize_filename_safe [OF assms])

theorem accepted_filename_safe_witness: "safe_name ''a.txt''"
  using accepted_filename_safe [OF sample_name_ok] by blast

text \<open>
  A record that starts waiting for approval reaches active, resuming or complete only through a
  path of allowed changes that passes accepted, and complete only after active or resuming.
\<close>

theorem no_data_without_acceptance:
  assumes "status i = PENDING_APPROVAL"
  shows "\<exists>ts. status_path PENDING_APPROVAL ts (status (fold apply_call cs i))
    \<and> (status (fold apply_call cs i) \<in> {ACTIVE, RESUMING, COMPLETE, INTERRUPTED} \<longrightarrow> ACCEPTED \<in> set ts)
    \<and> (status (fold apply_call cs i) = COMPLETE \<longrightarrow> ACTIVE \<in> set ts \<or> RESUMING \<in> set ts)"
proof -
  obtain ts where ts: "status_path (status i) ts (status (fold apply_call cs i))"
    using calls_give_path by blast
  from path_from_approval [OF this assms] ts assms show ?thesis by (intro exI [of _ ts]) auto
qed

theorem no_data_without_acceptance_witness:
  "\<exists>ts. status_path PENDING_APPROVAL ts COMPLETE \<and> ACCEPTED \<in> set ts"
proof -
  let ?i = "batch_info 0 ''10.0.0.3'' None sample_offer sample_file"
  have "status (fold apply_call [(1, ACCEPTED, None), (2, ACTIVE, None), (3, COMPLETE, None)] ?i) = COMPLETE"
    by (simp add: batch_info_def set_status_eq)
  with no_data_without_acceptance [of ?i "[(1, ACCEPTED, None), (2, ACTIVE, None), (3, COMPLETE, None)]"]
  show ?thesis by (auto simp: batch_info_def)
qed

text \<open>
  A consistent store whose names and times are loadable is read back after a restart with the
  same record for every identifier.
\<close>

theorem trust_survives_restart:
  assumes "trust_inv c s" "\<forall>(k, d) \<in> set (ts_devices s). device_loadable d"
  shows "\<exists>s'. trust_load c (ts_disk (snd (trust_save True s))) = Inr s'
    \<and> dict_get (ts_devices s') = dict_get (ts_devices s)"
  by (rule trust_reload [OF assms])

theorem trust_survives_restart_witness:
  "\<exists>s'. trust_load toy_crypto (ts_disk (snd (trust_save True (sample_trust ''pc'')))) = Inr s'
     \<and> dict_get (ts_devices s') = dict_get (ts_devices (sample_trust ''pc''))"
  by (rule trust_survives_restart [OF sample_trust_inv])
     (use sample_trust_devices [of "''pc''"] in \<open>auto simp: device_loadable_def hostname_ok_def is_printable_def\<close>)

text \<open>
  A frame that fails authentication or is too short while the receiver waits for a decision ends
  the session without deciding the request: it stays pending in the inbox and keeps occupying a
  slot.
\<close>

theorem undecodable_frame_strands_request:
  assumes "recv_control e s = (Inl x, s1)" "\<not> is_OSError x"
    and "get_request (rc_inbox s) tid = Some r" "rq_status r = Req_PENDING_APPROVAL"
  shows "fst (await_decision e tid (([], True) # polls) s) = Inl x
    \<and> request_state (rc_inbox (snd (await_decision e tid (([], True) # polls) s))) tid = Some Req_PENDING_APPROVAL"
  using assms recv_control_inbox [OF assms(1)]
  by (simp add: decided_request_def request_state_def Let_def)

theorem undecodable_frame_strands_request_witness:
  "\<exists>x. fst (await_decision sample_env sample_tid [([], True)]
       (sample_receiver\<lparr>rc_net := [Arrive (framed [1])], rc_inbox := fold inbox_step [Publish sample_request] (rc_inbox sample_receiver)\<rparr>)) = Inl x
     \<and> x = ValueError ''Encrypted frame is too short''"
proof -
  let ?s = "sample_receiver\<lparr>rc_net := [Arrive (framed [1])],
              rc_inbox := fold inbox_step [Publish sample_request] (rc_inbox sample_receiver)\<rparr>"
  have "unpack_frame (HEADER_MAX_SIZE + 64) [Arrive (framed [1])] = (Inr [1], [])"
    by (rule unpack_piece) simp_all
  then have c: "recv_control sample_env ?s = (Inl (ValueError ''Encrypted frame is too short''), ?s\<lparr>rc_net := []\<rparr>)"
    by (simp add: recv_control_def receive_control_frame_def io_bind_def decrypt_chunk_def sample_env_def NONCE_SIZE_def)
  have "rq_transfer_id sample_request = sample_tid" and st: "rq_status sample_request = Req_PENDING_APPROVAL"
    by (simp_all add: sample_request_def make_request_def)
  then have g: "get_request (rc_inbox ?s) sample_tid = Some sample_request"
    by (simp add: get_request_def sample_receiver_def publish_def pending_count_def put_entry_def Let_def)
  show ?thesis using undecodable_frame_strands_request [OF c _ g st, of "[]"] by simp
qed

text \<open>
  A trusted device that has no contact cannot be connected to: the pairing and the authenticated
  handshake both succeed, and then recording the success raises KeyError, which is none of the
  errors connect reports to its callers.
\<close>

theorem contactless_connect_fails:
  assumes "service_pair e dl1 t s = (Inr r, s1)" "cr_state r \<noteq> Identity_changed"
    and "trusted (sv_trust s) (pr_device_id (cr_identity r)) (pr_public_key (cr_identity r))"
    and "\<And>peer. trust_get (sv_trust s) (pr_device_id (cr_identity r)) = Some peer \<Longrightarrow> \<exists>ip. authenticate e dl2 peer = Inr ip"
    and "book_get (sv_book s) (pr_device_id (cr_identity r)) = None"
  shows "fst (service_connect e dl1 dl2 io t s) = Inl (KeyError (pr_device_id (cr_identity r)))"
  by (rule contactless_connect [OF assms])

theorem contactless_connect_fails_witness:
  "fst (service_connect sample_service_env pair_dial auth_dial True sample_endpoint
     (sample_service (sample_trust ''pc'') \<lparr>bk_entries = [], bk_disk = Missing\<rparr>)) = Inl (KeyError ''mp-00000000'')"
proof -
  let ?s = "sample_service (sample_trust ''pc'') \<lparr>bk_entries = [], bk_disk = Missing\<rparr>"
  obtain s1 where run: "service_pair sample_service_env pair_dial sample_endpoint ?s = (Inr (sample_answered Identity_received), s1)"
    using sample_pair [of "\<lparr>bk_entries = [], bk_disk = Missing\<rparr>"] by (auto simp: find_endpoint_def)
  have "sv_trust ?s = sample_trust ''pc''" "sv_book ?s = \<lparr>bk_entries = [], bk_disk = Missing\<rparr>" by (simp_all add: sample_service_def)
  then show ?thesis
    using contactless_connect_fails [OF run, of auth_dial True] sample_is_trusted sample_authenticates
    by (simp add: sample_answered_def book_get_def)
qed

text \<open>
  Every run of inbox operations keeps the inbox consistent: each entry filed under its own
  identifier, waiters woken exactly when decided, and never more pending requests than the
  capacity.
\<close>

theorem inbox_bounded:
  assumes "inbox_inv m" "list_all fresh_cmd cs"
  shows "inbox_inv (fold inbox_step cs m) \<and> pending_count (fold inbox_step cs m) \<le> rm_max_pending (fold inbox_step cs m)"
  using inbox_machine.run_inv [OF assms(1), of cs] fresh_run [OF assms(2)] by (simp add: inbox_inv_def)

theorem inbox_bounded_witness:
  "pending_count (fold inbox_step [Publish sample_request, Accept sample_tid] (rc_inbox sample_receiver)) \<le> 32"
proof -
  have inv: "inbox_inv (rc_inbox sample_receiver)"
    by (simp add: sample_receiver_def inbox_inv_def pending_count_def)
  have fresh: "list_all fresh_cmd [Publish sample_request, Accept sample_tid]"
    by (simp add: fresh_cmd_def sample_request_def make_request_def)
  have "rm_max_pending (fold inbox_step [Publish sample_request, Accept sample_tid] (rc_inbox sample_receiver)) = 32"
    by (simp add: sample_receiver_def publish_def accept_request_def decide_def put_entry_def Let_def split: option.splits)
  with inbox_bounded [OF inv fresh] show ?thesis by simp
qed

text \<open>
  A chunk header is accepted only at exactly the expected index and offset of the expected file,
  with a positive size that fits both a chunk and the rest of the file.
\<close>

theorem accepted_chunk_in_bounds:
  assumes "validate_chunk_control payload tid fid i off remaining = Inr n"
  shows "0 < n \<and> n \<le> CHUNK_SIZE \<and> n \<le> remaining
    \<and> ojget payload ''index'' = JInt (int i) \<and> ojget payload ''offset'' = JInt (int off)
    \<and> ojget payload ''size'' = JInt (int n) \<and> ojget payload ''file_id'' = JStr fid
    \<and> ojget payload ''transfer_id'' = JStr tid"
  using validate_chunk_sound [OF assms] by blast

theorem accepted_chunk_in_bounds_witness:
  "0 < (5::nat) \<and> 5 \<le> CHUNK_SIZE \<and> ojget (chunk_header sample_tid ''file-0'' 2 131072 5) ''offset'' = JInt 131072"
  using accepted_chunk_in_bounds [OF validate_chunk_header [OF sample_tid_ok, of "''file-0''" 5 9 2 131072]]
  by (simp add: file_id_ok_def char_defs CHUNK_SIZE_def)

text \<open>
  The offer frame the sender builds for a well-formed batch is accepted by the receiver and
  yields the same offer, and different offers have different frames.
\<close>

theorem offer_roundtrip:
  assumes "offer_sendable offer"
  shows "validate_offer (offer_json offer) = Inr offer
    \<and> (\<forall>other. offer_sendable other \<longrightarrow> offer_json other = offer_json offer \<longrightarrow> other = offer)"
  using offer_codec.dec_enc [OF assms] offer_codec.enc_inj [OF _ assms] by blast

theorem offer_roundtrip_witness: "validate_offer (offer_json sample_offer) = Inr sample_offer"
  using offer_roundtrip [OF sample_offer_ok] by blast

text \<open>
  The screen of trusted devices can always be built: in every consistent state of the service
  all rows have different keys, because a pending request is keyed with a prefix no device
  identifier has.
\<close>

theorem screen_rows_distinct:
  assumes "service_inv c s"
  shows "distinct (fst (shown_rows now s))"
  by (rule shown_rows_distinct [OF assms])

theorem screen_rows_distinct_witness:
  "distinct (fst (shown_rows 0 (sample_service (sample_trust ''pc'') sample_book)))"
  by (rule screen_rows_distinct [OF sample_service_inv])

text \<open>
  An outgoing transfer can be cancelled from the moment its event is registered until its worker
  has cleaned up, and cancel_transfer answers true exactly then.
\<close>

theorem cancel_reaches_worker:
  assumes "send_step\<^sup>*\<^sup>* send_pool_new s"
  shows "fst (cancel_transfer t s) \<longleftrightarrow> sp_phase s t \<in> Some ` {Registered, Listed, Working}"
  by (rule cancel_hits [OF assms])

theorem cancel_reaches_worker_witness:
  "\<exists>s :: send_pool. fst (cancel_transfer ''t'' s)"
proof -
  obtain s where "send_step\<^sup>*\<^sup>* send_pool_new s" "sp_phase s ''t'' = Some Working" using late_worker by blast
  with cancel_reaches_worker [of s "''t''"] show ?thesis by auto
qed

text \<open>
  If one session thread cannot be started, the listener is dead without saying so: the
  RuntimeError leaves the accept loop, and ever after the state reads LISTENING, no connection
  is accepted, the slot is never returned and the connection counts as an active session.
\<close>

theorem failed_start_ends_listener:
  assumes "listen_step\<^sup>*\<^sup>* listen_pool_new s" "lp_loop s = Crashed c" "listen_step\<^sup>*\<^sup>* s s'"
  shows "lp_loop s' = Crashed c \<and> lp_state s' = LISTENING \<and> c \<in> lp_connections s'
    \<and> lp_free s' < MAX_CONCURRENT_TRANSFER_SESSIONS"
  by (rule crash_is_final [OF sessions.reach_inv [OF assms(1) listen_pool_new_inv] assms(2,3)])

theorem failed_start_ends_listener_witness:
  "\<exists>s :: listen_pool. lp_loop s = Crashed 0 \<and> lp_state s = LISTENING \<and> 0 \<in> lp_connections s"
proof -
  obtain s where "listen_step\<^sup>*\<^sup>* listen_pool_new s" "lp_loop s = Crashed 0" using crash_happens by blast
  from failed_start_ends_listener [OF this rtranclp.rtrancl_refl] show ?thesis by blast
qed

text \<open>
  A pairing request that arrives while the user looks at the first row takes its place: the
  screen is rebuilt with the newest request on top and the cursor goes back to its row number,
  so the next press of the approve key trusts the newcomer's key, whatever request was under the
  cursor before.
\<close>

theorem newcomer_gets_the_approval:
  assumes "pairing_inv (sv_pairings s)" "publish_pairing now stamp p s = (Inr (), s')" "later < stamp + pi_ttl (sv_pairings s)"
    and "\<And>k q t. (k, q, t) \<in> set (pi_items (sv_pairings s)) \<Longrightarrow> pr_received_at q < pr_received_at p"
    and "kt_cursor t = 0" "dict_get (sv_outbound s) (pr_device_id p) = None" "clk < stamp + pi_ttl (sv_pairings s)"
    and "key_bound (se_primitives e) (pr_device_id p) (pr_public_key p)"
    and "endpoint_new (JStr (pr_peer_ip p)) (JInt (pr_transfer_port p)) = Inr ep"
  shows "selected_key (fst (refresh_trusted cleared later (t, s'))) = Some (pending_key (pr_device_id p))
    \<and> trusted (sv_trust (snd (snd (action_approve e io1 io2 cleared clk stamp' later' (refresh_trusted cleared later (t, s'))))))
        (pr_device_id p) (pr_public_key p)"
  by (intro conjI newcomer_selected [OF assms(1-3) assms(4,5)] newcomer_approved [OF assms(1-3) assms(4-9)])
     (simp_all add: prod_eq_iff)

theorem newcomer_gets_the_approval_witness:
  "\<exists>s'. publish_pairing 8 8 sample_found sample_waiting = (Inr (), s')
    \<and> selected_key (fst (refresh_trusted 0 9 (\<lparr>kt_rows = [pending_key ''mp-11111111''], kt_cursor = 0\<rparr>, s')))
        = Some (pending_key ''mp-00000000'')"
proof -
  obtain s' where run: "publish_pairing 8 8 sample_found sample_waiting = (Inr (), s')" using sample_arrives by blast
  have inbox: "pairing_inv (sv_pairings sample_waiting)" "pi_ttl (sv_pairings sample_waiting) = 100"
    "dict_get (sv_outbound sample_waiting) ''mp-00000000'' = None"
    by (simp_all add: sample_waiting_def sample_service_def pairing_inv_def dict_ok_def)
  have old: "\<And>k q t. (k, q, t) \<in> set (pi_items (sv_pairings sample_waiting)) \<Longrightarrow> pr_received_at q < pr_received_at sample_found"
    by (auto simp: sample_waiting_def sample_found_def identity_of_def)
  have ep: "endpoint_new (JStr ''10.0.0.3'') (JInt 5001) = Inr \<lparr>host = ''10.0.0.3'', port = 5001\<rparr>" by code_simp
  from newcomer_gets_the_approval [where later = 9 and clk = 9 and cleared = 0 and e = sample_service_env
      and t = "\<lparr>kt_rows = [pending_key ''mp-11111111''], kt_cursor = 0\<rparr>" and ep = "\<lparr>host = ''10.0.0.3'', port = 5001\<rparr>",
      OF inbox(1) run _ old]
  show ?thesis using run ep inbox sample_bound by (simp add: sample_service_env_primitives)
qed

end
