(* ===== verification/Spec2Isabelle.thy ===== *)
theory Spec2Isabelle
  imports Further SampleNet
begin

text \<open>
  A model of \<open>mesh-direct\<close> (Python package \<open>direct_transfer\<close>, paths below are under
  \<open>src/src/direct_transfer/\<close>): peer-to-peer file transfer between devices that have paired and decided to
  trust each other.

  \<^bold>\<open>How the parts interact.\<close> A connection to the listener starts with a signed frame. A pairing frame
  (\<open>core/pairing.py\<close>) is answered and its sender put into the bounded pairing inbox, where the user
  compares fingerprints and decides; the decision goes to the trust store (\<open>core/trust.py\<close>). A session hello
  (\<open>core/session.py\<close>) must come from a trusted device; both sides derive a fresh key and speak sealed
  frames from then on (\<open>utils/crypto.py\<close>, \<open>core/protocol.py\<close>). The sender offers files; the offer waits in
  the incoming inbox (\<open>core/inbox.py\<close>) for the user; after acceptance the receiver answers which offset
  each file resumes at, the sender streams chunks, the receiver collects them in partial files
  (\<open>core/resume.py\<close>), checks size and digest and exposes the file under a free name of the receive
  directory. The sending worker retries after failures. Runtime records of the files
  (\<open>core/models.py\<close>, \<open>core/lifecycle.py\<close>) are aggregated into the history database
  (\<open>core/history.py\<close>) and into events (\<open>core/events.py\<close>).

  \<^bold>\<open>Theories.\<close>
  \<^item> \<open>Prelude\<close>: results (\<open>exn + 'a\<close>, every raise is a value of \<open>exn\<close>), dictionaries, characters, and the
    locales every component instantiates: \<open>machine\<close> (operations that keep an invariant),
    \<open>decided_machine\<close> (final observations stay), \<open>refined_machine\<close> (an abstract machine is implemented),
    \<open>codec\<close> and \<open>stream_codec\<close>. Methods under one lock are one step, so a concurrent run of a component is
    a list of commands and its claims are about \<open>fold step cmds\<close>. The two pools of threads, where
    sections of several locks, semaphores and events interleave, and the replacement of a file are inductive
    step relations instead, one step per atomic action or system call, and their claims are about all states reached by \<open>step\<^sup>*\<^sup>*\<close>.
  \<^item> \<open>Pystr\<close>, \<open>Json\<close>, \<open>JsonText\<close>, \<open>Base64\<close>, \<open>Ipaddress\<close>: what the program uses of Python's
    strings, \<open>json\<close>, \<open>base64\<close> and \<open>ipaddress\<close>.
  \<^item> \<open>Config\<close> (\<open>utils/config.py\<close>), \<open>Endpoint\<close> (\<open>core/endpoint.py\<close>), \<open>Lifecycle\<close> (\<open>core/models.py\<close>,
    \<open>core/lifecycle.py\<close>).
  \<^item> \<open>Identity\<close> (\<open>core/identity.py\<close>) with the record \<open>crypto\<close> of the primitives, \<open>TrustStore\<close>
    (\<open>core/trust.py\<close>).
  \<^item> \<open>Framing\<close> (\<open>utils/crypto.py\<close>, frames of \<open>core/protocol.py\<close>), \<open>Protocol\<close> (validators and builders of
    \<open>core/protocol.py\<close>).
  \<^item> \<open>Session\<close> (\<open>core/session.py\<close>): \<open>create_hello\<close>, \<open>validate_hello\<close>, \<open>derive_key\<close>,
    \<open>client_handshake\<close>, \<open>server_handshake\<close>; \<open>Pairing\<close> and \<open>PairingInbox\<close> (\<open>core/pairing.py\<close>).
  \<^item> \<open>Inbox\<close> (\<open>core/inbox.py\<close>), \<open>ResumeStore\<close> (\<open>core/resume.py\<close>).
  \<^item> \<open>Receiver\<close> (\<open>FileServer\<close> of \<open>core/transfer.py\<close>: \<open>serve_offer\<close> is \<open>_receive_session\<close> after the handshake,
    \<open>recv_session\<close> is \<open>_receive_v3_session\<close>, \<open>recv_chunks\<close> the loop of \<open>_receive_v3_file_data\<close>),
    \<open>ReceiverSafety\<close> (what sessions do to the receive directory), \<open>Listener\<close> (\<open>handle_connection\<close>: the
    whole of \<open>_receive_session\<close>, with the dispatch and the exceptions it swallows).
  \<^item> \<open>Sender\<close> (\<open>FileClient\<close>: \<open>batch_worker\<close>, its retry loop, \<open>send_session\<close>, \<open>send_payload\<close>),
    \<open>EndToEnd\<close> (the sender's frames read by the receiver).
  \<^item> \<open>History\<close> (\<open>core/history.py\<close>), \<open>Events\<close> (\<open>core/events.py\<close>), \<open>Aggregate\<close> (the callbacks of
    \<open>SecureTransfer\<close>).
  \<^item> \<open>AddressBook\<close> (\<open>core/address_book.py\<close>), \<open>Service\<close> (\<open>core/service.py\<close>: pairing, connecting, deciding and choosing
    the peer of a batch, over the components above; what an outgoing connection meets is the record \<open>dial\<close>),
    \<open>ServiceInv\<close> (its invariant, and what a decision achieves).
  \<^item> \<open>Slots\<close> (step relations and semaphores as locales), \<open>SendPool\<close> (the threads of \<open>FileClient\<close>: \<open>send_batch\<close>,
    \<open>_batch_worker_entry\<close>, \<open>cancel_transfer\<close>, \<open>shutdown\<close>), \<open>ListenPool\<close> (the threads of \<open>FileServer\<close>: \<open>run\<close>,
    \<open>_session_worker\<close>, \<open>shutdown\<close>, and \<open>_bind_listener\<close>).
  \<^item> \<open>AtomicWrite\<close> (\<open>_atomic_write\<close> of \<open>core/identity.py\<close> and the same calls in the saves of the stores, one step per
    system call; what a start finds after a crash).
  \<^item> \<open>LocalAddress\<close> (\<open>core/local_address.py\<close>), \<open>Screens\<close> (what the key presses and dialogs of \<open>tui/\<close> do to the service),
    \<open>Panels\<close> (what its tables and panels show).
  \<^item> \<open>Samples\<close>, \<open>SampleNet\<close>: concrete inputs for the applications of the properties; \<open>Further\<close>: more
    properties, of the same form as those below.

  \<^bold>\<open>State and operations.\<close> Each component keeps the state of its class in a record with the fields of the
  source (prefixed per component, as record fields are global); a method is a function from its arguments
  and the state to a result and the new state. Code that talks to the network is of type
  \<open>('s, 'a) io = 's \<Rightarrow> 'a result \<times> 's\<close>: what was changed before a raise stays changed. The network of one
  direction is a list of \<open>net_event\<close>s (bytes that arrive in pieces of any size, failures, the end); outcomes of
  sends, disk writes and database statements are arguments or lists consumed by the calls.
  Exceptions of the standard library that the code distinguishes are constructors of \<open>exn\<close>, and each
  \<open>except\<close> clause is a predicate on them (\<open>is_OSError\<close>, \<open>is_ValueError\<close>).

  \<^bold>\<open>Groups of lemmas.\<close> Invariants with their preservation by every operation (interpretations of
  \<open>machine\<close>); final states (\<open>decided_machine\<close>: decisions of the inbox, terminal statuses, completion in the
  history); refinement (\<open>refined_machine\<close>: the trust store and the history as maps); codecs (Base64, frames,
  offers, endpoints, JSON text); agreement of the two sides (handshake, pairing, resume negotiation,
  chunks); what may reach the receive directory and who may cause it; the behaviour of each error
  path, including those on which the program does not do what it documents.

  \<^bold>\<open>Parameters.\<close> The cryptographic primitives are the record \<open>crypto\<close> with their documented laws as
  hypotheses (\<open>hash_ok\<close>, \<open>signatures_ok\<close>, \<open>exchange_ok\<close>, \<open>aead_ok\<close>: sizes, a signature made verifies, both
  sides of an exchange get the same secret, an opened box is the one that was sealed); \<open>toy_crypto\<close>
  satisfies them. Unforgeability is not assumed anywhere: the safety claims say which signature was
  verified with which key. The JSON parser is a parameter that agrees with the written-out \<open>ascii_loads\<close>
  wherever that is defined (\<open>reads_ascii\<close>; ASCII text without float literals, which is all the program's own
  frames need). The text of floats is a parameter. Clocks, nonces, ephemeral keys, the interference of other
  processes in the receive directory and the order in which the database visits rows of equal age are
  arguments.

  \<^bold>\<open>Bounds and fuel.\<close> Loops that consume input are recursive on it. \<open>parse_value\<close> has fuel twice the length of
  the text, enough by \<open>ascii_loads_dumps\<close> for every document the program writes; the approval wait
  of the sender is bounded by the number of its polls (\<open>at_turns\<close>), the retry loop by \<open>MAX_RETRIES\<close>;
  the search for a free name by the number of files (\<open>destination_search_succeeds\<close>). Strings are
  lists of Latin-1 characters; text beyond Latin-1 only occurs inside frames, whose parser is a parameter.
  Path rules are those of CPython 3.12 on POSIX.

  \<^bold>\<open>Not modelled.\<close> Widgets and layout, and the table of running transfers with its float speeds (\<open>tui/\<close>), start-up (\<open>app.py\<close>, \<open>__main__.py\<close>),
  directories (\<open>core/paths.py\<close>) and logging: calls of libraries with no logic of the transfer. Socket options,
  time-outs as such and the bounded joins at shutdown; their effect on the code is the list of network events
  and the order of the steps. The text of the SQL schema; SQLite values beyond 64 bits; float arithmetic:
  times are rationals.
\<close>

section \<open>Properties\<close>

text \<open>
  C1. Whatever arrives on a connection, the receive directory changes only when its first frame
  is a hello vouched for by a device and key that the trust store trusts, the handshake with it
  succeeded, the frame after it is a valid offer, and exactly this offer of this device
  (identifier, files, total and message) was accepted: it was recorded as accepted before, or an
  accept ran during the wait at a moment when it was the pending request of that identifier. So
  pairing connections, unknown peers, unaccepted offers and decisions on other transfers never
  touch it. Stated for a consistent inbox and as long as the other commands publish only
  undecided requests and prune none during the wait; the program never prunes.
\<close>

theorem only_trusted_peers_change_files:
  assumes "handle_connection e polls s = (r, s')" "received_files s' \<noteq> received_files s"
    and "inbox_inv (rc_inbox (ls_recv s))"
    and "list_all (\<lambda>c. fresh_cmd c \<and> not_prune c) (concat (map fst polls))"
  shows "\<exists>d cn a cn' key offer.
    receive_json (le_loads e) (ls_conn s) = (Inr (JObj d), cn)
    \<and> server_handshake (le_crypto e) (le_fr e) (le_loads e) (le_priv e) (le_nonce e) (le_identity e)
        (le_trust e) (Some (JObj d)) cn = (Inr a, cn')
    \<and> trusted (le_trust e) (au_peer_device_id a) key
    \<and> vouched_by (le_crypto e) (le_fr e) ''client'' (au_peer_device_id a) key d
    \<and> offer_of (session_env e a) (hand_over cn' (ls_recv s)) = Some offer
    \<and> (let tid = offer_id offer;
           content = (au_peer_device_id a, offer_files offer, offer_total offer, offer_message offer);
           request = make_request (session_env e a) (le_peer_name e (au_peer_device_id a)) offer
       in accepted_as (rc_inbox (ls_recv s)) tid content
          \<or> (\<exists>pre post. concat (map fst polls) = pre @ Accept tid # post
              \<and> pending_as (fold inbox_step (Publish request # pre) (rc_inbox (ls_recv s))) tid content))"
  by (rule changed_only_by_trusted [OF assms])

theorem only_trusted_peers_change_files_witness:
  "\<exists>d cn a cn' key offer.
    receive_json (le_loads sample_listen) (ls_conn sample_listener) = (Inr (JObj d), cn)
    \<and> trusted (le_trust sample_listen) (au_peer_device_id a) key
    \<and> offer_of (session_env sample_listen a) (hand_over cn' (ls_recv sample_listener)) = Some offer
    \<and> (let tid = offer_id offer;
           content = (au_peer_device_id a, offer_files offer, offer_total offer, offer_message offer);
           request = make_request (session_env sample_listen a) (le_peer_name sample_listen (au_peer_device_id a)) offer
       in accepted_as (rc_inbox (ls_recv sample_listener)) tid content
          \<or> (\<exists>pre post. concat (map fst sample_polls) = pre @ Accept tid # post
              \<and> pending_as (fold inbox_step (Publish request # pre) (rc_inbox (ls_recv sample_listener))) tid content))"
proof -
  obtain s' where run: "handle_connection sample_listen sample_polls sample_listener = (Inr (), s')"
    and new: "received_files s' ''a (1).txt'' \<noteq> received_files sample_listener ''a (1).txt''"
    using sample_connection by auto
  have changed: "received_files s' \<noteq> received_files sample_listener" using new by auto
  have inbox: "inbox_inv (rc_inbox (ls_recv sample_listener))"
    by (simp add: sample_listener_def sample_receiver_def inbox_inv_def pending_count_def)
  have cmds: "list_all (\<lambda>c. fresh_cmd c \<and> not_prune c) (concat (map fst sample_polls))"
    by (simp add: sample_polls_def fresh_cmd_def not_prune_def)
  from only_trusted_peers_change_files [OF run changed inbox cmds] show ?thesis by blast
qed



text \<open>
  C3. A receiving session never overwrites or removes a file of the receive directory: a name
  that no other process writes and that is not the temporary copy keeps its content.
\<close>

theorem serve_never_overwrites:
  assumes "serve_offer e pn polls s = (r, s')" "files_of s n = Some bs"
    and "\<And>offer. offer_of e s = Some offer \<Longrightarrow> untouched e offer n"
  shows "files_of s' n = Some bs"
  using serve_changes [OF assms(1)] assms(2,3) by (auto simp: never_overwritten_def)

theorem serve_never_overwrites_witness:
  "files_of (snd (serve_offer sample_env None sample_polls sample_receiver)) ''old'' = Some [1]"
proof (rule serve_never_overwrites)
  show "serve_offer sample_env None sample_polls sample_receiver =
      (fst (serve_offer sample_env None sample_polls sample_receiver),
       snd (serve_offer sample_env None sample_polls sample_receiver))" by simp
  show "files_of sample_receiver ''old'' = Some [1]"
    by (simp add: files_of_def file_at_def sample_receiver_def)
  show "untouched sample_env offer ''old''" for offer
    by (simp add: untouched_def sample_env_def)
qed

text \<open>
  C4. Trust is only ever the user's decision about a key the program holds for that device: over
  any sequence of pairings, connections, batches, requests from the network and decisions,
  whatever the network answers, a device and key that are trusted at the end were trusted at the
  start, or at some moment the user decided about exactly this identifier while exactly this key
  was the one of an outgoing pairing or of a request in the inbox.
\<close>

theorem trust_needs_shown_key:
  assumes "trusted (sv_trust (fold (service_step e) cmds s)) did key"
  shows "trusted (sv_trust s) did key
    \<or> (\<exists>pre cmd post. cmds = pre @ cmd # post \<and> decides cmd did \<and> key_shown (fold (service_step e) pre s) did key)"
  by (rule run_trust [OF assms])

theorem trust_needs_shown_key_witness:
  "trusted (sv_trust sample_new) ''mp-00000000'' (di_public_key sample_identity)
    \<or> (\<exists>pre cmd post. [Decide True True 0 1 ''mp-00000000'' None] = pre @ cmd # post \<and> decides cmd ''mp-00000000''
        \<and> key_shown (fold (service_step sample_service_env) pre sample_new) ''mp-00000000'' (di_public_key sample_identity))"
  by (rule trust_needs_shown_key) (use sample_decided in \<open>auto simp: trusted_def\<close>)



text \<open>
  C6. Two honest devices that trust each other agree: when each side receives the hello the
  other one sent, however the network cuts it, both handshakes return, with the same 32-byte
  session key and each with the other's device identifier; each has sent exactly its hello and
  consumed exactly the other's.
\<close>

theorem handshake_agrees:
  assumes ready: "primitives_ok c ld" "identity_ok c ci" "identity_ok c si"
    "length cn = NONCE_BYTES" "length sn = NONCE_BYTES"
    and trust: "trusted store (di_device_id ci) (di_public_key ci)"
    and peer: "td_status peer = trust_value TRUSTED" "td_device_id peer = di_device_id si"
      "td_public_key peer = di_public_key si"
    and hellos: "ch = client_hello c fr cp cn ci" "sh = server_hello c fr sp sn si ch"
    and server: "cn_sends s = []" "arrivals (cn_net s)" "stream_of (cn_net s) = framed (canonical fr ch) @ rest"
    and client: "cn_sends k = []" "arrivals (cn_net k)" "stream_of (cn_net k) = framed (canonical fr sh) @ rest'"
  shows "\<exists>key s' k'.
    server_handshake c fr ld sp sn si store None s = (Inr \<lparr>au_key = key, au_peer_device_id = di_device_id ci\<rparr>, s')
    \<and> cn_sent s' = cn_sent s @ [framed (canonical fr sh)] \<and> stream_of (cn_net s') = rest
    \<and> client_handshake c fr ld cp cn ci peer k = (Inr \<lparr>au_key = key, au_peer_device_id = di_device_id si\<rparr>, k')
    \<and> cn_sent k' = cn_sent k @ [framed (canonical fr ch)] \<and> stream_of (cn_net k') = rest'
    \<and> length key = 32"
  by (rule handshake_agreement [OF ready trust peer hellos server client])

theorem handshake_agrees_witness:
  "\<exists>key s' k'.
    server_handshake toy_crypto sample_floats ascii_parser sample_secret sample_secret sample_identity (sample_trust ''pc'')
      None (conn_with [Arrive (framed (canonical sample_floats sample_client_hello))])
      = (Inr \<lparr>au_key = key, au_peer_device_id = di_device_id sample_identity\<rparr>, s')
    \<and> cn_sent s' = [framed (canonical sample_floats sample_server_hello)] \<and> stream_of (cn_net s') = []
    \<and> client_handshake toy_crypto sample_floats ascii_parser sample_secret sample_secret sample_identity sample_peer
        (conn_with [Arrive (framed (canonical sample_floats sample_server_hello))])
      = (Inr \<lparr>au_key = key, au_peer_device_id = di_device_id sample_identity\<rparr>, k')
    \<and> cn_sent k' = [framed (canonical sample_floats sample_client_hello)] \<and> stream_of (cn_net k') = []
    \<and> length key = 32"
  using handshake_agrees [OF ascii_primitives_ok sample_identity_ok sample_identity_ok, of sample_secret sample_secret
    "sample_trust ''pc''" sample_peer sample_client_hello sample_floats sample_secret sample_server_hello sample_secret
    "conn_with [Arrive (framed (canonical sample_floats sample_client_hello))]" "[]"
    "conn_with [Arrive (framed (canonical sample_floats sample_server_hello))]" "[]"]
  by (simp add: NONCE_BYTES_def sample_trusts sample_peer_def sample_client_hello_def sample_server_hello_def)

text \<open>
  C7. A session the server returns belongs to a trusted peer: the hello it read is in the client
  role, names a device and a key that the trust store trusts together, carries a signature that
  verifies with that key over everything else the hello says, and its ephemeral key is the one
  the session key was derived from.
\<close>

theorem server_session_authenticated:
  assumes "server_handshake c fr ld priv nonce i store (Some v) s = (Inr sess, s')"
  shows "\<exists>d key eph cn. v = JObj d \<and> trusted store (au_peer_device_id sess) key
    \<and> vouched_by c fr ''client'' (au_peer_device_id sess) key d
    \<and> decode_field (oget d ''ephemeral_key'') 32 ''ephemeral key'' = Inr eph
    \<and> derive_key c fr priv eph d (server_hello c fr priv nonce i d) cn nonce = Inr (au_key sess)"
  by (rule server_session_sound [OF assms, where v = v]) blast

theorem server_session_authenticated_witness:
  "\<exists>d key eph cn. JObj (sorted_doc sample_client_hello) = JObj d
    \<and> trusted (sample_trust ''pc'') (au_peer_device_id sample_session_result) key
    \<and> vouched_by toy_crypto sample_floats ''client'' (au_peer_device_id sample_session_result) key d
    \<and> decode_field (oget d ''ephemeral_key'') 32 ''ephemeral key'' = Inr eph
    \<and> derive_key toy_crypto sample_floats sample_secret eph d
        (server_hello toy_crypto sample_floats sample_secret sample_secret sample_identity d) cn sample_secret
      = Inr (au_key sample_session_result)"
  by (rule server_session_authenticated [OF sample_server_accepts])

text \<open>
  C8. A session the client returns is with the device it meant to reach: the record it started
  from is trusted, the answer is in the server role, names exactly the recorded device and key,
  is signed with that key, carries the hash of the hello this client sent (so no recorded answer
  can be replayed), and its ephemeral key went into the session key.
\<close>

theorem client_session_authenticated:
  assumes "client_handshake c fr ld priv nonce i peer s = (Inr sess, s')"
  shows "\<exists>d eph sn. td_status peer = trust_value TRUSTED \<and> au_peer_device_id sess = td_device_id peer
    \<and> vouched_by c fr ''server'' (td_device_id peer) (td_public_key peer) d
    \<and> oget d ''peer_hello_hash'' = JStr (hello_hash c fr (client_hello c fr priv nonce i))
    \<and> decode_field (oget d ''ephemeral_key'') 32 ''ephemeral key'' = Inr eph
    \<and> derive_key c fr priv eph (client_hello c fr priv nonce i) d nonce sn = Inr (au_key sess)"
  by (rule client_session_sound [OF assms]) blast

theorem client_session_authenticated_witness:
  "\<exists>(sess :: authenticated_session) d eph sn. td_status sample_peer = trust_value TRUSTED \<and> au_peer_device_id sess = td_device_id sample_peer
    \<and> vouched_by toy_crypto sample_floats ''server'' (td_device_id sample_peer) (td_public_key sample_peer) d
    \<and> oget d ''peer_hello_hash'' = JStr (hello_hash toy_crypto sample_floats
        (client_hello toy_crypto sample_floats sample_secret sample_secret sample_identity))
    \<and> decode_field (oget d ''ephemeral_key'') 32 ''ephemeral key'' = Inr eph
    \<and> derive_key toy_crypto sample_floats sample_secret eph
        (client_hello toy_crypto sample_floats sample_secret sample_secret sample_identity) d sample_secret sn
      = Inr (au_key sess)"
proof -
  obtain sess k' where "client_handshake toy_crypto sample_floats ascii_parser sample_secret sample_secret sample_identity
      sample_peer (conn_with [Arrive (framed (canonical sample_floats sample_server_hello))]) = (Inr sess, k')"
    using sample_client_session by blast
  note found = client_session_authenticated [OF this]
  show ?thesis by (rule exI [of _ sess]) (rule found)
qed

text \<open>
  C9. A file gets through: when the sender's loop runs undisturbed from an offset, and the
  receiver's partial file holds the content up to that offset, then the receiver's loop, fed the
  sender's frames sealed under any nonces and cut by the network in any way, returns with the
  partial file equal to the whole content, consumes exactly those bytes and leaves the rest of
  its state alone.
\<close>

theorem chunks_delivered:
  assumes link: "link_ok e" "transfer_id_ok (offer_id offer)" "file_id_ok (ifile_id f)"
    and size: "ifile_size f = length content" "length content < 10 ^ 20" "index \<le> pos" "pos \<le> length content"
    and sender: "sn_cancels k = []" "sn_sends k = []"
      "send_chunks (offer_id offer) (ifile_id f) i content (length content) pos index k = (r, k')"
    and part: "part_of (rc_fs s) (offer_id offer) (ifile_id f) = Some (take pos content)"
    and nonces: "list_all (\<lambda>n. length n = NONCE_SIZE) nonces"
      "length nonces = length (drop (length (sn_sent k)) (sn_sent k'))"
    and net: "arrivals (rc_net s)"
      "stream_of (rc_net s) = wired (re_crypto e) fr (re_key e) nonces (drop (length (sn_sent k)) (sn_sent k')) @ rest"
  shows "r = Inr () \<and> (\<exists>s'. recv_chunks e offer f pos index s = (Inr (), s')
    \<and> part_of (rc_fs s') (offer_id offer) (ifile_id f) = Some content
    \<and> arrivals (rc_net s') \<and> stream_of (rc_net s') = rest \<and> undisturbed s s')"
proof -
  have r: "r = Inr ()" and sent: "drop (length (sn_sent k)) (sn_sent k') = chunk_frames (offer_id offer) (ifile_id f) content pos index"
    using send_chunks_frames [OF sender(1,2), of "offer_id offer" "ifile_id f" i content pos index] sender(3) by auto
  show ?thesis
    using r recv_chunks_wire [OF link size part nonces(1) _ net(1), of fr rest] nonces(2) net(2) by (simp add: sent)
qed

theorem chunks_delivered_witness:
  "\<exists>s'. recv_chunks sample_env sample_offer sample_file 0 0 sample_half = (Inr (), s')
    \<and> part_of (rc_fs s') sample_tid ''file-0'' = Some [7] \<and> stream_of (rc_net s') = []"
proof -
  obtain k' where k': "send_chunks sample_tid ''file-0'' 0 [7] (length [7 :: byte]) 0 0 sample_worker = (Inr (), k')"
    "drop (length (sn_sent sample_worker)) (sn_sent k') = chunk_frames sample_tid ''file-0'' [7] 0 0"
    using send_chunks_frames [of sample_worker sample_tid "''file-0''" 0 "[7]" 0 0] by (auto simp: sample_worker_def)
  have env: "re_crypto sample_env = toy_crypto" "re_key sample_env = sample_key" by (simp_all add: sample_env_def)
  have frames: "chunk_frames sample_tid ''file-0'' [7] 0 0 = [Control (chunk_header sample_tid ''file-0'' 0 0 1), Data [7]]"
    by (rule sample_chunk_frames)
  from chunks_delivered [of sample_env sample_offer sample_file "[7]" 0 0 sample_worker 0 "Inr ()" k' sample_half
      "[sample_nonce, sample_nonce]" sample_floats "[]"] k'
  show ?thesis
    unfolding k'(2) frames env
    by (simp add: sample_link_ok sample_half_simps sample_stream_def [symmetric] file_id_ok_def char_defs
        del: wire_Cons One_nat_def) blast
qed

text \<open>
  C10. A decision that returns has done all of its work for one and the same pairing, the
  outgoing one under the identifier or else the request of the inbox: its key is trusted for the
  device, the contact in the address book has this key, the host and port of its endpoint and
  its address as the last one resolved, the request is gone from the inbox, and a worker that
  looks up exactly the address this peer answered or called from gets the trust record of this
  device with this key.
\<close>

theorem decision_takes_effect:
  assumes "service_trust e io1 io2 clk now did name s = (Inr entry, s')"
  shows "\<exists>p ep peer.
    (case dict_get (sv_outbound s) did of
       Some q \<Rightarrow> q = (p, ep)
     | None \<Rightarrow> fst (pairing_get clk did (sv_pairings s)) = Some p \<and> host ep = pr_peer_ip p \<and> port ep = pr_transfer_port p)
    \<and> trusted (sv_trust s') did (pr_public_key p)
    \<and> book_get (sv_book s') did = Some entry
    \<and> ab_public_key entry = pr_public_key p \<and> ab_last_hostname entry = host ep
    \<and> ab_transfer_port entry = JInt (port ep) \<and> ab_last_resolved_ip entry = Some (pr_peer_ip p)
    \<and> dict_get (pi_items (sv_pairings s')) did = None
    \<and> resolve_trusted_peer s' (pr_peer_ip p) = Inr peer \<and> td_device_id peer = did \<and> td_public_key peer = pr_public_key p"
  by (rule decision_complete [OF assms, unfolded decided_about_def])

theorem decision_takes_effect_witness:
  "\<exists>(entry :: address_entry) (s' :: service) (p :: pairing_identity) peer.
    book_get (sv_book s') ''mp-00000000'' = Some entry \<and> ab_last_resolved_ip entry = Some (pr_peer_ip p)
    \<and> resolve_trusted_peer s' (pr_peer_ip p) = Inr peer \<and> td_public_key peer = pr_public_key p"
proof -
  obtain entry s' where run: "service_trust sample_service_env True True 0 1 ''mp-00000000'' None sample_new = (Inr entry, s')"
    using sample_decided by blast
  from decision_takes_effect [OF run] show ?thesis by blast
qed

text \<open>
  C11. Forgetting a device takes effect at once: when forget_device returns, no key of that
  device is trusted, the contact is gone, and no address leads a sending worker to it any more,
  not even one remembered from an earlier connection.
\<close>

theorem forgotten_device_gone:
  assumes "trust_inv c (sv_trust s)" "forget_device io1 io2 did s = (Inr b, s')"
  shows "\<not> trusted (sv_trust s') did key \<and> book_get (sv_book s') did = None
    \<and> (resolve_trusted_peer s' ip = Inr peer \<longrightarrow> td_device_id peer \<noteq> did)"
  by (rule forget_takes_effect [OF assms])

theorem forgotten_device_gone_witness:
  "\<exists>s'. fst (forget_device True True ''mp-00000000'' (sample_service (sample_trust ''pc'') sample_book)) = Inr True
    \<and> snd (forget_device True True ''mp-00000000'' (sample_service (sample_trust ''pc'') sample_book)) = s'
    \<and> \<not> trusted (sv_trust s') ''mp-00000000'' (di_public_key sample_identity) \<and> book_get (sv_book s') ''mp-00000000'' = None"
proof -
  obtain s' where run: "forget_device True True ''mp-00000000'' (sample_service (sample_trust ''pc'') sample_book) = (Inr True, s')"
    using sample_forgotten by blast
  with forgotten_device_gone [OF _ run, of toy_crypto] show ?thesis by (simp add: sample_service_def sample_trust_inv)
qed

text \<open>
  C12. The service stays consistent as a whole: over any sequence of operations, whatever
  connections answer and whichever saves fail, every trust record, every contact and every
  outgoing pairing is filed under the identifier derived from its own key, every contact and
  pairing has a valid endpoint, and the request inbox keeps its bound.
\<close>

theorem service_consistent:
  assumes "service_inv (se_primitives e) s"
  shows "service_inv (se_primitives e) (fold (service_step e) cmds s)"
  by (rule service_machine.run_inv [OF assms])

theorem service_consistent_witness:
  "service_inv toy_crypto (fold (service_step sample_service_env)
     [Send pair_dial auth_dial True (Named ''mp-00000000'') [''f''] None, Forget_device True False ''mp-00000000'']
     (sample_service (sample_trust ''pc'') sample_book))"
  using service_consistent [of sample_service_env "sample_service (sample_trust ''pc'') sample_book"
      "[Send pair_dial auth_dial True (Named ''mp-00000000'') [''f''] None, Forget_device True False ''mp-00000000'']"]
    sample_service_inv by (simp only: sample_service_env_primitives)

text \<open>
  C13. However callers, workers, the accept loop, cancellations and shutdowns interleave, and
  whichever threads fail to start, there are never more than eight outgoing workers and never
  more than eight incoming sessions, and no release ever exceeds the semaphore's bound: free
  slots and holders always add up to eight.
\<close>

theorem sessions_stay_bounded:
  assumes "send_step\<^sup>*\<^sup>* send_pool_new s" "listen_step\<^sup>*\<^sup>* listen_pool_new l"
  shows "active_worker_count s \<le> 8 \<and> active_session_count l \<le> 8
    \<and> sp_free s + card (slot_holders s) = 8 \<and> lp_free l + card (session_holders l) = 8"
  using workers_bounded [OF assms(1)] sessions_bounded [OF assms(2)]
    sends.balance [OF sends.reach_inv [OF assms(1) send_pool_new_inv]]
    sessions.balance [OF sessions.reach_inv [OF assms(2) listen_pool_new_inv]]
  by (simp add: MAX_CONCURRENT_TRANSFER_SESSIONS_def)

theorem sessions_stay_bounded_witness:
  "\<exists>(s :: send_pool) (l :: listen_pool). sp_phase s ''t'' = Some Working \<and> sp_free s + card (slot_holders s) = 8 \<and> lp_loop l = Crashed 0 \<and> active_session_count l \<le> 8"
proof -
  obtain s where "send_step\<^sup>*\<^sup>* send_pool_new s" "sp_phase s ''t'' = Some Working" using late_worker by blast
  moreover obtain l where "listen_step\<^sup>*\<^sup>* listen_pool_new l" "lp_loop l = Crashed 0" using crash_happens by blast
  ultimately show ?thesis using sessions_stay_bounded [of s l] by blast
qed

text \<open>
  C14. Shutting down cancels the outgoing transfers: if no call of send_batch stands between its
  check and its registration when the flag is set, then once the signals are through, every
  worker that still runs has its cancel event set, whatever happened meanwhile.
\<close>

theorem shutdown_cancels_workers:
  assumes "send_step\<^sup>*\<^sup>* send_pool_new s" "sp_stop s = Flagged" "\<forall>t. sp_phase s t \<noteq> Some Checked \<and> sp_phase s t \<noteq> Some Slotted"
    and "send_step\<^sup>*\<^sup>* s s'" "sp_stop s' = Signalled" "t \<in> sp_workers s'"
  shows "t \<in> sp_set s'"
  by (rule shutdown_signals [OF assms])

theorem shutdown_cancels_workers_witness:
  "\<exists>s :: send_pool. sp_stop s = Signalled \<and> ''t'' \<in> sp_workers s \<and> ''t'' \<in> sp_set s"
proof -
  obtain s s' where run: "send_step\<^sup>*\<^sup>* send_pool_new s" "sp_stop s = Flagged"
    "\<forall>t. sp_phase s t \<noteq> Some Checked \<and> sp_phase s t \<noteq> Some Slotted"
    "send_step\<^sup>*\<^sup>* s s'" "sp_stop s' = Signalled" "''t'' \<in> sp_workers s'"
    using sample_shutdown by blast
  from shutdown_cancels_workers [OF this] run show ?thesis by blast
qed

text \<open>
  C15. The trust store implements a map from device identifiers to the key and verdict last
  decided: after any commands, whether their saves succeed or not, assess answers as the map
  does, where only trust and reject with a key the identifier was derived from write an entry,
  untrust deletes it and sightings change nothing; a different key for a known device is
  CHANGED, never TRUSTED.
\<close>

theorem trust_store_refines_map:
  assumes "trust_inv c s"
  shows "assess (fold (trust_step c) cmds s) (Some did) (Some key) =
    (if did = [] \<or> key = [] then Inr NEW
     else case fold (trust_spec c) cmds (trust_view s) did of
            None \<Rightarrow> Inr NEW
          | Some (k, st) \<Rightarrow> if k \<noteq> key then Inr CHANGED else trust_of_value st)"
  by (simp add: assess_view trust_refined.run_refines [OF assms])

theorem trust_store_refines_map_witness:
  "assess (fold (trust_step toy_crypto) [(Untrust (di_device_id sample_identity), False)] (sample_trust ''pc''))
     (Some (di_device_id sample_identity)) (Some ''key'') = Inr NEW"
  unfolding trust_store_refines_map [OF sample_trust_inv] by simp

text \<open>
  C16. The history implements a map from transfer identifiers to statuses: after any sequence of
  writes, each succeeding or failing as a whole, the status stored for every transfer is the one
  the abstract rules give (an upsert merges with the old status, an update with an interruptible
  status leaves a complete transfer alone, a file of an unknown transfer makes its whole
  statement fail, deleting and clearing remove).
\<close>

theorem history_refines_status_map:
  assumes "hs_available h"
  shows "transfer_state (fold history_step cmds h) = fold status_spec cmds (transfer_state h)"
  by (rule status_refined.run_refines [OF assms])

theorem history_refines_status_map_witness:
  "transfer_state (fold history_step [(Update ''t'' None [Set_status ''active''], True), (Delete ''u'', False)] sample_history) ''t''
     = Some ''complete''"
  using history_refines_status_map [of sample_history "[(Update ''t'' None [Set_status ''active''], True), (Delete ''u'', False)]"]
  by (simp add: sample_history_def sample_row_def transfer_state_def updated_status_def INTERRUPTIBLE_def)

text \<open>
  C17. Once a transfer is recorded as complete it stays so: runtime updates with any mix of
  records, republished requests and their acceptance leave the stored status complete, as long
  as the reads of its own stored record succeed and no request with its identifier is closed as
  rejected, expired or cancelled afterwards; reads of other records may fail and other requests
  may be closed.
\<close>

theorem complete_stays_complete:
  assumes "facade_inv s" "list_all (keeps_complete_cmd tid) cmds" "shown_state s tid = Some ''complete''"
  shows "shown_state (fold facade_step cmds s) tid = Some ''complete''"
  by (rule facade_machine.run_final [OF assms]) (rule refl)

theorem complete_stays_complete_witness:
  "shown_state (fold facade_step
     [Runtime_update (\<lambda>_. None) 10 (\<lambda>t. (t = ''t'', True)) [sample_info FAILED ''t''], Request_arrived True sample_request]
     sample_facade) ''t'' = Some ''complete''"
  by (rule complete_stays_complete [OF sample_facade_inv])
     (simp_all add: keeps_complete_cmd_def sample_facade_def shown_state_def transfer_state_def sample_history_def sample_row_def)

text \<open>
  C18. An offer counts as accepted only if it was before or an explicit accept of its identifier
  ran while exactly that offer (same peer, files, size and message) was pending: republishing an
  identifier with other contents never inherits an approval.
\<close>

theorem acceptance_is_explicit:
  assumes "inbox_inv m" "list_all fresh_cmd cs" "accepted_as (fold inbox_step cs m) tid key"
  shows "accepted_as m tid key \<or>
    (\<exists>pre post. cs = pre @ Accept tid # post \<and> pending_as (fold inbox_step pre m) tid key)"
  by (rule run_accepted [OF assms])

theorem acceptance_is_explicit_witness:
  "\<exists>pre post. [Publish sample_request, Accept sample_tid] = pre @ Accept sample_tid # post
     \<and> pending_as (fold inbox_step pre (rc_inbox sample_receiver)) sample_tid (offer_key sample_request)"
proof -
  have inv: "inbox_inv (rc_inbox sample_receiver)"
    by (simp add: sample_receiver_def inbox_inv_def pending_count_def)
  have fresh: "list_all fresh_cmd [Publish sample_request, Accept sample_tid]"
    by (simp add: fresh_cmd_def sample_request_def make_request_def)
  have "rq_transfer_id sample_request = sample_tid" "rq_status sample_request = Req_PENDING_APPROVAL"
    by (simp_all add: sample_request_def make_request_def)
  then have "accepted_as (fold inbox_step [Publish sample_request, Accept sample_tid] (rc_inbox sample_receiver))
      sample_tid (offer_key sample_request)"
    by (simp add: accepted_as_def get_request_def sample_receiver_def publish_def pending_count_def put_entry_def
        accept_request_def decide_def is_pending_def offer_key_def Let_def)
  from acceptance_is_explicit [OF inv fresh this] show ?thesis
    by (auto simp: accepted_as_def get_request_def sample_receiver_def)
qed

text \<open>
  C19. When the sending worker returns without an exception, every record of the batch has a
  terminal status (complete, failed, rejected or cancelled), whatever its attempts met.
\<close>

theorem worker_return_is_final:
  assumes "batch_worker e ip peer offer attempts = (Inr u, t)"
  shows "list_all (\<lambda>i. is_terminal (status i)) (sn_infos t)"
proof -
  have "all_finished t"
    using assms unfolding batch_worker_def
    by (rule retry_loop_finished) (simp_all add: worker_start_def)
  then show ?thesis by (simp add: all_finished_def)
qed

theorem worker_return_is_final_witness:
  "map status (sn_infos (snd (batch_worker sample_send_env ''10.0.0.3'' None sample_offer
      (\<lambda>_. idle_attempt\<lparr>at_opened := Some (AuthenticationError ''Peer is not trusted'')\<rparr>)))) = [FAILED]
   \<and> list_all (\<lambda>i. is_terminal (status i)) (sn_infos (snd (batch_worker sample_send_env ''10.0.0.3'' None sample_offer
      (\<lambda>_. idle_attempt\<lparr>at_opened := Some (AuthenticationError ''Peer is not trusted'')\<rparr>))))"
proof -
  let ?a = "\<lambda>_ :: nat. idle_attempt\<lparr>at_opened := Some (AuthenticationError ''Peer is not trusted'')\<rparr>"
  have "\<exists>t. batch_worker sample_send_env ''10.0.0.3'' None sample_offer ?a = (Inr (), t) \<and> map status (sn_infos t) = [FAILED]"
    unfolding batch_worker_first
    by (simp add: idle_attempt_def run_attempt_def send_session_def io_bind_def
        session_error_def status_each_def start_attempt_def worker_start_def batch_info_def set_status_eq)
  then obtain t where t: "batch_worker sample_send_env ''10.0.0.3'' None sample_offer ?a = (Inr (), t)"
    "map status (sn_infos t) = [FAILED]" by (elim exE conjE)
  from worker_return_is_final [OF t(1)] t show ?thesis by simp
qed

text \<open>
  C20. A successful commit, by link or by copy and with other processes racing for the name,
  exposes exactly the partial file's content under a name that was free at that moment, leaves
  every other file as the other processes left it, and removes the partial file.
\<close>

theorem commit_takes_a_free_name:
  assumes "commit_partial_file env tid fid name fs = (Inr dest, fs')" "temp_fresh env fs"
  shows "\<exists>k content. part_of fs tid fid = Some content
    \<and> file_at (interfere (concat (take k (ce_races env))) fs) dest = None
    \<and> (\<forall>n. file_at fs' n = (if n = dest then Some content else file_at (interfere (concat (take k (ce_races env))) fs) n))
    \<and> part_of fs' tid fid = None"
  by (rule commit_sound [OF assms]) (fastforce simp: part_of_def)

theorem commit_takes_a_free_name_witness:
  "\<exists>fs'. commit_partial_file (re_commit sample_env ''file-0'') sample_tid ''file-0'' ''a.txt''
        (write_part sample_tid ''file-0'' [7] (rc_fs sample_receiver)) = (Inr ''a (1).txt'', fs')
     \<and> part_of fs' sample_tid ''file-0'' = None"
proof -
  let ?fs = "write_part sample_tid ''file-0'' [7] (rc_fs sample_receiver)"
  have c: "commit_partial_file (re_commit sample_env ''file-0'') sample_tid ''file-0'' ''a.txt'' ?fs =
     (Inr ''a (1).txt'', remove_part sample_tid ''file-0'' (write_file ''a (1).txt'' [7] (write_file ''a.txt'' [9] ?fs)))"
    by (rule sample_commit) (simp_all add: sample_receiver_def write_part_def part_of_def)
  have "temp_fresh (re_commit sample_env ''file-0'') ?fs"
    by (simp add: temp_fresh_def sample_env_def sample_receiver_def file_at_def write_part_def)
  from commit_takes_a_free_name [OF c this] c show ?thesis by blast
qed

text \<open>
  C21. Preparing a transfer never changes the receive directory, and the state it gives each
  offered file is safe to resume from: either an exposed file whose content has the offered size
  and digest, or an offset equal to the length of the partial file (or 0) and at most the
  offered size.
\<close>

theorem prepared_offsets_sound:
  assumes "prepare c offer fs = (Inr sts, fs')" "distinct (map ifile_id (offer_files offer))"
    "f \<in> set (offer_files offer)"
  shows "file_at fs' = file_at fs
    \<and> (\<exists>st. dict_get sts (ifile_id f) = Some st \<and> state_ok c (offer_id offer) fs' f st)"
  using prepare_sound [OF assms(1,2)] assms(3) by blast

theorem prepared_offsets_sound_witness:
  "\<exists>fs'. prepare toy_crypto sample_offer (rc_fs after_decision) = (Inr [(''file-0'', \<lparr>rs_offset = 0, rs_final = None\<rparr>)], fs')
     \<and> (\<exists>st. dict_get [(''file-0'', \<lparr>rs_offset = 0, rs_final = None\<rparr>)] (ifile_id sample_file) = Some st
            \<and> state_ok toy_crypto (offer_id sample_offer) fs' sample_file st)"
  using sample_prepare prepared_offsets_sound [OF sample_prepare, of sample_file] by simp

text \<open>
  C22. The resume frame the receiver builds is always accepted by the sender of the same offer,
  and the sender obtains for every file exactly the offset the receiver prepared.
\<close>

theorem resume_negotiation_agrees:
  assumes "prepare c offer fs = (Inr sts, fs')" "offer_wf offer"
  shows "validate_resume_state (resume_state_json offer sts) offer =
    Inr (map (\<lambda>f. (ifile_id f, rs_offset (the (dict_get sts (ifile_id f))))) (offer_files offer))"
  using prepared_state_accepted [OF assms(1)] assms(2) by (simp add: offer_wf_def)

theorem resume_negotiation_agrees_witness:
  "validate_resume_state (resume_state_json sample_offer [(''file-0'', \<lparr>rs_offset = 0, rs_final = None\<rparr>)]) sample_offer
     = Inr [(''file-0'', 0)]"
  using resume_negotiation_agrees [OF sample_prepare] sample_offer_ok by (simp add: offer_sendable_def)

text \<open>
  C23. A data frame of at most one chunk, sealed and sent, is read back unchanged by the peer
  with the same key however the network cuts it, and the rest of the stream is left for the next
  frame.
\<close>

theorem sealed_frame_roundtrip:
  assumes "aead_ok c" "length nonce = NONCE_SIZE" "length key = 32" "length d \<le> CHUNK_SIZE"
    and "send_encrypted_frame c fr nonce key (Data d) = Inr wire" "arrivals s" "stream_of s = wire @ rest"
  shows "\<exists>s'. receive_data_frame c key s = (Inr d, s') \<and> stream_of s' = rest"
proof -
  have "length (payload_bytes fr (Data d)) < 2 ^ 32 - 28"
    using assms(4) by (simp add: payload_bytes_def CHUNK_SIZE_def)
  from send_sealed [OF assms(1-3) this] assms(5) have "wire = sealed c key nonce d"
    by (simp add: payload_bytes_def)
  with receive_sealed_data [OF assms(1-4,6)] assms(7) show ?thesis by metis
qed

theorem sealed_frame_roundtrip_witness:
  "\<exists>s'. receive_data_frame toy_crypto sample_key
      [Arrive (sealed toy_crypto sample_key sample_nonce [7]), Arrive [1, 2]] = (Inr [7], s') \<and> stream_of s' = [1, 2]"
proof (rule sealed_frame_roundtrip)
  show "send_encrypted_frame toy_crypto (\<lambda>_. []) sample_nonce sample_key (Data [7])
      = Inr (sealed toy_crypto sample_key sample_nonce [7])"
    using send_sealed [OF toy_crypto_ok(4), of sample_nonce sample_key "\<lambda>_. []" "Data [7]"]
    by (simp add: payload_bytes_def)
qed (simp_all add: toy_crypto_ok CHUNK_SIZE_def)

text \<open>
  C24. The tables stay consistent: from an intact database file, opened and migrated from any
  older version, and through any sequence of writes that succeed or fail, each transfer
  identifier has one row, each file of a transfer one row, row numbers are unique, and no file
  row refers to a transfer that is not there.
\<close>

theorem history_integrity:
  assumes "db_ok f"
  shows "history_inv (fold history_step cmds (open_history ok f))"
  by (rule history_machine.run_inv [OF open_history_inv [OF assms]])

theorem history_integrity_witness:
  "history_inv (fold history_step [(Add_file sample_file_row, True), (Delete ''t'', True)] (open_history True sample_db))"
  by (rule history_integrity [OF sample_db_ok])

text \<open>
  C25. After a restart no transfer looks as if it were still running: opening the store keeps
  every finished status and turns each of pending, pending_approval, accepted, active,
  interrupted and resuming into interrupted; no transfer appears or disappears.
\<close>

theorem restart_interrupts:
  assumes "1 \<le> db_version f" "db_version f \<le> SCHEMA_VERSION"
  shows "transfer_state (open_history True f) tid =
    map_option (\<lambda>r. if tr_status r \<in> {''pending'', ''pending_approval'', ''accepted'', ''active'', ''interrupted'', ''resuming''}
                   then ''interrupted'' else tr_status r) (dict_get (db_transfers f) tid)"
proof -
  obtain h where h: "migrate f = Some h" using assms(2) by (simp add: migrate_def Let_def)
  then have "open_history True f = h" by (simp add: open_history_def)
  with migrate_states [OF h assms(1), of tid] show ?thesis by (simp add: INTERRUPTIBLE_def)
qed

theorem restart_interrupts_witness:
  "transfer_state (open_history True sample_db) ''t'' = Some ''complete''
   \<and> transfer_state (open_history True sample_db) ''u'' = Some ''interrupted''"
  using restart_interrupts [of sample_db "''t''"] restart_interrupts [of sample_db "''u''"]
  by (simp add: sample_db_def SCHEMA_VERSION_def sample_row_def)

text \<open>
  C26. The address book survives a restart: after a save, loading the file gives back every
  contact with all of its fields, as long as what record_success and record_error stored without
  a check (the address, the time and the error text) is what the loader accepts.
\<close>

theorem contacts_survive_restart:
  assumes "book_inv c b" "\<forall>(k, e) \<in> set (bk_entries b). entry_loadable e"
  shows "\<exists>b'. book_load c (bk_disk (snd (book_save True b))) = Inr b' \<and> dict_get (bk_entries b') = dict_get (bk_entries b)"
  by (rule book_reload [OF assms])

theorem contacts_survive_restart_witness:
  "\<exists>b'. book_load toy_crypto (bk_disk (snd (book_save True sample_book))) = Inr b'
    \<and> dict_get (bk_entries b') ''mp-00000000'' = Some sample_contact"
  using contacts_survive_restart [OF sample_book_inv] sample_entry
  by (auto simp: sample_book_def entry_loadable_def sample_contact_def book_get_def)

text \<open>
  C27. Trust decisions survive a crash at any moment of a save: wherever the process stops
  between creating the temporary file and replacing the document, whatever other threads do to
  other files, a start finds under the name of the document either the complete old bytes or the
  complete new ones; it loads the decisions from before the save if os.replace was not reached,
  and if it was, for every identifier the saved decision, except that a record whose name or
  times the loader refuses (a name trust() was given that is too long or not printable) is
  dropped and no other.
\<close>

theorem crash_keeps_trust:
  assumes "trust_inv c s"
    and "parse data = Content (sort_keys (trust_document (ts_devices s)))"
    and "trust_load c (shown_document parse name d) = Inr s0"
    and "(atomic_write_step name data OWNER_ONLY)\<^sup>*\<^sup>* (writer_start d) w"
  shows "fw_dir w name \<in> {d name, Some \<lparr>sf_mode = OWNER_ONLY, sf_data = data\<rparr>}
    \<and> (\<exists>s1. trust_load c (shown_document parse name (fw_dir w)) = Inr s1
        \<and> (\<forall>did. dict_get (ts_devices s1) did =
             (if fw_phase w \<noteq> Replaced then dict_get (ts_devices s0) did
              else case dict_get (ts_devices s) did of
                     None \<Rightarrow> None
                   | Some r \<Rightarrow> if hostname_ok (td_hostname r) \<and> 0 \<le> td_first_trusted_at r \<and> 0 \<le> td_last_seen_at r
                              then Some r else None)))"
proof -
  obtain s1 where "trust_load c (shown_document parse name (fw_dir w)) = Inr s1"
    "dict_get (ts_devices s1) = (if fw_phase w = Replaced then loadable_record s else dict_get (ts_devices s0))"
    using trust_crash_reload [OF assms(4,2,1,3)] by blast
  then show ?thesis
    using old_or_new [OF assms(4)] by (simp add: loadable_record_def device_loadable_def cong: option.case_cong)
qed

theorem crash_keeps_trust_witness:
  "\<exists>(w :: file_writer) s1. fw_phase w = Replaced
     \<and> trust_load toy_crypto (shown_document sample_document ''trusted_devices.json'' (fw_dir w)) = Inr s1
     \<and> dict_get (ts_devices s1) ''mp-00000000'' = dict_get (ts_devices (sample_trust ''pc'')) ''mp-00000000''"
proof -
  obtain w where w: "(atomic_write_step ''trusted_devices.json'' [1] OWNER_ONLY)\<^sup>*\<^sup>* (writer_start (\<lambda>_. None)) w" "fw_phase w = Replaced"
    using undisturbed_write [of "\<lambda>_. None"] by blast
  have empty: "trust_load toy_crypto (shown_document sample_document ''trusted_devices.json'' (\<lambda>_. None)) = Inr \<lparr>ts_devices = [], ts_disk = Missing\<rparr>"
    by (simp add: shown_document_def trust_load_def)
  have "sample_document [1] = Content (sort_keys (trust_document (ts_devices (sample_trust ''pc''))))"
    by (simp add: sample_document_def)
  from crash_keeps_trust [OF sample_trust_inv this empty w(1)] w(2)
  obtain s1 where s1: "trust_load toy_crypto (shown_document sample_document ''trusted_devices.json'' (fw_dir w)) = Inr s1"
    "\<forall>did. dict_get (ts_devices s1) did =
      (case dict_get (ts_devices (sample_trust ''pc'')) did of
         None \<Rightarrow> None
       | Some r \<Rightarrow> if hostname_ok (td_hostname r) \<and> 0 \<le> td_first_trusted_at r \<and> 0 \<le> td_last_seen_at r then Some r else None)"
    by auto
  have "device_loadable r" if "dict_get (ts_devices (sample_trust ''pc'')) did = Some r" for did r
    using sample_trust_loadable dict_get_in [OF that] by auto
  with s1(2) have "dict_get (ts_devices s1) ''mp-00000000'' = dict_get (ts_devices (sample_trust ''pc'')) ''mp-00000000''"
    by (auto simp: device_loadable_def split: option.splits)
  with s1(1) w(2) show ?thesis by blast
qed

text \<open>
  C28. A device keeps its identity: after a start has returned one, however many later starts
  there are and whichever of them stop between their writes, the next start returns exactly this
  identity, with the same key, identifier, fingerprint and time of creation, and leaves its
  files as they are.
\<close>

theorem identity_survives_crashes:
  assumes "load_or_create c fl fresh now dir = (Inr i, dir1)" "length fresh = 32"
    and "(start_leaves c fl)\<^sup>*\<^sup>* dir1 dir2"
  shows "load_or_create c fl fresh' now' dir2 = (Inr i, dir2)"
  using starts.reach_inv [OF assms(3) load_or_create_stores [OF assms(1,2)]] by (rule stored_identity_loaded)

theorem identity_survives_crashes_witness:
  "\<exists>i dir' dir2. load_or_create toy_crypto (\<lambda>_. None) (replicate 32 1) 5 \<lparr>key_file = Missing, meta_file = Missing\<rparr> = (Inr i, dir')
     \<and> start_leaves toy_crypto (\<lambda>_. None) dir' dir2
     \<and> load_or_create toy_crypto (\<lambda>_. None) (replicate 32 2) 7 dir2 = (Inr i, dir2)"
proof -
  let ?r = "load_or_create toy_crypto (\<lambda>_. None) (replicate 32 1) 5 \<lparr>key_file = Missing, meta_file = Missing\<rparr>"
  obtain i dir' where r: "?r = (Inr i, dir')"
    by (simp add: load_or_create_def load_private_key_def load_metadata_def to_float_def Let_def)
  have later: "start_leaves toy_crypto (\<lambda>_. None) dir' (snd (load_or_create toy_crypto (\<lambda>_. None) (replicate 32 3) 6 dir'))"
    by (rule run_through)
  then have "(start_leaves toy_crypto (\<lambda>_. None))\<^sup>*\<^sup>* dir' (snd (load_or_create toy_crypto (\<lambda>_. None) (replicate 32 3) 6 dir'))"
    by (rule r_into_rtranclp)
  from identity_survives_crashes [OF r _ this] r later show ?thesis by auto
qed

text \<open>
  C29. The status of a transfer is the most urgent one of its files (failed before cancelled,
  rejected, interrupted, resuming, active, accepted, pending approval, pending and only then
  complete), where a file that occurs several times counts once, with the highest-ranking status
  of its records (complete before cancelled, failed, rejected, active, resuming, interrupted,
  accepted, pending approval, pending); so a transfer is complete exactly when every file has a
  complete record.
\<close>

theorem aggregate_is_most_urgent:
  assumes "raw \<noteq> []"
    and "best = (\<lambda>k. first_held
      [COMPLETE, CANCELLED, FAILED, REJECTED, ACTIVE, RESUMING, INTERRUPTED, ACCEPTED, PENDING_APPROVAL, PENDING]
      {status x | x. x \<in> set raw \<and> file_group_key x = k})"
  shows "length (merged_files raw) = card (file_group_key ` set raw)
    \<and> status ` set (merged_files raw) = best ` file_group_key ` set raw
    \<and> aggregate_status (merged_files raw) = first_held
        [FAILED, CANCELLED, REJECTED, INTERRUPTED, RESUMING, ACTIVE, ACCEPTED, PENDING_APPROVAL, PENDING, COMPLETE]
        (best ` file_group_key ` set raw)
    \<and> (aggregate_status (merged_files raw) = COMPLETE
       \<longleftrightarrow> (\<forall>i \<in> set raw. \<exists>j \<in> set raw. file_group_key j = file_group_key i \<and> status j = COMPLETE))"
  using merged_files_count merged_statuses [of raw] aggregate_first_held [OF merged_nonempty [OF assms(1)]]
    merged_complete [OF assms(1)]
  by (simp only: assms(2) simp_thms)

theorem aggregate_is_most_urgent_witness:
  "aggregate_status (merged_files [sample_info COMPLETE ''t'', sample_info FAILED ''t'']) = COMPLETE"
  by (rule iffD2 [OF aggregate_is_most_urgent [OF _ refl, THEN conjunct2, THEN conjunct2, THEN conjunct2]])
     (simp_all add: file_group_key_def file_name_key_def sample_info_def)

text \<open>
  C30. The address shown for this device is a usable IPv4 address of an interface that is not
  down, the one the system routes by default if that is among them, otherwise a private one if
  there is any; and none is shown exactly when there is no usable address at all.
\<close>

theorem local_address_choice:
  assumes "usable = {a. is_usable a \<and> (\<exists>(name, es) \<in> set addrs. stats name \<noteq> Some False \<and> (True, a) \<in> set es)}"
  shows "(case primary_local_ipv4 addrs stats probe of
      None \<Rightarrow> usable = {}
    | Some a \<Rightarrow> a \<in> usable \<and> (\<forall>r. probe = Some r \<and> r \<in> usable \<longrightarrow> a = r)
        \<and> (probe \<noteq> Some a \<longrightarrow> is_private a \<or> (\<forall>b \<in> usable. \<not> is_private b)))"
proof -
  let ?cs = "usable_local_ipv4_interfaces addrs stats" and ?p = "default_route_ipv4 probe"
  have u: "usable = li_address ` set ?cs" "\<And>b. b \<in> usable \<Longrightarrow> is_usable b"
    unfolding usable_addresses assms by auto
  show ?thesis
  proof (cases "primary_local_ipv4 addrs stats probe")
    case None
    then have "\<forall>i \<in> set ?cs. \<not> is_usable (li_address i)" by (simp add: primary_local_ipv4_def select_complete)
    then show ?thesis using u None by auto
  next
    case (Some a)
    then have sel: "select_local_ipv4 ?cs ?p = Some a" by (simp add: primary_local_ipv4_def)
    have routed: "a = r" if "probe = Some r" "r \<in> usable" for r
      using select_prefers [of r ?cs] that u sel by (simp add: default_route_ipv4_def)
    have "?p = Some a \<Longrightarrow> probe = Some a" by (auto simp: default_route_ipv4_def split: option.splits if_splits)
    then show ?thesis using select_sound [OF sel] u Some routed by auto
  qed
qed

theorem local_address_choice_witness:
  "primary_local_ipv4 [(''eth0'', [(True, ''8.8.8.8'')]), (''lan'', [(True, ''192.168.1.24'')])] (\<lambda>_. None) None = Some ''192.168.1.24''"
proof -
  let ?addrs = "[(''eth0'', [(True, ''8.8.8.8'')]), (''lan'', [(True, ''192.168.1.24'')])]"
  have facts: "is_usable ''8.8.8.8''" "is_usable ''192.168.1.24''" "is_private ''192.168.1.24''" "\<not> is_private ''8.8.8.8''"
    by code_simp+
  have "{a. is_usable a \<and> (\<exists>(name, es) \<in> set ?addrs. (\<lambda>_. None) name \<noteq> Some False \<and> (True, a) \<in> set es)}
      = {''8.8.8.8'', ''192.168.1.24''}"
    using facts(1,2) by auto
  from local_address_choice [OF this [symmetric], of None] facts(3,4) show ?thesis
    by (auto split: option.splits)
qed

text \<open>
  C31. Two honest devices pair: when each side receives the frame the other one sent, each
  learns exactly the other's identifier, public key, fingerprint and transfer port, under the
  address it saw; no trust is needed or recorded.
\<close>

theorem devices_pair:
  assumes ready: "primitives_ok c ld" "identity_ok c ci" "identity_ok c si" "length cn = 32" "length sn = 32"
    and ports: "1 \<le> cport" "cport \<le> 65535" "1 \<le> sport" "sport \<le> 65535"
    and hellos: "ch = pairing_hello c fr ci ''client'' cn cport None"
      "sh = pairing_hello c fr si ''server'' sn sport (Some (hello_hash c fr ch))"
    and server: "cn_sends s = []" "arrivals (cn_net s)" "stream_of (cn_net s) = framed (canonical fr ch) @ rest"
    and client: "cn_sends k = []" "arrivals (cn_net k)" "stream_of (cn_net k) = framed (canonical fr sh) @ rest'"
  shows "\<exists>hello s1 s' k'. receive_json ld s = (Inr hello, s1)
    \<and> server_pair c fr sn now si ip hello sport s1 = (Inr (identity_of c ci ip now cport), s')
    \<and> cn_sent s' = cn_sent s @ [framed (canonical fr sh)]
    \<and> client_pair c fr ld cn now' ci ip' cport k = (Inr (identity_of c si ip' now' sport), k')
    \<and> cn_sent k' = cn_sent k @ [framed (canonical fr ch)]"
proof -
  obtain s1 where s1: "receive_json ld s = (Inr (JObj (sorted_doc ch)), s1)" "cn_sends s1 = []" "cn_sent s1 = cn_sent s"
    using pairing_arrives [OF ready(1,2,4) ports(1,2) hellos(1) server] by blast
  obtain n where "client_pair c fr ld cn now' ci ip' cport k = (Inr (identity_of c si ip' now' sport),
      k\<lparr>cn_sent := cn_sent k @ [framed (canonical fr ch)], cn_net := n\<rparr>)"
    using client_pairs [OF ready ports hellos client] by blast
  with s1 server_pairs [OF ready ports hellos s1(2)] show ?thesis by fastforce
qed

theorem devices_pair_witness:
  "\<exists>hello s1 s' k'. receive_json ascii_parser (conn_with [Arrive (framed (canonical sample_floats sample_pair_client))]) = (Inr hello, s1)
    \<and> server_pair toy_crypto sample_floats sample_secret 7 sample_identity ''10.0.0.2'' hello 5001 s1
        = (Inr (identity_of toy_crypto sample_identity ''10.0.0.2'' 7 5000), s')
    \<and> cn_sent s' = [framed (canonical sample_floats sample_pair_server)]
    \<and> client_pair toy_crypto sample_floats ascii_parser sample_secret 8 sample_identity ''10.0.0.3'' 5000
        (conn_with [Arrive (framed (canonical sample_floats sample_pair_server))])
        = (Inr (identity_of toy_crypto sample_identity ''10.0.0.3'' 8 5001), k')
    \<and> cn_sent k' = [framed (canonical sample_floats sample_pair_client)]"
  using devices_pair [OF ascii_primitives_ok sample_identity_ok sample_identity_ok sample_secret_length sample_secret_length _ _ _ _
      sample_pair_client_def sample_pair_server_def,
      of "conn_with [Arrive (framed (canonical sample_floats sample_pair_client))]" "[]"
         "conn_with [Arrive (framed (canonical sample_floats sample_pair_server))]" "[]" 7 "''10.0.0.2''" 8 "''10.0.0.3''"]
  by simp

text \<open>
  C32. What a pairing request is shown as cannot be forged: the identifier and the fingerprint
  the user compares are those of the very public key that signed the request, the port is a
  valid one, and a frame of the session protocol never counts as a pairing proof, because the
  two protocols sign under different prefixes.
\<close>

theorem pairing_names_its_key:
  assumes "server_pair c fr nonce now i ip hello lport s = (Inr p, s')"
  shows "\<exists>d. hello = JObj d \<and> key_bound c (pr_device_id p) (pr_public_key p)
    \<and> fingerprint_from_public_key c (pr_public_key p) = Inr (pr_fingerprint p)
    \<and> pairing_vouched c fr (pr_public_key p) d
    \<and> oget d ''device_id'' = JStr (pr_device_id p) \<and> oget d ''transfer_port'' = JInt (pr_transfer_port p)
    \<and> 1 \<le> pr_transfer_port p \<and> pr_transfer_port p \<le> 65535 \<and> pr_peer_ip p = ip \<and> pr_received_at p = now
    \<and> (\<forall>fr' d'. pairing_signed fr d \<noteq> signed_bytes fr' d')"
  by (rule server_pair_sound [OF assms]) (use domains_differ in blast)

theorem pairing_names_its_key_witness:
  "\<exists>d. JObj (sorted_doc sample_pair_client) = JObj d
    \<and> key_bound toy_crypto (pr_device_id sample_paired) (pr_public_key sample_paired)
    \<and> fingerprint_from_public_key toy_crypto (pr_public_key sample_paired) = Inr (pr_fingerprint sample_paired)
    \<and> pairing_vouched toy_crypto sample_floats (pr_public_key sample_paired) d
    \<and> oget d ''device_id'' = JStr (pr_device_id sample_paired)
    \<and> oget d ''transfer_port'' = JInt (pr_transfer_port sample_paired)
    \<and> 1 \<le> pr_transfer_port sample_paired \<and> pr_transfer_port sample_paired \<le> 65535
    \<and> pr_peer_ip sample_paired = ''10.0.0.2'' \<and> pr_received_at sample_paired = 7
    \<and> (\<forall>fr' d'. pairing_signed sample_floats d \<noteq> signed_bytes fr' d')"
  by (rule pairing_names_its_key [OF sample_server_pairs])



text \<open>
  C34. A connection that cannot be opened on the first attempt is not retried: the handler asks
  for INTERRUPTED from PENDING_APPROVAL, the lifecycle refuses it, the exception leaves the
  worker, and the records stay waiting for approval.
\<close>

theorem first_connection_failure_escapes:
  assumes "offer_files offer \<noteq> []" "\<not> at_cancelled (attempts 0)" "at_opened (attempts 0) = Some x"
    "connection_failure x"
  shows "fst (batch_worker e ip peer offer attempts) = Inl (transition_error PENDING_APPROVAL INTERRUPTED)
    \<and> list_all (\<lambda>i. status i = PENDING_APPROVAL) (sn_infos (snd (batch_worker e ip peer offer attempts)))"
  using first_failure_escapes [where attempts = attempts, OF assms]
  by (simp add: start_attempt_def worker_start_def batch_info_def list_all_iff)

theorem first_connection_failure_escapes_witness:
  "fst (batch_worker sample_send_env ''10.0.0.3'' None sample_offer
      (\<lambda>_. idle_attempt\<lparr>at_opened := Some ConnectionRefused\<rparr>))
     = Inl (InvalidTransferTransition ''pending_approval -> interrupted'')
   \<and> list_all (\<lambda>i. status i = PENDING_APPROVAL) (sn_infos (snd (batch_worker sample_send_env ''10.0.0.3'' None sample_offer
      (\<lambda>_. idle_attempt\<lparr>at_opened := Some ConnectionRefused\<rparr>))))"
  using first_connection_failure_escapes [of sample_offer "\<lambda>_. idle_attempt\<lparr>at_opened := Some ConnectionRefused\<rparr>"
      ConnectionRefused sample_send_env "''10.0.0.3''" None]
  by (simp add: idle_attempt_def connection_failure_def transition_error_def)

text \<open>
  C35. A decision with a name the address book refuses (unprintable, or with a space at either
  end, also after the cut to 80 characters) raises, yet the trust it stored first stays, without
  a contact: to the user the decision has failed, to the listener the device is trusted.
\<close>

theorem refused_name_keeps_trust:
  assumes "decided_identity clk did s = (Inr (p, ep), s1)" "key_bound (se_primitives e) did (pr_public_key p)"
    and "\<not> friendly_name_ok (decision_name name ep)" "service_trust e True io2 clk now did name s = (r, s')"
  shows "(\<exists>x. r = Inl x) \<and> trusted (sv_trust s') did (pr_public_key p) \<and> sv_book s' = sv_book s"
  by (rule refused_name [OF assms])

theorem refused_name_keeps_trust_witness:
  "\<exists>r s'. service_trust sample_service_env True True 0 1 ''mp-00000000'' (Some '' pc'') sample_new = (r, s')
    \<and> (\<exists>x. r = Inl x) \<and> trusted (sv_trust s') ''mp-00000000'' (di_public_key sample_identity)"
proof -
  obtain r s' where run: "service_trust sample_service_env True True 0 1 ''mp-00000000'' (Some '' pc'') sample_new = (r, s')"
    by force
  have "\<not> friendly_name_ok (decision_name (Some '' pc'') sample_endpoint)" unfolding sample_endpoint_def by code_simp
  from refused_name_keeps_trust [OF sample_new_decided _ this run] run show ?thesis
    by (simp add: sample_service_env_primitives sample_bound)
qed

text \<open>
  C36. Approving a pairing request can trust a key that was never on the screen: the row shows
  the request of the inbox, but trust() prefers an outgoing pairing under the same identifier;
  since identifiers are 32 bits of a digest, two keys can share one, and then the key of the
  earlier, perhaps rejected, answer is trusted and the one that was compared is not.
\<close>

theorem approval_trusts_unseen_key:
  assumes "selected_key t = Some (pending_key did)" "fst (pairing_get clk did (sv_pairings s)) = Some q"
    and "dict_get (sv_outbound s) did = Some (p, ep)" "pr_public_key q \<noteq> pr_public_key p"
    and "key_bound (se_primitives e) did (pr_public_key p)" "key_bound (se_primitives e) did (pr_public_key q)"
  shows "trusted (sv_trust (snd (snd (action_approve e io1 io2 cleared clk now later (t, s))))) did (pr_public_key p)
    \<and> \<not> trusted (sv_trust (snd (snd (action_approve e io1 io2 cleared clk now later (t, s))))) did (pr_public_key q)"
  by (rule approve_other_key [OF assms(1,3,5,4)]) (simp add: prod_eq_iff)

theorem approval_trusts_unseen_key_witness:
  "trusted (sv_trust (snd (snd (action_approve sample_service_env True True 0 1 1 1 (sample_table, sample_both)))))
     ''mp-00000000'' (pr_public_key sample_found)"
proof -
  have "dict_get (sv_outbound sample_both) ''mp-00000000'' = Some (sample_found, sample_endpoint)"
    by (simp add: sample_both_def sample_new_def)
  moreover have "fst (pairing_get 1 ''mp-00000000'' (sv_pairings sample_both)) = Some sample_other"
    by (simp add: sample_both_def pairing_get_def pairing_prune_def)
  ultimately show ?thesis
    using approval_trusts_unseen_key [OF sample_table_selected, of 1 sample_both sample_other sample_found sample_endpoint
        sample_service_env] other_differs other_bound sample_new_bound
    by (simp add: sample_service_env_primitives)
qed

text \<open>
  C37. Shutdown reaches exactly the work that begins after it, and can miss work that is just
  beginning. In every reachable state: a call of send_batch that begins once the stopping flag
  is set is refused for good; but a call that has passed the check of the flag and is not
  registered when the signals are through (it holds a slot, or one is free) can go on to a
  running worker whose cancel event is not set; and a connection that run has accepted but not
  registered when shutdown is through (it holds a slot, or one is free) can still be served on a
  socket that nothing has closed.
\<close>

theorem late_work_escapes_shutdown:
  assumes "send_step\<^sup>*\<^sup>* send_pool_new s" "listen_step\<^sup>*\<^sup>* listen_pool_new l"
  shows "(sp_stop s \<noteq> Not_stopping \<and> sp_phase s t = None \<and> send_step\<^sup>*\<^sup>* s s1 \<longrightarrow> sp_phase s1 t \<in> {None, Some Refused})
    \<and> (sp_stop s = Signalled \<and> (sp_phase s t = Some Slotted \<or> sp_phase s t = Some Checked \<and> 0 < sp_free s) \<longrightarrow>
         (\<exists>s'. send_step\<^sup>*\<^sup>* s s' \<and> sp_stop s' = Signalled \<and> sp_phase s' t = Some Working \<and> t \<notin> sp_set s'))
    \<and> (lp_shut l = Closed_down \<and> (lp_loop l = Admitted c \<or> lp_loop l = Accepted c \<and> 0 < lp_free l) \<longrightarrow>
         (\<exists>l'. listen_step\<^sup>*\<^sup>* l l' \<and> lp_shut l' = Closed_down \<and> lp_sessions l' c = Some Serving \<and> c \<notin> lp_closed l'))"
  using latecomer_refused [OF assms(1)] slips_through [OF assms(1)] accepted_slips_through [OF assms(2)] by blast

theorem late_work_escapes_shutdown_witness:
  "(\<exists>s. send_step\<^sup>*\<^sup>* send_pool_new s \<and> sp_stop s = Signalled \<and> sp_phase s ''t'' = Some Working \<and> ''t'' \<notin> sp_set s)
   \<and> (\<exists>l. listen_step\<^sup>*\<^sup>* listen_pool_new l \<and> lp_shut l = Closed_down \<and> lp_sessions l 0 = Some Serving \<and> 0 \<notin> lp_closed l)"
proof -
  obtain s where s: "send_step\<^sup>*\<^sup>* send_pool_new s" "sp_stop s = Signalled" "sp_phase s ''t'' = Some Checked" "0 < sp_free s"
    using caught_in_between by blast
  obtain l where l: "listen_step\<^sup>*\<^sup>* listen_pool_new l" "lp_shut l = Closed_down" "lp_loop l = Accepted 0" "0 < lp_free l"
    using accepted_in_between by blast
  from late_work_escapes_shutdown [OF s(1) l(1), of "''t''" s 0] s l
  obtain s' l' where "send_step\<^sup>*\<^sup>* s s'" "sp_stop s' = Signalled" "sp_phase s' ''t'' = Some Working" "''t'' \<notin> sp_set s'"
    "listen_step\<^sup>*\<^sup>* l l'" "lp_shut l' = Closed_down" "lp_sessions l' 0 = Some Serving" "0 \<notin> lp_closed l'" by auto
  with s(1) l(1) show ?thesis by (meson rtranclp_trans)
qed

text \<open>
  C38. Every offer accepted from a peer is well formed: valid transfer identifier, 1 to 1024
  files with distinct valid identifiers, names the sanitizer leaves as they are (not empty, at
  most 255 bytes, printable, without separators or drive letters, not a reserved or relative
  name), sizes and digests in range, a total that is the sum of the sizes and within the session
  limit, and a bounded message.
\<close>

theorem accepted_offer_well_formed:
  assumes "validate_offer payload = Inr offer"
  shows "offer_wf offer \<and> (\<forall>f \<in> set (offer_files offer). safe_name (ifile_name f))"
  using validate_offer_sound [OF assms] offer_names_safe by blast

theorem accepted_offer_well_formed_witness: "offer_wf sample_offer \<and> safe_name ''a.txt''"
  using accepted_offer_well_formed [OF validate_offer_json [OF sample_offer_ok]]
  by (simp add: sample_offer_def sample_file_def)

text \<open>
  C39. The search for a collision-free name always ends, and it returns a name as long as none
  of the candidates it may need exceeds the file system's 255 bytes.
\<close>

theorem destination_search_succeeds:
  assumes "sanitize_filename name = Inr name"
    and "\<forall>j\<le>length (fs_files fs). utf8_length (candidate name j) \<le> 255"
  shows "\<exists>dest. resolve_destination fs name = Inr dest \<and> file_at fs dest = None"
  using resolve_total [OF assms] resolve_fresh by blast

theorem destination_search_succeeds_witness:
  "\<exists>dest. resolve_destination (rc_fs sample_receiver) ''a.txt'' = Inr dest \<and> file_at (rc_fs sample_receiver) dest = None"
proof (rule destination_search_succeeds [OF sample_name_ok])
  have c: "candidate ''a.txt'' 0 = ''a.txt''" "candidate ''a.txt'' (Suc 0) = ''a (1).txt''"
    by (simp_all add: candidate_def path_stem_def path_suffix_def ends_with_def show_nat.simps digit_one [simplified])
  then show "\<forall>j\<le>length (fs_files (rc_fs sample_receiver)). utf8_length (candidate ''a.txt'' j) \<le> 255"
    by (auto simp: sample_receiver_def le_Suc_eq utf8_length_def)
qed

text \<open>
  C40. A decision on an incoming request is final: while decided entries are not pruned, no
  operation of any thread changes an accepted, rejected, expired or cancelled request.
\<close>

theorem inbox_decisions_final:
  assumes "inbox_inv m" "list_all fresh_cmd cs" "list_all not_prune cs"
    and "request_state m tid = Some v" "v \<noteq> Req_PENDING_APPROVAL"
  shows "request_state (fold inbox_step cs m) tid = Some v"
  using inbox_decided.run_final [OF assms(1,3,4,5)] fresh_run [OF assms(2)] by simp

theorem inbox_decisions_final_witness:
  "request_state (fold inbox_step [Accept sample_tid, Expire sample_tid]
     (fold inbox_step [Publish sample_request, RejectReq sample_tid ''no''] (rc_inbox sample_receiver))) sample_tid
   = Some Req_REJECTED"
proof (rule inbox_decisions_final)
  have fresh: "list_all fresh_cmd [Publish sample_request, RejectReq sample_tid ''no'']"
    by (simp add: fresh_cmd_def sample_request_def make_request_def)
  have "inbox_inv (rc_inbox sample_receiver)"
    by (simp add: sample_receiver_def inbox_inv_def pending_count_def)
  from inbox_run_inv [OF this fresh]
  show "inbox_inv (fold inbox_step [Publish sample_request, RejectReq sample_tid ''no''] (rc_inbox sample_receiver))" .
  have "rq_transfer_id sample_request = sample_tid" "rq_status sample_request = Req_PENDING_APPROVAL"
    by (simp_all add: sample_request_def make_request_def)
  then show "request_state (fold inbox_step [Publish sample_request, RejectReq sample_tid ''no''] (rc_inbox sample_receiver)) sample_tid
      = Some Req_REJECTED"
    by (simp add: request_state_def get_request_def sample_receiver_def publish_def pending_count_def put_entry_def
        reject_request_def decide_def is_pending_def Let_def)
qed (simp_all add: fresh_cmd_def not_prune_def)

end
